(* ===== verification/Prelude.thy ===== *)
theory Prelude
  imports Main "HOL-Library.Multiset"
begin

text \<open>
  Shared vocabulary of the development: the program monad in which every stateful
  operation of the source is written, the weakest-precondition calculus used to reason
  about it, and the list lemmas the repositories and the dependency updater share.

  An operation of the source that reads or changes state and may raise is a function
  from a world to a result and the next world. A raised exception is the value
  \<open>Inl e\<close>; the world reached when it was raised is kept, because the callers of
  the source (the unit of work, the retry-free \<open>except\<close> clauses) go on from it.
\<close>

named_theorems prog_defs \<open>definitions of the program monad, unfolded to evaluate a run\<close>
named_theorems wp_simps \<open>weakest-precondition equations, one per program former\<close>

section \<open>The program monad\<close>

type_synonym ('w, 'e, 'a) prog = "'w \<Rightarrow> ('e + 'a) \<times> 'w"

definition ret :: "'a \<Rightarrow> ('w, 'e, 'a) prog" where
  [prog_defs]: "ret x = (\<lambda>w. (Inr x, w))"

definition raise :: "'e \<Rightarrow> ('w, 'e, 'a) prog" where
  [prog_defs]: "raise e = (\<lambda>w. (Inl e, w))"

definition bind_p :: "('w, 'e, 'a) prog \<Rightarrow> ('a \<Rightarrow> ('w, 'e, 'b) prog) \<Rightarrow> ('w, 'e, 'b) prog" where
  [prog_defs]: "bind_p m k =
     (\<lambda>w. case m w of (Inl e, w') \<Rightarrow> (Inl e, w') | (Inr x, w') \<Rightarrow> k x w')"

text \<open>\<open>try: m except e: h e\<close>; a handler that does not match re-raises.\<close>

definition try_except :: "('w, 'e, 'a) prog \<Rightarrow> ('e \<Rightarrow> ('w, 'e, 'a) prog) \<Rightarrow> ('w, 'e, 'a) prog" where
  [prog_defs]: "try_except m h =
     (\<lambda>w. case m w of (Inl e, w') \<Rightarrow> h e w' | (Inr x, w') \<Rightarrow> (Inr x, w'))"

text \<open>A pure computation that may raise, and a read or a write of the world.\<close>

definition of_result :: "'e + 'a \<Rightarrow> ('w, 'e, 'a) prog" where
  [prog_defs]: "of_result r = (\<lambda>w. (r, w))"

definition gets :: "('w \<Rightarrow> 'a) \<Rightarrow> ('w, 'e, 'a) prog" where
  [prog_defs]: "gets f = (\<lambda>w. (Inr (f w), w))"

definition modify :: "('w \<Rightarrow> 'w) \<Rightarrow> ('w, 'e, unit) prog" where
  [prog_defs]: "modify f = (\<lambda>w. (Inr (), f w))"

text \<open>\<open>for x in xs: body x\<close>, collecting the values of the body.\<close>

fun for_each :: "'a list \<Rightarrow> ('a \<Rightarrow> ('w, 'e, 'b) prog) \<Rightarrow> ('w, 'e, 'b list) prog" where
  "for_each [] f = ret []"
| "for_each (x # xs) f = bind_p (f x) (\<lambda>y. bind_p (for_each xs f) (\<lambda>ys. ret (y # ys)))"

lemma bind_ret [simp]: "bind_p (ret x) k = k x"
  by (simp add: bind_p_def ret_def)

lemma bind_raise [simp]: "bind_p (raise e) k = raise e"
  by (simp add: bind_p_def raise_def)

lemma bind_ret_right [simp]: "bind_p m ret = m"
  by (rule ext) (simp add: bind_p_def ret_def split: prod.splits sum.splits)

lemma bind_of_result [simp]:
  "bind_p (of_result (Inr x)) k = k x"
  "bind_p (of_result (Inl e)) k = raise e"
  by (simp_all add: bind_p_def of_result_def raise_def)

lemma bind_assoc: "bind_p (bind_p m f) g = bind_p m (\<lambda>x. bind_p (f x) g)"
  by (rule ext) (simp add: bind_p_def split: prod.splits sum.splits)

section \<open>Weakest preconditions\<close>

text \<open>
  \<open>wp m Q E w\<close>: run from \<open>w\<close>, \<open>m\<close> either returns a value and a world in \<open>Q\<close> or
  raises an exception in a world in \<open>E\<close>. Every program is total, so this is total
  correctness.
\<close>

definition wp :: "('w, 'e, 'a) prog \<Rightarrow> ('a \<Rightarrow> 'w \<Rightarrow> bool) \<Rightarrow> ('e \<Rightarrow> 'w \<Rightarrow> bool) \<Rightarrow> 'w \<Rightarrow> bool" where
  "wp m Q E w = (case m w of (Inl e, w') \<Rightarrow> E e w' | (Inr x, w') \<Rightarrow> Q x w')"

lemma wp_ret [wp_simps]: "wp (ret x) Q E w = Q x w"
  by (simp add: wp_def ret_def)

lemma wp_raise [wp_simps]: "wp (raise e) Q E w = E e w"
  by (simp add: wp_def raise_def)

lemma wp_bind [wp_simps]: "wp (bind_p m k) Q E w = wp m (\<lambda>x. wp (k x) Q E) E w"
  by (simp add: wp_def bind_p_def split: prod.splits sum.splits)

lemma wp_try [wp_simps]: "wp (try_except m h) Q E w = wp m Q (\<lambda>e. wp (h e) Q E) w"
  by (simp add: wp_def try_except_def split: prod.splits sum.splits)

lemma wp_gets [wp_simps]: "wp (gets f) Q E w = Q (f w) w"
  by (simp add: wp_def gets_def)

lemma wp_modify [wp_simps]: "wp (modify f) Q E w = Q () (f w)"
  by (simp add: wp_def modify_def)

lemma wp_of_result [wp_simps]:
  "wp (of_result r) Q E w = (case r of Inl e \<Rightarrow> E e w | Inr x \<Rightarrow> Q x w)"
  by (simp add: wp_def of_result_def split: sum.splits)

lemma wp_if [wp_simps]: "wp (if b then m else n) Q E w = (if b then wp m Q E w else wp n Q E w)"
  by simp

lemma wp_option [wp_simps]:
  "wp (case x of None \<Rightarrow> m | Some y \<Rightarrow> n y) Q E w =
     (case x of None \<Rightarrow> wp m Q E w | Some y \<Rightarrow> wp (n y) Q E w)"
  by (cases x) simp_all

lemma wp_mono:
  assumes "wp m Q E w"
    and "\<And>x w'. Q x w' \<Longrightarrow> Q' x w'"
    and "\<And>e w'. E e w' \<Longrightarrow> E' e w'"
  shows "wp m Q' E' w"
  using assms by (auto simp: wp_def split: prod.splits sum.splits)

lemma wp_conj: "wp m Q E w \<Longrightarrow> wp m Q' E' w \<Longrightarrow>
    wp m (\<lambda>x w'. Q x w' \<and> Q' x w') (\<lambda>e w'. E e w' \<and> E' e w') w"
  by (auto simp: wp_def split: prod.splits sum.splits)

lemma wp_ok: "wp m Q E w \<Longrightarrow> m w = (Inr x, w') \<Longrightarrow> Q x w'"
  by (simp add: wp_def)

lemma wp_err: "wp m Q E w \<Longrightarrow> m w = (Inl e, w') \<Longrightarrow> E e w'"
  by (simp add: wp_def)

lemma wpI:
  assumes "\<And>x w'. m w = (Inr x, w') \<Longrightarrow> Q x w'"
    and "\<And>e w'. m w = (Inl e, w') \<Longrightarrow> E e w'"
  shows "wp m Q E w"
  using assms by (auto simp: wp_def split: prod.splits sum.splits)

section \<open>Inverting a run\<close>

lemma bind_ok_iff:
  "bind_p m k w = (Inr y, w2) \<longleftrightarrow> (\<exists>x w1. m w = (Inr x, w1) \<and> k x w1 = (Inr y, w2))"
  by (auto simp: bind_p_def split: prod.splits sum.splits)

lemma bind_err_iff:
  "bind_p m k w = (Inl e, w2) \<longleftrightarrow>
     m w = (Inl e, w2) \<or> (\<exists>x w1. m w = (Inr x, w1) \<and> k x w1 = (Inl e, w2))"
  by (auto simp: bind_p_def split: prod.splits sum.splits)

lemma ret_run [simp]: "ret x w = (r, w') \<longleftrightarrow> r = Inr x \<and> w' = w"
  by (auto simp: ret_def)

lemma raise_run [simp]: "raise e w = (r, w') \<longleftrightarrow> r = Inl e \<and> w' = w"
  by (auto simp: raise_def)

lemma of_result_run [simp]: "of_result x w = (r, w') \<longleftrightarrow> x = r \<and> w' = w"
  by (auto simp: of_result_def)

lemma gets_run [simp]: "gets f w = (r, w') \<longleftrightarrow> r = Inr (f w) \<and> w' = w"
  by (auto simp: gets_def)

lemma modify_run [simp]: "modify f w = (r, w') \<longleftrightarrow> r = Inr () \<and> w' = f w"
  by (auto simp: modify_def)

text \<open>Splitting a run into the runs of its parts, forwards, for \<open>auto\<close>.\<close>

lemmas run_iffs = bind_ok_iff bind_err_iff

section \<open>Lists with unique keys\<close>

lemma filter_key_unique:
  assumes "distinct (map k xs)"
  shows "filter (\<lambda>y. k y = a) xs = [] \<or> (\<exists>x. filter (\<lambda>y. k y = a) xs = [x])"
  using assms
proof (induction xs)
  case Nil
  then show ?case by simp
next
  case (Cons z zs)
  show ?case
  proof (cases "k z = a")
    case True
    with Cons.prems have "filter (\<lambda>y. k y = a) zs = []"
      by (force simp: filter_empty_conv image_iff)
    with True show ?thesis by simp
  next
    case False
    with Cons show ?thesis by simp
  qed
qed

lemma filter_length_le_1:
  assumes "distinct (map k xs)" and "\<And>y. p y \<Longrightarrow> k y = a"
  shows "length (filter p xs) \<le> 1"
proof -
  have "filter p xs = filter p (filter (\<lambda>y. k y = a) xs)"
    using assms(2) by (auto intro: filter_cong)
  also have "length \<dots> \<le> length (filter (\<lambda>y. k y = a) xs)"
    by (rule length_filter_le)
  also have "\<dots> \<le> 1"
    using filter_key_unique [OF assms(1), of a] by auto
  finally show ?thesis .
qed

lemma find_key_unique:
  assumes "distinct (map k xs)" and "x \<in> set xs"
  shows "find (\<lambda>y. k y = k x) xs = Some x"
  using assms
proof (induction xs)
  case Nil
  then show ?case by simp
next
  case (Cons z zs)
  then show ?case by (cases "z = x") auto
qed

lemma find_filter_hd: "find p xs = (case filter p xs of [] \<Rightarrow> None | x # _ \<Rightarrow> Some x)"
  by (induction xs) auto

lemma find_map: "find p (map f xs) = map_option f (find (p \<circ> f) xs)"
  by (induction xs) auto

lemma find_SomeD: "find p xs = Some x \<Longrightarrow> x \<in> set xs \<and> p x"
  by (induction xs) (auto split: if_splits)

lemma find_append: "find p (xs @ ys) = (case find p xs of None \<Rightarrow> find p ys | Some x \<Rightarrow> Some x)"
  by (induction xs) auto

lemma find_NoneD: "find p xs = None \<Longrightarrow> x \<in> set xs \<Longrightarrow> \<not> p x"
  by (induction xs) (auto split: if_splits)

text \<open>Rows that a query returns in some order: with at most one match the order is fixed.\<close>

lemma mset_eq_short:
  assumes "mset xs = mset ys" and "length ys \<le> 1"
  shows "xs = ys"
proof (cases ys)
  case Nil
  with assms(1) show ?thesis by simp
next
  case (Cons y zs)
  with assms show ?thesis by simp
qed

end
