(* ===== verification/Py_Time.thy ===== *)
theory Py_Time
  imports Prelude
begin

text \<open>
  The part of Python's \<open>datetime\<close> module the services use: aware and naive datetimes,
  \<open>timedelta\<close>, addition with its range check, and comparison, which raises
  \<open>TypeError\<close> when a naive and an aware value meet. Times are microseconds.
\<close>

datatype time_error = Time_OverflowError | Time_TypeError

text \<open>
  \<open>dt_wall\<close> is the wall clock in microseconds since 0001-01-01T00:00:00, \<open>dt_tz\<close> the
  offset from UTC in microseconds of an aware datetime, \<open>None\<close> for a naive one.
\<close>

record datetime =
  dt_wall :: int
  dt_tz :: "int option"

definition usec_per_day :: int where
  "usec_per_day = 24 * 60 * 60 * 1000000"

text \<open>\<open>datetime.max\<close> is the last microsecond of day number 3652059, 9999-12-31.\<close>

definition dt_limit :: int where
  "dt_limit = 3652059 * usec_per_day"

definition dt_utc :: "int \<Rightarrow> datetime" where
  "dt_utc t = \<lparr>dt_wall = t, dt_tz = Some 0\<rparr>"

text \<open>\<open>timedelta(days=n)\<close> and \<open>timedelta(minutes=n)\<close>: at most 999999999 days either way.\<close>

definition mk_timedelta :: "int \<Rightarrow> time_error + int" where
  "mk_timedelta us =
     (if us < - 999999999 * usec_per_day \<or> 1000000000 * usec_per_day \<le> us
      then Inl Time_OverflowError else Inr us)"

definition timedelta_days :: "int \<Rightarrow> time_error + int" where
  "timedelta_days n = mk_timedelta (n * usec_per_day)"

definition timedelta_minutes :: "int \<Rightarrow> time_error + int" where
  "timedelta_minutes n = mk_timedelta (n * (60 * 1000000))"

definition dt_add :: "datetime \<Rightarrow> int \<Rightarrow> time_error + datetime" where
  "dt_add d us =
     (let t = dt_wall d + us
      in if 0 \<le> t \<and> t < dt_limit then Inr (d\<lparr>dt_wall := t\<rparr>) else Inl Time_OverflowError)"

definition dt_instant :: "datetime \<Rightarrow> int" where
  "dt_instant d = dt_wall d - (case dt_tz d of None \<Rightarrow> 0 | Some off \<Rightarrow> off)"

definition dt_aware :: "datetime \<Rightarrow> bool" where
  "dt_aware d = (dt_tz d \<noteq> None)"

text \<open>\<open>a > b\<close>.\<close>

definition dt_gt :: "datetime \<Rightarrow> datetime \<Rightarrow> time_error + bool" where
  "dt_gt a b =
     (if dt_aware a = dt_aware b then Inr (dt_instant b < dt_instant a) else Inl Time_TypeError)"

lemma dt_gt_aware [simp]:
  "dt_aware a \<Longrightarrow> dt_aware b \<Longrightarrow> dt_gt a b = Inr (dt_instant b < dt_instant a)"
  by (simp add: dt_gt_def)

lemma dt_aware_utc [simp]: "dt_aware (dt_utc t)"
  by (simp add: dt_utc_def dt_aware_def)

lemma dt_instant_utc [simp]: "dt_instant (dt_utc t) = t"
  by (simp add: dt_utc_def dt_instant_def)

lemma dt_add_aware: "dt_add d us = Inr d' \<Longrightarrow> dt_aware d' = dt_aware d"
  by (auto simp: dt_add_def dt_aware_def Let_def split: if_splits)

lemma dt_add_instant: "dt_add d us = Inr d' \<Longrightarrow> dt_instant d' = dt_instant d + us"
  by (auto simp: dt_add_def dt_instant_def Let_def split: if_splits option.splits)

end
