(* ===== verification/Py_Str.thy ===== *)
theory Py_Str
  imports Prelude "HOL-Library.Char_ord"
begin

text \<open>
  The string methods the source calls, on \<open>string\<close> with one \<open>char\<close> per code point:
  the model covers the code points U+0000 to U+00FF, on which every function here is
  exact (white space, decimal and numeric characters, letters and lower case are the
  Unicode properties restricted to that range). Functions that leave the range (NFKC,
  case folding) are parameters of the services that use them.
\<close>

named_theorems str_simps \<open>definitions of string methods, unfolded to evaluate a closed term\<close>

section \<open>Characters\<close>

definition code_of :: "char \<Rightarrow> nat" where
  [str_simps]: "code_of c = of_char c"

definition is_space :: "char \<Rightarrow> bool" where
  [str_simps]: "is_space c = (code_of c \<in> {9, 10, 11, 12, 13, 28, 29, 30, 31, 32, 133, 160})"

definition is_decimal :: "char \<Rightarrow> bool" where
  [str_simps]: "is_decimal c = (48 \<le> code_of c \<and> code_of c \<le> 57)"

definition is_numeric :: "char \<Rightarrow> bool" where
  [str_simps]: "is_numeric c = (is_decimal c \<or> code_of c \<in> {178, 179, 185, 188, 189, 190})"

definition is_alpha :: "char \<Rightarrow> bool" where
  [str_simps]: "is_alpha c =
     ((65 \<le> code_of c \<and> code_of c \<le> 90) \<or> (97 \<le> code_of c \<and> code_of c \<le> 122)
      \<or> code_of c \<in> {170, 181, 186}
      \<or> (192 \<le> code_of c \<and> code_of c \<noteq> 215 \<and> code_of c \<noteq> 247))"

definition is_upper_char :: "char \<Rightarrow> bool" where
  [str_simps]: "is_upper_char c =
     ((65 \<le> code_of c \<and> code_of c \<le> 90)
      \<or> (192 \<le> code_of c \<and> code_of c \<le> 222 \<and> code_of c \<noteq> 215))"

definition lower_char :: "char \<Rightarrow> char" where
  [str_simps]: "lower_char c = (if is_upper_char c then char_of (code_of c + 32) else c)"

lemma code_of_lt [simp]: "code_of c < 256"
  by (simp add: code_of_def)

lemma code_of_char_of [simp]: "n < 256 \<Longrightarrow> code_of (char_of n) = n"
  by (simp add: code_of_def)

lemma code_of_lower: "is_upper_char c \<Longrightarrow> code_of (lower_char c) = code_of c + 32"
  by (auto simp: lower_char_def is_upper_char_def)

lemma lower_char_not_upper: "\<not> is_upper_char (lower_char c)"
proof (cases "is_upper_char c")
  case True
  then have "code_of (lower_char c) = code_of c + 32" by (rule code_of_lower)
  with True show ?thesis by (auto simp: is_upper_char_def)
next
  case False
  then show ?thesis by (simp add: lower_char_def)
qed

lemma lower_char_idem [simp]: "lower_char (lower_char c) = lower_char c"
  using lower_char_not_upper [of c] by (simp add: lower_char_def [of "lower_char c"])

section \<open>Methods\<close>

definition str_lower :: "string \<Rightarrow> string" where
  [str_simps]: "str_lower s = map lower_char s"

definition lstrip :: "string \<Rightarrow> string" where
  [str_simps]: "lstrip s = dropWhile is_space s"

definition rstrip :: "string \<Rightarrow> string" where
  [str_simps]: "rstrip s = rev (dropWhile is_space (rev s))"

definition strip :: "string \<Rightarrow> string" where
  [str_simps]: "strip s = rstrip (lstrip s)"

definition str_isnumeric :: "string \<Rightarrow> bool" where
  [str_simps]: "str_isnumeric s = (s \<noteq> [] \<and> list_all is_numeric s)"

definition startswith :: "string \<Rightarrow> string \<Rightarrow> bool" where
  [str_simps]: "startswith s p = (take (length p) s = p)"

definition endswith :: "string \<Rightarrow> string \<Rightarrow> bool" where
  [str_simps]: "endswith s p = (length p \<le> length s \<and> drop (length s - length p) s = p)"

definition removeprefix :: "string \<Rightarrow> string \<Rightarrow> string" where
  [str_simps]: "removeprefix s p = (if startswith s p then drop (length p) s else s)"

text \<open>\<open>s.partition(c)\<close> for a one-character separator: the part before, whether the
  separator occurs, the part after (all of \<open>s\<close>, False and the empty string without one).\<close>

definition partition_at :: "char \<Rightarrow> string \<Rightarrow> string \<times> bool \<times> string" where
  [str_simps]: "partition_at c s =
     (takeWhile (\<lambda>x. x \<noteq> c) s, c \<in> set s, drop 1 (dropWhile (\<lambda>x. x \<noteq> c) s))"

fun split_on :: "char \<Rightarrow> string \<Rightarrow> string list" where
  "split_on c [] = [[]]"
| "split_on c (x # xs) =
     (if x = c then [] # split_on c xs
      else (case split_on c xs of [] \<Rightarrow> [[x]] | p # ps \<Rightarrow> (x # p) # ps))"

fun str_join :: "string \<Rightarrow> string list \<Rightarrow> string" where
  "str_join sep [] = []"
| "str_join sep [p] = p"
| "str_join sep (p # q # ps) = p @ sep @ str_join sep (q # ps)"

text \<open>\<open>s.rfind(c)\<close>: the last index of the character, or -1.\<close>

fun rfind_from :: "char \<Rightarrow> int \<Rightarrow> string \<Rightarrow> int" where
  "rfind_from c i [] = -1"
| "rfind_from c i (x # xs) =
     (let r = rfind_from c (i + 1) xs in if r \<noteq> -1 then r else if x = c then i else -1)"

definition rfind :: "string \<Rightarrow> char \<Rightarrow> int" where
  [str_simps]: "rfind s c = rfind_from c 0 s"

text \<open>\<open>p in s\<close> for strings, and \<open>s.replace(old, new, 1)\<close>.\<close>

fun contains :: "string \<Rightarrow> string \<Rightarrow> bool" where
  "contains p [] = (p = [])"
| "contains p (x # xs) = (startswith (x # xs) p \<or> contains p xs)"

fun replace_first :: "string \<Rightarrow> string \<Rightarrow> string \<Rightarrow> string" where
  "replace_first old new [] = (if old = [] then new else [])"
| "replace_first old new (x # xs) =
     (if startswith (x # xs) old then new @ drop (length old) (x # xs)
      else x # replace_first old new xs)"

section \<open>Laws of the methods\<close>

lemma str_lower_idem [simp]: "str_lower (str_lower s) = str_lower s"
  by (simp add: str_lower_def)

lemma lstrip_hd: "lstrip s = x # xs \<Longrightarrow> \<not> is_space x"
  by (auto simp: lstrip_def dropWhile_eq_Cons_conv)

lemma lstrip_id: "s = [] \<or> \<not> is_space (hd s) \<Longrightarrow> lstrip s = s"
  by (cases s) (auto simp: lstrip_def)

lemma rstrip_id: "s = [] \<or> \<not> is_space (last s) \<Longrightarrow> rstrip s = s"
  by (cases s rule: rev_cases) (auto simp: rstrip_def)

lemma rstrip_last: "rstrip s \<noteq> [] \<Longrightarrow> \<not> is_space (last (rstrip s))"
  by (metis hd_dropWhile last_rev rev_is_Nil_conv rev_rev_ident rstrip_def)

lemma rstrip_prefix: "\<exists>t. s = rstrip s @ t"
  by (metis rev_append rev_rev_ident rstrip_def takeWhile_dropWhile_id)

lemma rstrip_hd: "rstrip s \<noteq> [] \<Longrightarrow> hd (rstrip s) = hd s"
  by (metis hd_append2 rstrip_prefix)

lemma strip_ends:
  "strip s \<noteq> [] \<Longrightarrow> \<not> is_space (hd (strip s)) \<and> \<not> is_space (last (strip s))"
proof -
  assume ne: "strip s \<noteq> []"
  then have "hd (strip s) = hd (lstrip s)" and "lstrip s \<noteq> []"
    by (auto simp: strip_def rstrip_hd) (simp add: rstrip_def)
  then have "\<not> is_space (hd (strip s))"
    by (cases "lstrip s") (auto dest: lstrip_hd)
  with ne show ?thesis
    by (simp add: strip_def rstrip_last)
qed

lemma strip_id: "s = [] \<or> (\<not> is_space (hd s) \<and> \<not> is_space (last s)) \<Longrightarrow> strip s = s"
  by (auto simp: strip_def lstrip_id rstrip_id)

lemma strip_idem [simp]: "strip (strip s) = strip s"
  using strip_ends [of s] strip_id [of "strip s"] by blast

lemma length_strip: "length (strip s) \<le> length s"
  unfolding strip_def lstrip_def rstrip_def
  by (metis length_dropWhile_le length_rev order_trans)

lemma split_on_not_Nil [simp]: "split_on c s \<noteq> []"
  by (cases s) (auto split: list.splits)

lemma join_split [simp]: "str_join [c] (split_on c s) = s"
proof (induction s)
  case Nil
  then show ?case by simp
next
  case (Cons x xs)
  obtain p ps where ps: "split_on c xs = p # ps"
    by (cases "split_on c xs") auto
  with Cons show ?case by (cases ps) auto
qed

lemma split_no_sep: "p \<in> set (split_on c s) \<Longrightarrow> c \<notin> set p"
proof (induction s arbitrary: p)
  case Nil
  then show ?case by simp
next
  case (Cons x xs)
  then show ?case by (auto split: if_splits list.splits)
qed

lemma split_on_single: "c \<notin> set s \<Longrightarrow> split_on c s = [s]"
  by (induction s) auto

lemma split_on_append_sep: "c \<notin> set p \<Longrightarrow> split_on c (p @ c # s) = p # split_on c s"
  by (induction p) auto

lemma split_join:
  assumes "ps \<noteq> []" and "\<And>p. p \<in> set ps \<Longrightarrow> c \<notin> set p"
  shows "split_on c (str_join [c] ps) = ps"
  using assms
proof (induction ps)
  case Nil
  then show ?case by simp
next
  case (Cons p ps)
  then show ?case
    by (cases ps) (auto simp: split_on_single split_on_append_sep)
qed

lemma partition_at_rejoin:
  assumes "partition_at c s = (a, b, d)"
  shows "s = (if b then a @ c # d else a)"
  using assms
proof (induction s arbitrary: a)
  case Nil
  then show ?case by (simp add: partition_at_def)
next
  case (Cons x xs)
  then show ?case by (cases "x = c") (auto simp: partition_at_def)
qed

lemma partition_at_before: "partition_at c s = (a, b, d) \<Longrightarrow> c \<notin> set a"
  by (auto simp: partition_at_def dest: set_takeWhileD)

lemma partition_at_append [simp]: "c \<notin> set a \<Longrightarrow> partition_at c (a @ c # d) = (a, True, d)"
  by (simp add: partition_at_def takeWhile_append dropWhile_append)

lemma partition_at_none [simp]:
  assumes "c \<notin> set a"
  shows "partition_at c a = (a, False, [])"
proof -
  from assms have d: "dropWhile (\<lambda>x. x \<noteq> c) a = []"
    by (auto simp: dropWhile_eq_Nil_conv)
  from assms have t: "takeWhile (\<lambda>x. x \<noteq> c) a = a"
    by (auto simp: takeWhile_eq_all_conv)
  from assms show ?thesis
    unfolding partition_at_def d t by simp
qed

lemma startswith_iff: "startswith s p = (\<exists>t. s = p @ t)"
  by (metis append_eq_conv_conj append_take_drop_id startswith_def)

lemma replace_first_prefix: "startswith s old \<Longrightarrow> replace_first old new s = new @ drop (length old) s"
  by (cases s) (auto simp: startswith_def)

end
