(* ===== verification/Errors.thy ===== *)
theory Errors
  imports Prelude
begin

text \<open>
  The exceptions of the application as values, with the class hierarchy the
  \<open>except\<close> clauses and the \<open>isinstance\<close> tests of the controllers rely on
  (src/src/fastapi_template/core/*/exceptions, core/application_error.py). The library
  exceptions that can cross the modelled code are constructors too: SQLAlchemy's
  \<open>IntegrityError\<close> with the parts of the driver error the user repository inspects,
  PyJWT's two errors, FastAPI's \<open>HTTPException\<close>, pydantic's \<open>ValidationError\<close>, and
  \<open>Cancelled\<close>, a \<open>BaseException\<close> that is no \<open>Exception\<close>.
\<close>

datatype py_obj = PyStr string | PyOther

text \<open>The driver error behind an \<open>IntegrityError\<close>: an optional \<open>diag\<close> object with an
  optional \<open>constraint_name\<close>, and its \<open>str\<close>.\<close>

record diagnostic =
  dg_constraint_name :: "py_obj option"

record dbapi_error =
  de_diag :: "diagnostic option"
  de_str :: string

record http_exception =
  he_status_code :: int
  he_detail :: string
  he_headers :: "(string \<times> string) list option"

datatype exn =
    InvalidCredentialsError
  | InvalidRefreshTokenError
  | ExpiredRefreshTokenError
  | AuthenticatedUserNotFoundError
  | WeakPasswordError
  | UserAlreadyExistsError
  | UserRepositoryConflictError
  | UserPermissionDeniedError
  | HealthCheckError
  | HTTPException http_exception
  | RuntimeError string
  | TypeError string
  | ValueError string
  | AttributeError string
  | OverflowError
  | ValidationError
  | IntegrityError dbapi_error
  | DatabaseError string
  | MultipleResultsFound
  | NoResultFound
  | UnknownHashError
  | JWTExpiredSignatureError
  | JWTInvalidTokenError
  | Cancelled

datatype exn_class =
    BaseException_class
  | Exception_class
  | ApplicationError_class
  | AuthenticationError_class
  | RefreshTokenError_class
  | InvalidCredentialsError_class
  | InvalidRefreshTokenError_class
  | ExpiredRefreshTokenError_class
  | UserError_class
  | AuthenticatedUserNotFoundError_class
  | WeakPasswordError_class
  | UserAlreadyExistsError_class
  | UserRepositoryConflictError_class
  | UserPermissionDeniedError_class
  | HealthCheckError_class
  | HTTPException_class
  | IntegrityError_class
  | InvalidTokenError_class
  | ExpiredSignatureError_class
  | OtherError_class
  | CancelledError_class

text \<open>\<open>class C(B)\<close>: the base of each class, in the order of the source's definitions.\<close>

fun base_class :: "exn_class \<Rightarrow> exn_class option" where
  "base_class ApplicationError_class = Some Exception_class"
| "base_class AuthenticationError_class = Some ApplicationError_class"
| "base_class RefreshTokenError_class = Some AuthenticationError_class"
| "base_class InvalidRefreshTokenError_class = Some RefreshTokenError_class"
| "base_class ExpiredRefreshTokenError_class = Some RefreshTokenError_class"
| "base_class InvalidCredentialsError_class = Some AuthenticationError_class"
| "base_class UserError_class = Some ApplicationError_class"
| "base_class AuthenticatedUserNotFoundError_class = Some UserError_class"
| "base_class WeakPasswordError_class = Some UserError_class"
| "base_class UserAlreadyExistsError_class = Some UserError_class"
| "base_class UserRepositoryConflictError_class = Some UserError_class"
| "base_class UserPermissionDeniedError_class = Some ApplicationError_class"
| "base_class HealthCheckError_class = Some ApplicationError_class"
| "base_class HTTPException_class = Some Exception_class"
| "base_class IntegrityError_class = Some Exception_class"
| "base_class InvalidTokenError_class = Some Exception_class"
| "base_class ExpiredSignatureError_class = Some InvalidTokenError_class"
| "base_class OtherError_class = Some Exception_class"
| "base_class CancelledError_class = Some BaseException_class"
| "base_class Exception_class = Some BaseException_class"
| "base_class BaseException_class = None"

fun class_of :: "exn \<Rightarrow> exn_class" where
  "class_of InvalidCredentialsError = InvalidCredentialsError_class"
| "class_of InvalidRefreshTokenError = InvalidRefreshTokenError_class"
| "class_of ExpiredRefreshTokenError = ExpiredRefreshTokenError_class"
| "class_of AuthenticatedUserNotFoundError = AuthenticatedUserNotFoundError_class"
| "class_of WeakPasswordError = WeakPasswordError_class"
| "class_of UserAlreadyExistsError = UserAlreadyExistsError_class"
| "class_of UserRepositoryConflictError = UserRepositoryConflictError_class"
| "class_of UserPermissionDeniedError = UserPermissionDeniedError_class"
| "class_of HealthCheckError = HealthCheckError_class"
| "class_of (HTTPException _) = HTTPException_class"
| "class_of (IntegrityError _) = IntegrityError_class"
| "class_of JWTInvalidTokenError = InvalidTokenError_class"
| "class_of JWTExpiredSignatureError = ExpiredSignatureError_class"
| "class_of Cancelled = CancelledError_class"
| "class_of _ = OtherError_class"

text \<open>The distance of a class from the root, which bounds the walk over its bases.\<close>

fun class_depth :: "exn_class \<Rightarrow> nat" where
  "class_depth BaseException_class = 0"
| "class_depth Exception_class = 1"
| "class_depth CancelledError_class = 1"
| "class_depth ApplicationError_class = 2"
| "class_depth HTTPException_class = 2"
| "class_depth IntegrityError_class = 2"
| "class_depth InvalidTokenError_class = 2"
| "class_depth OtherError_class = 2"
| "class_depth AuthenticationError_class = 3"
| "class_depth UserError_class = 3"
| "class_depth UserPermissionDeniedError_class = 3"
| "class_depth HealthCheckError_class = 3"
| "class_depth ExpiredSignatureError_class = 3"
| "class_depth RefreshTokenError_class = 4"
| "class_depth InvalidCredentialsError_class = 4"
| "class_depth AuthenticatedUserNotFoundError_class = 4"
| "class_depth WeakPasswordError_class = 4"
| "class_depth UserAlreadyExistsError_class = 4"
| "class_depth UserRepositoryConflictError_class = 4"
| "class_depth InvalidRefreshTokenError_class = 5"
| "class_depth ExpiredRefreshTokenError_class = 5"

lemma base_class_depth: "base_class c = Some b \<Longrightarrow> class_depth b < class_depth c"
  by (cases c) auto

function mro :: "exn_class \<Rightarrow> exn_class list" where
  "mro c = c # (case base_class c of None \<Rightarrow> [] | Some b \<Rightarrow> mro b)"
  by pat_completeness auto
termination
  by (relation "measure class_depth") (auto simp: base_class_depth)

declare mro.simps [simp del]

definition isinstance :: "exn \<Rightarrow> exn_class \<Rightarrow> bool" where
  "isinstance e c = (c \<in> set (mro (class_of e)))"

lemma mro_eval [simp]:
  "mro BaseException_class = [BaseException_class]"
  "mro Exception_class = [Exception_class, BaseException_class]"
  "mro ApplicationError_class = [ApplicationError_class, Exception_class, BaseException_class]"
  "mro AuthenticationError_class = AuthenticationError_class # mro ApplicationError_class"
  "mro RefreshTokenError_class = RefreshTokenError_class # mro AuthenticationError_class"
  "mro InvalidRefreshTokenError_class = InvalidRefreshTokenError_class # mro RefreshTokenError_class"
  "mro ExpiredRefreshTokenError_class = ExpiredRefreshTokenError_class # mro RefreshTokenError_class"
  "mro InvalidCredentialsError_class = InvalidCredentialsError_class # mro AuthenticationError_class"
  "mro UserError_class = UserError_class # mro ApplicationError_class"
  "mro AuthenticatedUserNotFoundError_class =
     AuthenticatedUserNotFoundError_class # mro UserError_class"
  "mro WeakPasswordError_class = WeakPasswordError_class # mro UserError_class"
  "mro UserAlreadyExistsError_class = UserAlreadyExistsError_class # mro UserError_class"
  "mro UserRepositoryConflictError_class = UserRepositoryConflictError_class # mro UserError_class"
  "mro UserPermissionDeniedError_class =
     UserPermissionDeniedError_class # mro ApplicationError_class"
  "mro HealthCheckError_class = HealthCheckError_class # mro ApplicationError_class"
  "mro HTTPException_class = [HTTPException_class, Exception_class, BaseException_class]"
  "mro IntegrityError_class = [IntegrityError_class, Exception_class, BaseException_class]"
  "mro InvalidTokenError_class = [InvalidTokenError_class, Exception_class, BaseException_class]"
  "mro ExpiredSignatureError_class = ExpiredSignatureError_class # mro InvalidTokenError_class"
  "mro OtherError_class = [OtherError_class, Exception_class, BaseException_class]"
  "mro CancelledError_class = [CancelledError_class, BaseException_class]"
  by (simp_all add: mro.simps)

lemma isinstance_simps [simp]: "isinstance e c = (c \<in> set (mro (class_of e)))"
  by (simp add: isinstance_def)

text \<open>Every exception but a cancellation is caught by \<open>except Exception\<close>.\<close>

lemma exception_iff_not_cancelled: "isinstance e Exception_class = (e \<noteq> Cancelled)"
  by (cases e) simp_all

end
