(* ===== verification/Entities.thy ===== *)
theory Entities
  imports Py_Time Py_Str Errors
begin

text \<open>
  The data of the application: the core entities (core/*/entities), the data transfer
  objects (core/*/dtos), the SQLAlchemy row types (core/*/infrastructure/sqlalchemy/models)
  and the mappers from rows to entities. Field names carry a prefix per record because
  record fields are global constants: \<open>u_\<close> User, \<open>rs_\<close> RefreshSession, \<open>um_\<close> UserModel,
  \<open>rsm_\<close> RefreshSessionModel. A UUID is its integer value.
\<close>

section \<open>Entities\<close>

record user =
  u_id :: int
  u_username :: string
  u_email :: string
  u_first_name :: string
  u_last_name :: string
  u_password_hash :: string
  u_is_active :: bool
  u_is_staff :: bool
  u_is_superuser :: bool

record refresh_session =
  rs_id :: int
  rs_refresh_token_hash :: string
  rs_user :: user
  rs_user_agent :: string
  rs_ip_address_trace :: string
  rs_created_at :: datetime
  rs_expires_at :: datetime
  rs_last_used_at :: "datetime option"
  rs_revoked_at :: "datetime option"
  rs_rotation_counter :: int

text \<open>\<open>self.revoked_at is None and self.expires_at > now\<close>: the comparison is only reached
  for a session that is not revoked, and raises when one side is naive.\<close>

definition is_active_at :: "refresh_session \<Rightarrow> datetime \<Rightarrow> exn + bool" where
  "is_active_at s now =
     (if rs_revoked_at s \<noteq> None then Inr False
      else (case dt_gt (rs_expires_at s) now of
              Inl _ \<Rightarrow> Inl (TypeError ''can't compare offset-naive and offset-aware datetimes'')
            | Inr b \<Rightarrow> Inr b))"

section \<open>Data transfer objects\<close>

record register_user_dto =
  ru_email :: string
  ru_username :: string
  ru_first_name :: string
  ru_last_name :: string
  ru_password :: string

record persist_user_dto =
  pu_email :: string
  pu_username :: string
  pu_first_name :: string
  pu_last_name :: string
  pu_is_active :: bool
  pu_is_staff :: bool
  pu_is_superuser :: bool

record create_refresh_session_dto =
  cs_id :: int
  cs_user :: user
  cs_refresh_token_hash :: string
  cs_user_agent :: string
  cs_ip_address_trace :: string
  cs_created_at :: datetime
  cs_last_used_at :: "datetime option"
  cs_expires_at :: datetime
  cs_revoked_at :: "datetime option"
  cs_rotation_counter :: int

record replace_refresh_session_token_dto =
  rr_session_id :: int
  rr_expected_refresh_token_hash :: string
  rr_refresh_token_hash :: string
  rr_last_used_at :: datetime
  rr_rotation_counter :: int

record issue_token_dto =
  it_username :: string
  it_password :: string

record token_request_context_dto =
  tc_user_agent :: string
  tc_ip_address_trace :: "string option"

record refresh_token_dto =
  rt_refresh_token :: string

record token_dto =
  tk_access_token :: string
  tk_refresh_token :: string

text \<open>\<open>RefreshSessionResult\<close>, a named tuple.\<close>

record refresh_session_result =
  rsr_refresh_token :: string
  rsr_session :: refresh_session

section \<open>Rows\<close>

text \<open>The values of a new \<open>users\<close> row; the database assigns the integer primary key.\<close>

record user_values =
  uv_username :: string
  uv_email :: string
  uv_first_name :: string
  uv_last_name :: string
  uv_password_hash :: string
  uv_is_active :: bool
  uv_is_staff :: bool
  uv_is_superuser :: bool

record user_model =
  um_id :: int
  um_username :: string
  um_email :: string
  um_first_name :: string
  um_last_name :: string
  um_password_hash :: string
  um_is_active :: bool
  um_is_staff :: bool
  um_is_superuser :: bool

record refresh_session_model =
  rsm_id :: int
  rsm_refresh_token_hash :: string
  rsm_user_id :: int
  rsm_user_agent :: string
  rsm_ip_address_trace :: string
  rsm_created_at :: datetime
  rsm_last_used_at :: "datetime option"
  rsm_expires_at :: datetime
  rsm_revoked_at :: "datetime option"
  rsm_rotation_counter :: int

section \<open>Mappers\<close>

definition user_from_model :: "user_model \<Rightarrow> user" where
  "user_from_model model =
     \<lparr>u_id = um_id model, u_username = um_username model, u_email = um_email model,
      u_first_name = um_first_name model, u_last_name = um_last_name model,
      u_password_hash = um_password_hash model, u_is_active = um_is_active model,
      u_is_staff = um_is_staff model, u_is_superuser = um_is_superuser model\<rparr>"

definition ensure_aware_datetime :: "datetime \<Rightarrow> datetime" where
  "ensure_aware_datetime d = (if dt_tz d = None then d\<lparr>dt_tz := Some 0\<rparr> else d)"

definition optional_aware_datetime :: "datetime option \<Rightarrow> datetime option" where
  "optional_aware_datetime d =
     (case d of None \<Rightarrow> None | Some v \<Rightarrow> Some (ensure_aware_datetime v))"

text \<open>
  \<open>refresh_session_from_model(model, user=None)\<close>. \<open>rel\<close> is the value of the relationship
  attribute \<open>model.user\<close>, read only when no user entity is passed; reading the fields of
  a missing related row is an \<open>AttributeError\<close>.
\<close>

definition refresh_session_from_model ::
    "refresh_session_model \<Rightarrow> user_model option \<Rightarrow> user option \<Rightarrow> exn + refresh_session" where
  "refresh_session_from_model model rel usr =
     (case (case usr of Some u \<Rightarrow> Some u | None \<Rightarrow> map_option user_from_model rel) of
        None \<Rightarrow> Inl (AttributeError ''NoneType'')
      | Some u \<Rightarrow> Inr
          \<lparr>rs_id = rsm_id model,
           rs_refresh_token_hash = rsm_refresh_token_hash model,
           rs_user = u,
           rs_user_agent = rsm_user_agent model,
           rs_ip_address_trace = rsm_ip_address_trace model,
           rs_created_at = ensure_aware_datetime (rsm_created_at model),
           rs_expires_at = ensure_aware_datetime (rsm_expires_at model),
           rs_last_used_at = optional_aware_datetime (rsm_last_used_at model),
           rs_revoked_at = optional_aware_datetime (rsm_revoked_at model),
           rs_rotation_counter = rsm_rotation_counter model\<rparr>)"

lemma user_from_model_simps [simp]:
  "u_id (user_from_model m) = um_id m"
  "u_username (user_from_model m) = um_username m"
  "u_email (user_from_model m) = um_email m"
  "u_password_hash (user_from_model m) = um_password_hash m"
  "u_is_active (user_from_model m) = um_is_active m"
  "u_is_staff (user_from_model m) = um_is_staff m"
  "u_is_superuser (user_from_model m) = um_is_superuser m"
  by (simp_all add: user_from_model_def)

lemma ensure_aware [simp]: "dt_aware (ensure_aware_datetime d)"
  by (simp add: ensure_aware_datetime_def dt_aware_def)

lemma ensure_aware_id [simp]: "dt_aware d \<Longrightarrow> ensure_aware_datetime d = d"
  by (simp add: ensure_aware_datetime_def dt_aware_def)

lemma ensure_aware_instant [simp]: "dt_instant (ensure_aware_datetime d) = dt_instant d"
  by (simp add: ensure_aware_datetime_def dt_instant_def)

lemma optional_aware_None [simp]: "(optional_aware_datetime d = None) = (d = None)"
  by (simp add: optional_aware_datetime_def split: option.splits)

lemma is_active_at_aware:
  "dt_aware (rs_expires_at s) \<Longrightarrow> dt_aware now \<Longrightarrow>
   is_active_at s now = Inr (rs_revoked_at s = None \<and> dt_instant now < dt_instant (rs_expires_at s))"
  by (simp add: is_active_at_def)

end
