(* ===== verification/Store.thy ===== *)
theory Store
  imports Entities
begin

text \<open>
  The persistent state: the two tables of the schema with their constraints (the models
  and migrations/versions/0001_create_auth_tables.py), and the database session the
  repositories talk to. SQLAlchemy and the database behind it are no code of the
  repository, so they are a parameter: the record \<open>engine\<close> holds the statements the
  source issues, and \<open>engine_ok\<close> states the documented behaviour the code relies on
  (what a SELECT, INSERT or UPDATE does to the rows the transaction sees, that the
  constraints of the schema are enforced, what commit and rollback do). Every statement
  may also fail with any exception.
\<close>

section \<open>Tables and constraints\<close>

text \<open>
  A row of \<open>refresh_sessions\<close> by its columns. Points in time are instants: a database may
  hand the same instant back as a naive UTC datetime (SQLite) or with another offset
  (PostgreSQL), which is what the mapper's \<open>_ensure_aware_datetime\<close> is for.
\<close>

record session_row =
  sr_id :: int
  sr_refresh_token_hash :: string
  sr_user_id :: int
  sr_user_agent :: string
  sr_ip_address_trace :: string
  sr_created_at :: int
  sr_last_used_at :: "int option"
  sr_expires_at :: int
  sr_revoked_at :: "int option"
  sr_rotation_counter :: int

record tables =
  t_users :: "user_model list"
  t_sessions :: "session_row list"

definition row_of :: "refresh_session_model \<Rightarrow> session_row" where
  "row_of m =
     \<lparr>sr_id = rsm_id m, sr_refresh_token_hash = rsm_refresh_token_hash m,
      sr_user_id = rsm_user_id m, sr_user_agent = rsm_user_agent m,
      sr_ip_address_trace = rsm_ip_address_trace m,
      sr_created_at = dt_instant (rsm_created_at m),
      sr_last_used_at = map_option dt_instant (rsm_last_used_at m),
      sr_expires_at = dt_instant (rsm_expires_at m),
      sr_revoked_at = map_option dt_instant (rsm_revoked_at m),
      sr_rotation_counter = rsm_rotation_counter m\<rparr>"

text \<open>
  The constraints of the two \<open>create_table\<close> calls: primary keys, the unique constraints
  uq_users_username, uq_users_email and uq_refresh_sessions_refresh_token_hash, and the
  foreign key from \<open>refresh_sessions.user_id\<close> to \<open>users.id\<close>.
\<close>

definition users_schema :: "user_model list \<Rightarrow> bool" where
  "users_schema us =
     (distinct (map um_id us) \<and> distinct (map um_email us) \<and> distinct (map um_username us))"

definition refresh_sessions_schema :: "user_model list \<Rightarrow> session_row list \<Rightarrow> bool" where
  "refresh_sessions_schema us ss =
     (list_all (\<lambda>r. sr_user_id r \<in> um_id ` set us) ss \<and>
      distinct (map sr_id ss) \<and> distinct (map sr_refresh_token_hash ss))"

definition schema_ok :: "tables \<Rightarrow> bool" where
  "schema_ok t = (users_schema (t_users t) \<and> refresh_sessions_schema (t_users t) (t_sessions t))"

definition related_user :: "tables \<Rightarrow> session_row \<Rightarrow> user_model option" where
  "related_user t r = find (\<lambda>u. um_id u = sr_user_id r) (t_users t)"

section \<open>The database session\<close>

record 'db engine =
  e_view :: "'db \<Rightarrow> tables"
  e_committed :: "'db \<Rightarrow> tables"
  e_begin :: "'db \<Rightarrow> (exn + unit) \<times> 'db"
  e_commit :: "'db \<Rightarrow> (exn + unit) \<times> 'db"
  e_rollback :: "'db \<Rightarrow> (exn + unit) \<times> 'db"
  e_close :: "'db \<Rightarrow> (exn + unit) \<times> 'db"
  e_ping :: "'db \<Rightarrow> (exn + unit) \<times> 'db"
  e_select_users :: "(user_model \<Rightarrow> bool) \<Rightarrow> 'db \<Rightarrow> (exn + user_model list) \<times> 'db"
  e_select_sessions :: "(session_row \<Rightarrow> bool) \<Rightarrow> 'db \<Rightarrow>
     (exn + (refresh_session_model \<times> user_model option) list) \<times> 'db"
  e_insert_user :: "user_values \<Rightarrow> 'db \<Rightarrow> (exn + user_model) \<times> 'db"
  e_update_users :: "(user_model \<Rightarrow> bool) \<Rightarrow> (user_model \<Rightarrow> user_model) \<Rightarrow> 'db \<Rightarrow> (exn + nat) \<times> 'db"
  e_insert_session :: "refresh_session_model \<Rightarrow> 'db \<Rightarrow> (exn + unit) \<times> 'db"
  e_update_sessions ::
    "(session_row \<Rightarrow> bool) \<Rightarrow> (session_row \<Rightarrow> session_row) \<Rightarrow> 'db \<Rightarrow> (exn + nat) \<times> 'db"

text \<open>What a statement may raise: driver errors and the cancellation of the task.\<close>

fun storage_error :: "exn \<Rightarrow> bool" where
  "storage_error (IntegrityError _) = True"
| "storage_error (DatabaseError _) = True"
| "storage_error Cancelled = True"
| "storage_error _ = False"

text \<open>
  A statement inside a transaction never changes what is committed; when it succeeds it
  relates the rows seen before to its result and the rows seen after, and leaves the
  constraints intact.
\<close>

definition stmt_ok :: "'db engine \<Rightarrow> (tables \<Rightarrow> 'a \<Rightarrow> tables \<Rightarrow> bool) \<Rightarrow>
    ('db \<Rightarrow> (exn + 'a) \<times> 'db) \<Rightarrow> bool" where
  "stmt_ok E R st =
     (\<forall>d. case st d of
        (Inl e, d') \<Rightarrow> storage_error e \<and> e_committed E d' = e_committed E d
      | (Inr x, d') \<Rightarrow> e_committed E d' = e_committed E d \<and>
          (schema_ok (e_view E d) \<longrightarrow>
             R (e_view E d) x (e_view E d') \<and> schema_ok (e_view E d')))"

definition select_users_law :: "(user_model \<Rightarrow> bool) \<Rightarrow> tables \<Rightarrow> user_model list \<Rightarrow> tables \<Rightarrow> bool" where
  "select_users_law p t rows t' = (t' = t \<and> mset rows = mset (filter p (t_users t)))"

definition select_sessions_law :: "(session_row \<Rightarrow> bool) \<Rightarrow> tables \<Rightarrow>
    (refresh_session_model \<times> user_model option) list \<Rightarrow> tables \<Rightarrow> bool" where
  "select_sessions_law p t rows t' =
     (t' = t \<and> mset (map (\<lambda>(m, u). (row_of m, u)) rows)
        = mset (map (\<lambda>r. (r, related_user t r)) (filter p (t_sessions t))))"

definition values_of :: "user_model \<Rightarrow> user_values" where
  "values_of m =
     \<lparr>uv_username = um_username m, uv_email = um_email m, uv_first_name = um_first_name m,
      uv_last_name = um_last_name m, uv_password_hash = um_password_hash m,
      uv_is_active = um_is_active m, uv_is_staff = um_is_staff m,
      uv_is_superuser = um_is_superuser m\<rparr>"

definition insert_user_law :: "user_values \<Rightarrow> tables \<Rightarrow> user_model \<Rightarrow> tables \<Rightarrow> bool" where
  "insert_user_law v t m t' = (values_of m = v \<and> t' = t\<lparr>t_users := t_users t @ [m]\<rparr>)"

definition update_users_law :: "(user_model \<Rightarrow> bool) \<Rightarrow> (user_model \<Rightarrow> user_model) \<Rightarrow>
    tables \<Rightarrow> nat \<Rightarrow> tables \<Rightarrow> bool" where
  "update_users_law p f t n t' =
     (n = length (filter p (t_users t)) \<and>
      t' = t\<lparr>t_users := map (\<lambda>r. if p r then f r else r) (t_users t)\<rparr>)"

definition insert_session_law :: "refresh_session_model \<Rightarrow> tables \<Rightarrow> unit \<Rightarrow> tables \<Rightarrow> bool" where
  "insert_session_law m t _ t' = (t' = t\<lparr>t_sessions := t_sessions t @ [row_of m]\<rparr>)"

definition update_sessions_law :: "(session_row \<Rightarrow> bool) \<Rightarrow> (session_row \<Rightarrow> session_row) \<Rightarrow>
    tables \<Rightarrow> nat \<Rightarrow> tables \<Rightarrow> bool" where
  "update_sessions_law p f t n t' =
     (n = length (filter p (t_sessions t)) \<and>
      t' = t\<lparr>t_sessions := map (\<lambda>r. if p r then f r else r) (t_sessions t)\<rparr>)"

text \<open>A new session starts from the committed rows; only a commit publishes its rows.\<close>

definition transaction_ok :: "'db engine \<Rightarrow> bool" where
  "transaction_ok E =
     (\<forall>d. (case e_begin E d of
             (Inl e, d') \<Rightarrow> storage_error e \<and> e_committed E d' = e_committed E d
           | (Inr x, d') \<Rightarrow> e_committed E d' = e_committed E d \<and> e_view E d' = e_committed E d) \<and>
          (case e_commit E d of
             (Inl e, d') \<Rightarrow> storage_error e \<and> e_committed E d' = e_committed E d
           | (Inr x, d') \<Rightarrow> e_committed E d' = e_view E d) \<and>
          (case e_rollback E d of
             (Inl e, d') \<Rightarrow> storage_error e \<and> e_committed E d' = e_committed E d
           | (Inr x, d') \<Rightarrow> e_committed E d' = e_committed E d) \<and>
          (case e_close E d of
             (Inl e, d') \<Rightarrow> storage_error e \<and> e_committed E d' = e_committed E d
           | (Inr x, d') \<Rightarrow> e_committed E d' = e_committed E d))"

text \<open>The probe \<open>SELECT 1\<close> of the health check, in a session of its own.\<close>

definition ping_ok :: "'db engine \<Rightarrow> bool" where
  "ping_ok E =
     (\<forall>d. case e_ping E d of
        (Inl e, d') \<Rightarrow> storage_error e \<and> e_committed E d' = e_committed E d
      | (Inr x, d') \<Rightarrow> e_committed E d' = e_committed E d)"

definition engine_ok :: "'db engine \<Rightarrow> bool" where
  "engine_ok E =
     (transaction_ok E \<and> ping_ok E \<and>
      (\<forall>p. stmt_ok E (select_users_law p) (e_select_users E p)) \<and>
      (\<forall>p. stmt_ok E (select_sessions_law p) (e_select_sessions E p)) \<and>
      (\<forall>v. stmt_ok E (insert_user_law v) (e_insert_user E v)) \<and>
      (\<forall>p f. stmt_ok E (update_users_law p f) (e_update_users E p f)) \<and>
      (\<forall>m. stmt_ok E (insert_session_law m) (e_insert_session E m)) \<and>
      (\<forall>p f. stmt_ok E (update_sessions_law p f) (e_update_sessions E p f)))"

lemma stmt_ok_Inr:
  "stmt_ok E R st \<Longrightarrow> st d = (Inr x, d') \<Longrightarrow>
   e_committed E d' = e_committed E d \<and>
   (schema_ok (e_view E d) \<longrightarrow> R (e_view E d) x (e_view E d') \<and> schema_ok (e_view E d'))"
  unfolding stmt_ok_def by (drule spec [of _ d]) simp

lemma stmt_ok_Inl:
  "stmt_ok E R st \<Longrightarrow> st d = (Inl e, d') \<Longrightarrow>
   storage_error e \<and> e_committed E d' = e_committed E d"
  unfolding stmt_ok_def by (drule spec [of _ d]) simp

lemma engine_ok_statements:
  assumes "engine_ok E"
  shows "stmt_ok E (select_users_law p) (e_select_users E p)"
    and "stmt_ok E (select_sessions_law q) (e_select_sessions E q)"
    and "stmt_ok E (insert_user_law v) (e_insert_user E v)"
    and "stmt_ok E (update_users_law p f) (e_update_users E p f)"
    and "stmt_ok E (insert_session_law m) (e_insert_session E m)"
    and "stmt_ok E (update_sessions_law q g) (e_update_sessions E q g)"
  using assms by (simp_all add: engine_ok_def)

section \<open>Facts about tables that satisfy the constraints\<close>

lemma schema_users:
  "schema_ok t \<Longrightarrow> distinct (map um_id (t_users t))"
  "schema_ok t \<Longrightarrow> distinct (map um_username (t_users t))"
  "schema_ok t \<Longrightarrow> distinct (map um_email (t_users t))"
  by (simp_all add: schema_ok_def users_schema_def)

lemma schema_sessions:
  "schema_ok t \<Longrightarrow> distinct (map sr_id (t_sessions t))"
  "schema_ok t \<Longrightarrow> distinct (map sr_refresh_token_hash (t_sessions t))"
  by (simp_all add: schema_ok_def refresh_sessions_schema_def)

lemma related_user_exists:
  assumes "schema_ok t" and "r \<in> set (t_sessions t)"
  shows "\<exists>u. related_user t r = Some u"
proof -
  from assms obtain u where "u \<in> set (t_users t)" "um_id u = sr_user_id r"
    by (auto simp: schema_ok_def refresh_sessions_schema_def list_all_iff)
  then show ?thesis
    by (cases "related_user t r") (auto simp: related_user_def dest: find_NoneD)
qed

lemma related_user_Some:
  "related_user t r = Some u \<Longrightarrow> u \<in> set (t_users t) \<and> um_id u = sr_user_id r"
  by (auto simp: related_user_def dest: find_SomeD)

lemma session_by_hash_unique:
  "schema_ok t \<Longrightarrow> r \<in> set (t_sessions t) \<Longrightarrow> r' \<in> set (t_sessions t) \<Longrightarrow>
   sr_refresh_token_hash r = sr_refresh_token_hash r' \<Longrightarrow> r = r'"
  using schema_sessions(2) by (auto simp: distinct_map inj_on_def)

lemma session_by_id_unique:
  "schema_ok t \<Longrightarrow> r \<in> set (t_sessions t) \<Longrightarrow> r' \<in> set (t_sessions t) \<Longrightarrow>
   sr_id r = sr_id r' \<Longrightarrow> r = r'"
  using schema_sessions(1) by (auto simp: distinct_map inj_on_def)

lemma user_by_id_unique:
  "schema_ok t \<Longrightarrow> u \<in> set (t_users t) \<Longrightarrow> u' \<in> set (t_users t) \<Longrightarrow> um_id u = um_id u' \<Longrightarrow> u = u'"
  using schema_users(1) by (auto simp: distinct_map inj_on_def)

text \<open>Replacing one row by its primary key.\<close>

definition update_session_row :: "int \<Rightarrow> (session_row \<Rightarrow> session_row) \<Rightarrow> tables \<Rightarrow> tables" where
  "update_session_row i f t =
     t\<lparr>t_sessions := map (\<lambda>r. if sr_id r = i then f r else r) (t_sessions t)\<rparr>"

lemma update_session_row_users [simp]: "t_users (update_session_row i f t) = t_users t"
  by (simp add: update_session_row_def)

lemma update_session_row_in:
  "r \<in> set (t_sessions t) \<Longrightarrow> sr_id r = i \<Longrightarrow> f r \<in> set (t_sessions (update_session_row i f t))"
  by (force simp: update_session_row_def image_iff)

lemma update_session_row_cases:
  assumes "x \<in> set (t_sessions (update_session_row i f t))"
  obtains (old) "x \<in> set (t_sessions t)" "sr_id x \<noteq> i"
        | (new) r where "r \<in> set (t_sessions t)" "sr_id r = i" "x = f r"
  using assms by (auto simp: update_session_row_def split: if_splits)

lemma update_session_row_cong:
  assumes "schema_ok t" and "r \<in> set (t_sessions t)" and "f r = g r"
  shows "update_session_row (sr_id r) f t = update_session_row (sr_id r) g t"
proof -
  have "(if sr_id x = sr_id r then f x else x) = (if sr_id x = sr_id r then g x else x)"
    if "x \<in> set (t_sessions t)" for x
    using assms(3) session_by_id_unique [OF assms(1) that assms(2)] by auto
  then show ?thesis by (simp add: update_session_row_def cong: map_cong)
qed

text \<open>A row found by its unique hash is also the one found by hash and primary key.\<close>

lemma find_by_hash_and_id:
  assumes "schema_ok t" and "find (\<lambda>x. sr_refresh_token_hash x = h) (t_sessions t) = Some r"
  shows "find (\<lambda>x. sr_id x = sr_id r \<and> sr_refresh_token_hash x = h) (t_sessions t) = Some r"
proof (cases "find (\<lambda>x. sr_id x = sr_id r \<and> sr_refresh_token_hash x = h) (t_sessions t)")
  case None
  with find_SomeD [OF assms(2)] show ?thesis by (auto dest!: find_NoneD)
next
  case (Some x)
  from find_SomeD [OF Some] find_SomeD [OF assms(2)] session_by_id_unique [OF assms(1)]
  have "x = r" by blast
  with Some show ?thesis by simp
qed

end
