(* ===== verification/Ports.thy ===== *)
theory Ports
  imports Store
begin

text \<open>
  The ports between the application and its adapters, as the source's abstract base
  classes have them (core/user/repositories/user.py,
  core/authentication/repositories/refresh_session.py, core/unit_of_work.py): one record
  of operations per class, and one locale per class for what an adapter promises. The
  services and use cases take the records as arguments, which is the dependency
  injection of the source; their lemmas are proved inside the locales and reach the
  SQLAlchemy adapters through the interpretations in the adapters' theories.

  \<open>runtime\<close> holds what the services take from the Python library and from third-party
  packages (clock, random tokens, hashing, Unicode tables, PyJWT, e-mail validation).
\<close>

section \<open>Worlds with a transaction\<close>

text \<open>
  What a contract says about a world: whether a transaction is open and intact
  (\<open>v_ready\<close>), whether one is open at all (\<open>v_live\<close>) or none is (\<open>v_idle\<close>), whether the next
  request can start from it whatever became of the last transaction (\<open>v_sound\<close>), the rows it
  sees, the committed rows, and the relation between worlds of the same transaction (\<open>v_frame\<close>).
\<close>

record 'w view =
  v_ready :: "'w \<Rightarrow> bool"
  v_live :: "'w \<Rightarrow> bool"
  v_idle :: "'w \<Rightarrow> bool"
  v_sound :: "'w \<Rightarrow> bool"
  v_tables :: "'w \<Rightarrow> tables"
  v_committed :: "'w \<Rightarrow> tables"
  v_frame :: "'w \<Rightarrow> 'w \<Rightarrow> bool"

text \<open>
  \<open>meets V m Q E\<close>: inside a transaction \<open>m\<close> either returns with the tables changed as \<open>Q\<close>
  says or raises as \<open>E\<close> allows; it never commits and never closes the transaction.
\<close>

definition meets :: "'w view \<Rightarrow> ('w, exn, 'a) prog \<Rightarrow> (tables \<Rightarrow> 'a \<Rightarrow> tables \<Rightarrow> bool) \<Rightarrow>
    (tables \<Rightarrow> exn \<Rightarrow> bool) \<Rightarrow> bool" where
  "meets V m Q E =
     (\<forall>w. v_ready V w \<longrightarrow>
        wp m (\<lambda>x w'. v_ready V w' \<and> v_frame V w w' \<and> Q (v_tables V w) x (v_tables V w'))
             (\<lambda>e w'. v_frame V w w' \<and> E (v_tables V w) e) w)"

lemma meetsI:
  assumes "\<And>w x w'. v_ready V w \<Longrightarrow> m w = (Inr x, w') \<Longrightarrow>
      v_ready V w' \<and> v_frame V w w' \<and> Q (v_tables V w) x (v_tables V w')"
    and "\<And>w e w'. v_ready V w \<Longrightarrow> m w = (Inl e, w') \<Longrightarrow>
      v_frame V w w' \<and> E (v_tables V w) e"
  shows "meets V m Q E"
  using assms by (auto simp: meets_def intro: wpI)

lemma meets_ok:
  "meets V m Q E \<Longrightarrow> v_ready V w \<Longrightarrow> m w = (Inr x, w') \<Longrightarrow>
   v_ready V w' \<and> v_frame V w w' \<and> Q (v_tables V w) x (v_tables V w')"
  by (auto simp: meets_def wp_def split: prod.splits)

lemma meets_err:
  "meets V m Q E \<Longrightarrow> v_ready V w \<Longrightarrow> m w = (Inl e, w') \<Longrightarrow>
   v_frame V w w' \<and> E (v_tables V w) e"
  by (auto simp: meets_def wp_def split: prod.splits)

locale transactional_view =
  fixes V :: "'w view"
  assumes ready_live: "v_ready V w \<Longrightarrow> v_live V w"
    and ready_schema: "v_ready V w \<Longrightarrow> schema_ok (v_tables V w)"
    and frame_refl [simp]: "v_frame V w w"
    and frame_trans: "v_frame V w w' \<Longrightarrow> v_frame V w' w'' \<Longrightarrow> v_frame V w w''"
    and frame_live: "v_frame V w w' \<Longrightarrow> v_live V w \<Longrightarrow> v_live V w'"
    and frame_committed: "v_frame V w w' \<Longrightarrow> v_committed V w' = v_committed V w"
begin

lemma meets_ret: "(\<And>t. schema_ok t \<Longrightarrow> Q t x t) \<Longrightarrow> meets V (ret x) Q E"
  by (rule meetsI) (auto dest: ready_schema)

lemma meets_raise: "(\<And>t. schema_ok t \<Longrightarrow> E t e) \<Longrightarrow> meets V (raise e) Q E"
  by (rule meetsI) (auto dest: ready_schema)

lemma meets_of_result:
  assumes "\<And>t x. schema_ok t \<Longrightarrow> r = Inr x \<Longrightarrow> Q t x t"
    and "\<And>t e. schema_ok t \<Longrightarrow> r = Inl e \<Longrightarrow> E t e"
  shows "meets V (of_result r) Q E"
  using assms by (intro meetsI) (auto dest: ready_schema)

text \<open>Sequencing: the second part runs on the tables the first part left.\<close>

lemma meets_bind:
  assumes m: "meets V m Q1 E1" and k: "\<And>x. meets V (k x) (Q2 x) (E2 x)"
    and ok: "\<And>t x t' y t''. schema_ok t \<Longrightarrow> schema_ok t' \<Longrightarrow> schema_ok t'' \<Longrightarrow>
      Q1 t x t' \<Longrightarrow> Q2 x t' y t'' \<Longrightarrow> Q t y t''"
    and e1: "\<And>t e. schema_ok t \<Longrightarrow> E1 t e \<Longrightarrow> E t e"
    and e2: "\<And>t x t' e. schema_ok t \<Longrightarrow> schema_ok t' \<Longrightarrow> Q1 t x t' \<Longrightarrow> E2 x t' e \<Longrightarrow> E t e"
  shows "meets V (bind_p m k) Q E"
proof (rule meetsI)
  fix w y w'
  assume w: "v_ready V w" and run: "bind_p m k w = (Inr y, w')"
  then obtain x w1 where m1: "m w = (Inr x, w1)" and k1: "k x w1 = (Inr y, w')"
    by (auto simp: bind_ok_iff)
  from meets_ok [OF m w m1] meets_ok [OF k _ k1] ok ready_schema w frame_trans
  show "v_ready V w' \<and> v_frame V w w' \<and> Q (v_tables V w) y (v_tables V w')" by metis
next
  fix w e w'
  assume w: "v_ready V w" and run: "bind_p m k w = (Inl e, w')"
  then consider "m w = (Inl e, w')" | x w1 where "m w = (Inr x, w1)" "k x w1 = (Inl e, w')"
    by (auto simp: bind_err_iff)
  then show "v_frame V w w' \<and> E (v_tables V w) e"
  proof cases
    case 1
    with meets_err [OF m w] e1 ready_schema [OF w] show ?thesis by blast
  next
    case 2
    from meets_ok [OF m w 2(1)] meets_err [OF k _ 2(2)] e2 ready_schema w frame_trans
    show ?thesis by metis
  qed
qed

lemma meets_mono:
  assumes "meets V m Q E"
    and "\<And>t x t'. schema_ok t \<Longrightarrow> schema_ok t' \<Longrightarrow> Q t x t' \<Longrightarrow> Q' t x t'"
    and "\<And>t e. schema_ok t \<Longrightarrow> E t e \<Longrightarrow> E' t e"
  shows "meets V m Q' E'"
  using assms by (intro meetsI) (meson meets_ok meets_err ready_schema)+

text \<open>A first part that leaves the tables alone and never raises: its value is all that counts.\<close>

lemma meets_bind_draw:
  assumes m: "meets V m (\<lambda>t x t'. t' = t \<and> P x) (\<lambda>t e. False)"
    and k: "\<And>x. P x \<Longrightarrow> meets V (k x) Q E"
  shows "meets V (bind_p m k) Q E"
proof (rule meetsI)
  fix w y w'
  assume w: "v_ready V w" and run: "bind_p m k w = (Inr y, w')"
  then obtain x w1 where m1: "m w = (Inr x, w1)" and k1: "k x w1 = (Inr y, w')"
    by (auto simp: bind_ok_iff)
  from meets_ok [OF m w m1] meets_ok [OF k _ k1] frame_trans
  show "v_ready V w' \<and> v_frame V w w' \<and> Q (v_tables V w) y (v_tables V w')" by metis
next
  fix w e w'
  assume w: "v_ready V w" and run: "bind_p m k w = (Inl e, w')"
  with meets_err [OF m w] obtain x w1 where m1: "m w = (Inr x, w1)" and k1: "k x w1 = (Inl e, w')"
    by (auto simp: bind_err_iff)
  from meets_ok [OF m w m1] meets_err [OF k _ k1] frame_trans
  show "v_frame V w w' \<and> E (v_tables V w) e" by metis
qed

end

section \<open>The runtime\<close>

text \<open>
  A claim of a token: a JSON value, or a datetime in a payload to be signed. A JSON number
  that is no integer is represented by what \<open>int\<close> makes of it.
\<close>

datatype claim =
    ClaimNull
  | ClaimStr string
  | ClaimInt int
  | ClaimFloat "exn + int"
  | ClaimTime datetime
  | ClaimOther

type_synonym claims = "(string \<times> claim) list"

record 'w runtime =
  rt_now :: "('w, exn, datetime) prog"
  rt_token_urlsafe :: "int \<Rightarrow> ('w, exn, string) prog"
  rt_uuid7 :: "('w, exn, int) prog"
  rt_password_hash :: "string \<Rightarrow> ('w, exn, string) prog"
  rt_password_verify :: "string \<Rightarrow> string \<Rightarrow> exn + bool"
  rt_sha256_hexdigest :: "string \<Rightarrow> string"
  rt_nfkc :: "string \<Rightarrow> string"
  rt_casefold :: "string \<Rightarrow> string"
  rt_validate_email :: "string \<Rightarrow> string option"
  rt_jwt_encode :: "claims \<Rightarrow> string \<Rightarrow> string \<Rightarrow> exn + string"
  rt_jwt_decode :: "int \<Rightarrow> string \<Rightarrow> string \<Rightarrow> string list \<Rightarrow> string list \<Rightarrow> exn + claims"

text \<open>
  The effects of the runtime stay away from the transaction. \<open>readings\<close> are the instants
  the clock can show, \<open>tokens\<close> the tokens the generator can draw, \<open>hashes p\<close> the
  hashes of a password.
\<close>

locale runtime_contract = transactional_view V
  for V :: "'w view" +
  fixes rt :: "'w runtime" and readings :: "int set" and tokens :: "string set"
    and hashes :: "string \<Rightarrow> string set"
  assumes now: "meets V (rt_now rt) (\<lambda>t d t'. t' = t \<and> (\<exists>n \<in> readings. d = dt_utc n)) (\<lambda>t e. False)"
    and token_urlsafe: "meets V (rt_token_urlsafe rt n) (\<lambda>t x t'. t' = t \<and> x \<in> tokens) (\<lambda>t e. False)"
    and uuid7: "meets V (rt_uuid7 rt) (\<lambda>t x t'. t' = t) (\<lambda>t e. False)"
    and password_hash: "v_idle V w \<Longrightarrow> \<exists>h w'. rt_password_hash rt p w = (Inr h, w') \<and>
      h \<in> hashes p \<and> v_idle V w' \<and> v_committed V w' = v_committed V w"

section \<open>Repositories\<close>

record 'w user_repository =
  ur_get_by_id :: "int \<Rightarrow> ('w, exn, user option) prog"
  ur_get_active_by_id :: "int \<Rightarrow> ('w, exn, user option) prog"
  ur_get_by_username :: "string \<Rightarrow> ('w, exn, user option) prog"
  ur_get_by_username_or_email :: "string \<Rightarrow> string \<Rightarrow> ('w, exn, user option) prog"
  ur_create :: "persist_user_dto \<Rightarrow> string \<Rightarrow> ('w, exn, user) prog"
  ur_set_access_flags :: "int \<Rightarrow> bool \<Rightarrow> bool \<Rightarrow> ('w, exn, user option) prog"

record 'w refresh_session_repository =
  sp_create :: "create_refresh_session_dto \<Rightarrow> ('w, exn, refresh_session) prog"
  sp_get_by_token_hash :: "string \<Rightarrow> ('w, exn, refresh_session option) prog"
  sp_replace_token_hash ::
    "replace_refresh_session_token_dto \<Rightarrow> ('w, exn, refresh_session option) prog"
  sp_revoke :: "int \<Rightarrow> datetime \<Rightarrow> ('w, exn, unit) prog"

text \<open>The row a new user or a new session becomes, and the effect of a rotation on a row.\<close>

definition new_user_values :: "persist_user_dto \<Rightarrow> string \<Rightarrow> user_values" where
  "new_user_values data password_hash =
     \<lparr>uv_username = pu_username data, uv_email = pu_email data,
      uv_first_name = pu_first_name data, uv_last_name = pu_last_name data,
      uv_password_hash = password_hash, uv_is_active = pu_is_active data,
      uv_is_staff = pu_is_staff data, uv_is_superuser = pu_is_superuser data\<rparr>"

definition new_session_model :: "create_refresh_session_dto \<Rightarrow> refresh_session_model" where
  "new_session_model data =
     \<lparr>rsm_id = cs_id data, rsm_refresh_token_hash = cs_refresh_token_hash data,
      rsm_user_id = u_id (cs_user data), rsm_user_agent = cs_user_agent data,
      rsm_ip_address_trace = cs_ip_address_trace data, rsm_created_at = cs_created_at data,
      rsm_last_used_at = cs_last_used_at data, rsm_expires_at = cs_expires_at data,
      rsm_revoked_at = cs_revoked_at data, rsm_rotation_counter = cs_rotation_counter data\<rparr>"

definition rotated_row :: "replace_refresh_session_token_dto \<Rightarrow> session_row \<Rightarrow> session_row" where
  "rotated_row data r =
     r\<lparr>sr_refresh_token_hash := rr_refresh_token_hash data,
       sr_last_used_at := Some (dt_instant (rr_last_used_at data)),
       sr_rotation_counter := rr_rotation_counter data\<rparr>"

definition revoked_row :: "datetime \<Rightarrow> session_row \<Rightarrow> session_row" where
  "revoked_row revoked_at r = r\<lparr>sr_revoked_at := Some (dt_instant revoked_at)\<rparr>"

text \<open>A session entity read back from a row: same columns, the row's user, aware times.\<close>

definition entity_row :: "refresh_session \<Rightarrow> session_row" where
  "entity_row s =
     \<lparr>sr_id = rs_id s, sr_refresh_token_hash = rs_refresh_token_hash s,
      sr_user_id = u_id (rs_user s), sr_user_agent = rs_user_agent s,
      sr_ip_address_trace = rs_ip_address_trace s,
      sr_created_at = dt_instant (rs_created_at s),
      sr_last_used_at = map_option dt_instant (rs_last_used_at s),
      sr_expires_at = dt_instant (rs_expires_at s),
      sr_revoked_at = map_option dt_instant (rs_revoked_at s),
      sr_rotation_counter = rs_rotation_counter s\<rparr>"

definition represents :: "tables \<Rightarrow> session_row \<Rightarrow> refresh_session \<Rightarrow> bool" where
  "represents t r s =
     (entity_row s = r \<and> map_option user_from_model (related_user t r) = Some (rs_user s)
      \<and> dt_aware (rs_expires_at s))"

locale user_repository_contract = transactional_view V
  for V :: "'w view" +
  fixes repo :: "'w user_repository"
  assumes get_by_id: "meets V (ur_get_by_id repo i)
      (\<lambda>t r t'. t' = t \<and> r = map_option user_from_model (find (\<lambda>u. um_id u = i) (t_users t)))
      (\<lambda>t e. storage_error e)"
    and get_active_by_id: "meets V (ur_get_active_by_id repo i)
      (\<lambda>t r t'. t' = t \<and>
         r = map_option user_from_model (find (\<lambda>u. um_id u = i \<and> um_is_active u) (t_users t)))
      (\<lambda>t e. storage_error e)"
    and get_by_username: "meets V (ur_get_by_username repo name)
      (\<lambda>t r t'. t' = t \<and>
         r = map_option user_from_model (find (\<lambda>u. um_username u = name) (t_users t)))
      (\<lambda>t e. storage_error e)"
    and get_by_username_or_email: "meets V (ur_get_by_username_or_email repo name mail)
      (\<lambda>t r t'. t' = t \<and>
         (case r of
            None \<Rightarrow> \<forall>u \<in> set (t_users t). um_username u \<noteq> name \<and> um_email u \<noteq> mail
          | Some x \<Rightarrow> \<exists>u \<in> set (t_users t).
              (um_username u = name \<or> um_email u = mail) \<and> x = user_from_model u))
      (\<lambda>t e. storage_error e)"
    and create: "meets V (ur_create repo data pw)
      (\<lambda>t x t'. \<exists>m. values_of m = new_user_values data pw \<and> x = user_from_model m \<and>
         t' = t\<lparr>t_users := t_users t @ [m]\<rparr>)
      (\<lambda>t e. storage_error e \<or> e = UserRepositoryConflictError)"
    and set_access_flags: "meets V (ur_set_access_flags repo i staff super)
      (\<lambda>t r t'.
         t' = t\<lparr>t_users := map (\<lambda>u. if um_id u = i
                 then u\<lparr>um_is_staff := staff, um_is_superuser := super\<rparr> else u) (t_users t)\<rparr> \<and>
         r = map_option (\<lambda>u. user_from_model (u\<lparr>um_is_staff := staff, um_is_superuser := super\<rparr>))
               (find (\<lambda>u. um_id u = i) (t_users t)))
      (\<lambda>t e. storage_error e)"

locale refresh_session_repository_contract = transactional_view V
  for V :: "'w view" +
  fixes repo :: "'w refresh_session_repository"
  assumes create: "meets V (sp_create repo data)
      (\<lambda>t s t'. t' = t\<lparr>t_sessions := t_sessions t @ [row_of (new_session_model data)]\<rparr> \<and>
         entity_row s = row_of (new_session_model data) \<and> rs_user s = cs_user data)
      (\<lambda>t e. storage_error e)"
    and get_by_token_hash: "meets V (sp_get_by_token_hash repo h)
      (\<lambda>t r t'. t' = t \<and>
         (case find (\<lambda>x. sr_refresh_token_hash x = h) (t_sessions t) of
            None \<Rightarrow> r = None
          | Some x \<Rightarrow> \<exists>s. r = Some s \<and> represents t x s))
      (\<lambda>t e. storage_error e)"
    and replace_token_hash: "meets V (sp_replace_token_hash repo d)
      (\<lambda>t r t'.
         case find (\<lambda>x. sr_id x = rr_session_id d \<and>
                sr_refresh_token_hash x = rr_expected_refresh_token_hash d) (t_sessions t) of
           None \<Rightarrow> r = None \<and> t' = t
         | Some x \<Rightarrow> t' = update_session_row (rr_session_id d) (rotated_row d) t \<and>
             (\<exists>s. r = Some s \<and> represents t' (rotated_row d x) s))
      (\<lambda>t e. storage_error e)"
    and revoke: "meets V (sp_revoke repo i at)
      (\<lambda>t x t'. t' = update_session_row i (revoked_row at) t)
      (\<lambda>t e. storage_error e)"

end
