(* ===== verification/World.thy ===== *)
theory World
  imports Ports
begin

text \<open>
  The world the SQLAlchemy adapters run in: the database session (the engine parameter
  and its state), the context variable that holds the unit-of-work scope, the state of
  the session factory, and a counter of the values drawn from the clock and the random
  generators. \<open>lib\<close> gives the k-th value drawn and the pure library functions.
\<close>

record lib =
  lib_clock :: "nat \<Rightarrow> int"
  lib_token :: "nat \<Rightarrow> int \<Rightarrow> string"
  lib_uuid7 :: "nat \<Rightarrow> int"
  lib_password_hash :: "nat \<Rightarrow> string \<Rightarrow> string"
  lib_password_verify :: "string \<Rightarrow> string \<Rightarrow> exn + bool"
  lib_sha256_hexdigest :: "string \<Rightarrow> string"
  lib_nfkc :: "string \<Rightarrow> string"
  lib_casefold :: "string \<Rightarrow> string"
  lib_validate_email :: "string \<Rightarrow> string option"
  lib_jwt_encode :: "claims \<Rightarrow> string \<Rightarrow> string \<Rightarrow> exn + string"
  lib_jwt_decode :: "int \<Rightarrow> string \<Rightarrow> string \<Rightarrow> string list \<Rightarrow> string list \<Rightarrow> exn + claims"

text \<open>
  \<open>SQLAlchemySessionFactory\<close>: the cached engine and session maker (by the number of the
  engine they are bound to), and the engines disposed so far.
\<close>

record session_factory =
  sf_engine :: "nat option"
  sf_session_factory :: "nat option"
  sf_engines_created :: nat
  sf_disposed :: "nat list"

text \<open>\<open>_SQLAlchemyUnitOfWorkScope\<close>: the open session, by the engine it is bound to.\<close>

record uow_scope =
  sc_session :: nat

record 'db world =
  w_engine :: "'db engine"
  w_db :: 'db
  w_scope :: "uow_scope option"
  w_factory :: session_factory
  w_draws :: nat

section \<open>Drawing from the runtime\<close>

definition draw :: "(nat \<Rightarrow> 'a) \<Rightarrow> ('db world, exn, 'a) prog" where
  [prog_defs]: "draw f = (\<lambda>w. (Inr (f (w_draws w)), w\<lparr>w_draws := Suc (w_draws w)\<rparr>))"

definition world_runtime :: "lib \<Rightarrow> 'db world runtime" where
  "world_runtime L =
     \<lparr>rt_now = draw (\<lambda>k. dt_utc (lib_clock L k)),
      rt_token_urlsafe = (\<lambda>n. draw (\<lambda>k. lib_token L k n)),
      rt_uuid7 = draw (lib_uuid7 L),
      rt_password_hash = (\<lambda>p. draw (\<lambda>k. lib_password_hash L k p)),
      rt_password_verify = lib_password_verify L,
      rt_sha256_hexdigest = lib_sha256_hexdigest L,
      rt_nfkc = lib_nfkc L,
      rt_casefold = lib_casefold L,
      rt_validate_email = lib_validate_email L,
      rt_jwt_encode = lib_jwt_encode L,
      rt_jwt_decode = lib_jwt_decode L\<rparr>"

lemma world_runtime_pure [simp]:
  "rt_password_verify (world_runtime L) = lib_password_verify L"
  "rt_sha256_hexdigest (world_runtime L) = lib_sha256_hexdigest L"
  "rt_nfkc (world_runtime L) = lib_nfkc L"
  "rt_casefold (world_runtime L) = lib_casefold L"
  "rt_validate_email (world_runtime L) = lib_validate_email L"
  "rt_jwt_encode (world_runtime L) = lib_jwt_encode L"
  "rt_jwt_decode (world_runtime L) = lib_jwt_decode L"
  by (simp_all add: world_runtime_def)

definition readings_of :: "lib \<Rightarrow> int set" where
  "readings_of L = range (lib_clock L)"

definition tokens_of :: "lib \<Rightarrow> string set" where
  "tokens_of L = {lib_token L k n |k n. True}"

definition hashes_of :: "lib \<Rightarrow> string \<Rightarrow> string set" where
  "hashes_of L p = {lib_password_hash L k p |k. True}"

section \<open>Statements\<close>

definition stmt :: "('db engine \<Rightarrow> 'db \<Rightarrow> (exn + 'a) \<times> 'db) \<Rightarrow> ('db world, exn, 'a) prog" where
  [prog_defs]: "stmt st = (\<lambda>w. case st (w_engine w) (w_db w) of (r, d) \<Rightarrow> (r, w\<lparr>w_db := d\<rparr>))"

definition view_of :: "'db world \<Rightarrow> tables" where
  "view_of w = e_view (w_engine w) (w_db w)"

definition committed_of :: "'db world \<Rightarrow> tables" where
  "committed_of w = e_committed (w_engine w) (w_db w)"

definition sql_frame :: "'db world \<Rightarrow> 'db world \<Rightarrow> bool" where
  "sql_frame w w' =
     (w_engine w' = w_engine w \<and> w_scope w' = w_scope w \<and> w_factory w' = w_factory w \<and>
      committed_of w' = committed_of w)"

definition sql_view :: "'db world view" where
  "sql_view =
     \<lparr>v_ready = (\<lambda>w. engine_ok (w_engine w) \<and> w_scope w \<noteq> None \<and> schema_ok (committed_of w) \<and>
        schema_ok (view_of w)),
      v_live = (\<lambda>w. engine_ok (w_engine w) \<and> w_scope w \<noteq> None \<and> schema_ok (committed_of w)),
      v_idle = (\<lambda>w. engine_ok (w_engine w) \<and> w_scope w = None \<and> schema_ok (committed_of w)),
      v_sound = (\<lambda>w. engine_ok (w_engine w) \<and> schema_ok (committed_of w)),
      v_tables = view_of,
      v_committed = committed_of,
      v_frame = sql_frame\<rparr>"

lemma sql_view_simps [simp]:
  "v_tables sql_view = view_of"
  "v_committed sql_view = committed_of"
  "v_frame sql_view = sql_frame"
  by (simp_all add: sql_view_def)

lemma sql_ready_iff:
  "v_ready sql_view w \<longleftrightarrow> engine_ok (w_engine w) \<and> w_scope w \<noteq> None \<and>
     schema_ok (committed_of w) \<and> schema_ok (view_of w)"
  by (simp add: sql_view_def)

lemma sql_live_iff:
  "v_live sql_view w \<longleftrightarrow> engine_ok (w_engine w) \<and> w_scope w \<noteq> None \<and> schema_ok (committed_of w)"
  by (simp add: sql_view_def)

lemma sql_idle_iff:
  "v_idle sql_view w \<longleftrightarrow> engine_ok (w_engine w) \<and> w_scope w = None \<and> schema_ok (committed_of w)"
  by (simp add: sql_view_def)

lemma sql_sound_iff: "v_sound sql_view w \<longleftrightarrow> engine_ok (w_engine w) \<and> schema_ok (committed_of w)"
  by (simp add: sql_view_def)

lemmas sql_view_iffs = sql_ready_iff sql_live_iff sql_idle_iff sql_sound_iff

lemma sql_frame_refl [simp]: "sql_frame w w"
  by (simp add: sql_frame_def)

interpretation sql: transactional_view sql_view
  by unfold_locales (auto simp: sql_view_iffs sql_frame_def)

text \<open>A statement that follows its law meets the law as a contract.\<close>

lemma stmt_meets:
  assumes "\<And>E. engine_ok E \<Longrightarrow> stmt_ok E R (st E)"
  shows "meets sql_view (stmt st) R (\<lambda>t e. storage_error e)"
proof (rule meetsI)
  fix w x w'
  assume ready: "v_ready sql_view w" and run: "stmt st w = (Inr x, w')"
  then obtain d where d: "st (w_engine w) (w_db w) = (Inr x, d)" and w': "w' = w\<lparr>w_db := d\<rparr>"
    by (auto simp: stmt_def split: prod.splits)
  have "stmt_ok (w_engine w) R (st (w_engine w))"
    using ready by (intro assms) (simp add: sql_ready_iff)
  from stmt_ok_Inr [OF this d] ready show "v_ready sql_view w' \<and> v_frame sql_view w w' \<and>
      R (v_tables sql_view w) x (v_tables sql_view w')"
    by (auto simp: sql_ready_iff sql_frame_def committed_of_def view_of_def w')
next
  fix w e w'
  assume ready: "v_ready sql_view w" and run: "stmt st w = (Inl e, w')"
  then obtain d where d: "st (w_engine w) (w_db w) = (Inl e, d)" and w': "w' = w\<lparr>w_db := d\<rparr>"
    by (auto simp: stmt_def split: prod.splits)
  have "stmt_ok (w_engine w) R (st (w_engine w))"
    using ready by (intro assms) (simp add: sql_ready_iff)
  from stmt_ok_Inl [OF this d] show "v_frame sql_view w w' \<and> storage_error e"
    by (auto simp: sql_frame_def committed_of_def w')
qed

lemma draw_meets:
  assumes "\<And>t k. Q t (f k) t"
  shows "meets sql_view (draw f) Q (\<lambda>t e. False)"
  using assms
  by (intro meetsI)
    (auto simp: draw_def sql_ready_iff sql_frame_def committed_of_def view_of_def)

lemma draw_idle:
  "v_idle sql_view w \<Longrightarrow> \<exists>h w'. draw f w = (Inr h, w') \<and> (\<exists>k. h = f k) \<and> v_idle sql_view w' \<and>
     committed_of w' = committed_of w"
  by (auto simp: draw_def sql_idle_iff committed_of_def)

interpretation world_rt: runtime_contract sql_view "world_runtime L" "readings_of L" "tokens_of L"
  "hashes_of L" for L
proof unfold_locales
  fix w :: "'a world" and p
  assume "v_idle sql_view w"
  then obtain h w' where "draw (\<lambda>k. lib_password_hash L k p) w = (Inr h, w')"
    "\<exists>k. h = lib_password_hash L k p" "v_idle sql_view w'" "committed_of w' = committed_of w"
    using draw_idle by meson
  then show "\<exists>h w'. rt_password_hash (world_runtime L) p w = (Inr h, w') \<and> h \<in> hashes_of L p \<and>
      v_idle sql_view w' \<and> v_committed sql_view w' = v_committed sql_view w"
    by (auto simp: world_runtime_def hashes_of_def)
qed (auto simp: world_runtime_def readings_of_def tokens_of_def intro!: draw_meets)

end
