(* ===== verification/User_Repository.thy ===== *)
theory User_Repository
  imports World
begin

text \<open>
  \<open>SQLAlchemyUserRepository\<close>
  (core/user/infrastructure/sqlalchemy/repositories/user.py): the six queries of the user
  port over the session of the active transaction, and the translation of duplicate-key
  errors. The last section interprets the port's contract on it.
\<close>

section \<open>Result accessors of a query\<close>

definition scalar_one_or_none :: "'a list \<Rightarrow> exn + 'a option" where
  "scalar_one_or_none rows =
     (case rows of [] \<Rightarrow> Inr None | [m] \<Rightarrow> Inr (Some m) | _ \<Rightarrow> Inl MultipleResultsFound)"

definition scalar_one :: "'a list \<Rightarrow> exn + 'a" where
  "scalar_one rows =
     (case rows of [] \<Rightarrow> Inl NoResultFound | [m] \<Rightarrow> Inr m | _ \<Rightarrow> Inl MultipleResultsFound)"

definition first :: "'a list \<Rightarrow> 'a option" where
  "first rows = (case rows of [] \<Rightarrow> None | m # _ \<Rightarrow> Some m)"

definition select_users :: "(user_model \<Rightarrow> bool) \<Rightarrow> ('db world, exn, user_model list) prog" where
  "select_users p = stmt (\<lambda>E. e_select_users E p)"

text \<open>\<open>session.get(UserModel, user_id)\<close>: the instance with that primary key, or None.\<close>

definition session_get_user :: "int \<Rightarrow> ('db world, exn, user_model option) prog" where
  "session_get_user i =
     bind_p (select_users (\<lambda>u. um_id u = i)) (\<lambda>rows. ret (first rows))"

section \<open>Queries\<close>

definition get_by_id :: "int \<Rightarrow> ('db world, exn, user option) prog" where
  "get_by_id user_id =
     bind_p (session_get_user user_id) (\<lambda>model.
     case model of
       None \<Rightarrow> ret None
     | Some m \<Rightarrow> ret (Some (user_from_model m)))"

definition get_active_by_id :: "int \<Rightarrow> ('db world, exn, user option) prog" where
  "get_active_by_id user_id =
     bind_p (select_users (\<lambda>u. um_id u = user_id \<and> um_is_active u)) (\<lambda>query_result.
     bind_p (of_result (scalar_one_or_none query_result)) (\<lambda>model.
     case model of
       None \<Rightarrow> ret None
     | Some m \<Rightarrow> ret (Some (user_from_model m))))"

definition get_by_username :: "string \<Rightarrow> ('db world, exn, user option) prog" where
  "get_by_username username =
     bind_p (select_users (\<lambda>u. um_username u = username)) (\<lambda>query_result.
     bind_p (of_result (scalar_one_or_none query_result)) (\<lambda>model.
     case model of
       None \<Rightarrow> ret None
     | Some m \<Rightarrow> ret (Some (user_from_model m))))"

definition get_by_username_or_email :: "string \<Rightarrow> string \<Rightarrow> ('db world, exn, user option) prog" where
  "get_by_username_or_email username email =
     bind_p (select_users (\<lambda>u. um_username u = username \<or> um_email u = email)) (\<lambda>rows.
     let model = first (take 1 rows) in
     case model of
       None \<Rightarrow> ret None
     | Some m \<Rightarrow> ret (Some (user_from_model m)))"

section \<open>Creation and duplicate keys\<close>

definition postgres_user_unique_constraint_names :: "string list" where
  "postgres_user_unique_constraint_names = [''uq_users_email'', ''uq_users_username'']"

definition sqlite_user_unique_messages :: "string list" where
  "sqlite_user_unique_messages =
     [''unique constraint failed: users.email'', ''unique constraint failed: users.username'']"

definition postgres_constraint_name :: "dbapi_error \<Rightarrow> string option" where
  "postgres_constraint_name original_error =
     (case Option.bind (de_diag original_error) dg_constraint_name of
        Some (PyStr name) \<Rightarrow> Some name
      | _ \<Rightarrow> None)"

definition is_duplicate_user_integrity_error :: "dbapi_error \<Rightarrow> bool" where
  "is_duplicate_user_integrity_error orig =
     (if (case postgres_constraint_name orig of
            None \<Rightarrow> False
          | Some name \<Rightarrow> name \<in> set postgres_user_unique_constraint_names)
      then True
      else list_ex (\<lambda>error_message. contains error_message (str_lower (de_str orig)))
             sqlite_user_unique_messages)"

definition create :: "persist_user_dto \<Rightarrow> string \<Rightarrow> ('db world, exn, user) prog" where
  "create data password_hash =
     bind_p
       (try_except
         (stmt (\<lambda>E. e_insert_user E
           \<lparr>uv_username = pu_username data, uv_email = pu_email data,
            uv_first_name = pu_first_name data, uv_last_name = pu_last_name data,
            uv_password_hash = password_hash, uv_is_active = pu_is_active data,
            uv_is_staff = pu_is_staff data, uv_is_superuser = pu_is_superuser data\<rparr>))
         (\<lambda>exception.
           case exception of
             IntegrityError orig \<Rightarrow>
               if \<not> is_duplicate_user_integrity_error orig then raise exception
               else raise UserRepositoryConflictError
           | _ \<Rightarrow> raise exception))
       (\<lambda>model. ret (user_from_model model))"

definition set_access_flags :: "int \<Rightarrow> bool \<Rightarrow> bool \<Rightarrow> ('db world, exn, user option) prog" where
  "set_access_flags user_id is_staff is_superuser =
     bind_p (session_get_user user_id) (\<lambda>model.
     case model of
       None \<Rightarrow> ret None
     | Some m \<Rightarrow>
         let m' = m\<lparr>um_is_staff := is_staff, um_is_superuser := is_superuser\<rparr> in
         bind_p (stmt (\<lambda>E. e_update_users E (\<lambda>u. um_id u = um_id m)
             (\<lambda>u. u\<lparr>um_is_staff := is_staff, um_is_superuser := is_superuser\<rparr>))) (\<lambda>rowcount.
         ret (Some (user_from_model m'))))"

definition sqlalchemy_user_repository :: "'db world user_repository" where
  "sqlalchemy_user_repository =
     \<lparr>ur_get_by_id = get_by_id,
      ur_get_active_by_id = get_active_by_id,
      ur_get_by_username = get_by_username,
      ur_get_by_username_or_email = get_by_username_or_email,
      ur_create = create,
      ur_set_access_flags = set_access_flags\<rparr>"

section \<open>The contract\<close>

lemma select_users_meets:
  "meets sql_view (select_users p) (select_users_law p) (\<lambda>t e. storage_error e)"
  unfolding select_users_def by (rule stmt_meets) (rule engine_ok_statements)

text \<open>A query with at most one matching row returns that row.\<close>

lemma select_unique_meets:
  assumes "\<And>t. schema_ok t \<Longrightarrow> length (filter p (t_users t)) \<le> 1"
  shows "meets sql_view (select_users p) (\<lambda>t rows t'. t' = t \<and> rows = filter p (t_users t))
     (\<lambda>t e. storage_error e)"
  by (rule sql.meets_mono [OF select_users_meets])
    (auto simp: select_users_law_def intro: mset_eq_short assms)

lemma by_id_short: "schema_ok t \<Longrightarrow> length (filter (\<lambda>u. um_id u = i \<and> q u) (t_users t)) \<le> 1"
  by (rule filter_length_le_1 [of um_id _ _ i]) (auto simp: schema_users)

lemma by_id_short': "schema_ok t \<Longrightarrow> length (filter (\<lambda>u. um_id u = i) (t_users t)) \<le> 1"
  using by_id_short [of t i "\<lambda>_. True"] by simp

lemma by_username_short: "schema_ok t \<Longrightarrow> length (filter (\<lambda>u. um_username u = n) (t_users t)) \<le> 1"
  by (rule filter_length_le_1 [of um_username _ _ n]) (auto simp: schema_users)

lemma scalar_short:
  assumes "length (filter p xs) \<le> 1"
  shows "scalar_one_or_none (filter p xs) = Inr (find p xs)"
  using assms unfolding find_filter_hd scalar_one_or_none_def
  by (auto split: list.splits)

lemma first_filter [simp]: "first (filter p xs) = find p xs"
  by (simp add: first_def find_filter_hd)

text \<open>The last lines of every query: map the model, if there is one.\<close>

lemma map_model_meets:
  "meets sql_view (case model of None \<Rightarrow> ret None | Some m \<Rightarrow> ret (Some (user_from_model m)))
     (\<lambda>t x t'. t' = t \<and> x = map_option user_from_model model) (\<lambda>t e. False)"
  by (cases model) (auto intro: sql.meets_ret)

lemma scalar_meets:
  "meets sql_view (of_result (scalar_one_or_none rows))
     (\<lambda>t x t'. t' = t \<and> scalar_one_or_none rows = Inr x) (\<lambda>t e. scalar_one_or_none rows = Inl e)"
  by (rule sql.meets_of_result) auto

text \<open>The common shape of the two queries that end in \<open>scalar_one_or_none\<close>.\<close>

lemma query_one_meets:
  assumes short: "\<And>t. schema_ok t \<Longrightarrow> length (filter p (t_users t)) \<le> 1"
  shows "meets sql_view
     (bind_p (select_users p) (\<lambda>query_result.
      bind_p (of_result (scalar_one_or_none query_result)) (\<lambda>model.
      case model of None \<Rightarrow> ret None | Some m \<Rightarrow> ret (Some (user_from_model m)))))
     (\<lambda>t r t'. t' = t \<and> r = map_option user_from_model (find p (t_users t)))
     (\<lambda>t e. storage_error e)"
proof (rule sql.meets_bind [OF select_unique_meets [OF short]])
  fix rows
  show "meets sql_view
     (bind_p (of_result (scalar_one_or_none rows)) (\<lambda>model.
      case model of None \<Rightarrow> ret None | Some m \<Rightarrow> ret (Some (user_from_model m))))
     (\<lambda>t x t'. t' = t \<and> (\<exists>m. scalar_one_or_none rows = Inr m \<and> x = map_option user_from_model m))
     (\<lambda>t e. scalar_one_or_none rows = Inl e)"
    by (rule sql.meets_bind [OF scalar_meets map_model_meets]) auto
qed (auto simp: scalar_short [OF short])

lemma session_get_user_meets:
  "meets sql_view (session_get_user i)
     (\<lambda>t r t'. t' = t \<and> r = find (\<lambda>u. um_id u = i) (t_users t)) (\<lambda>t e. storage_error e)"
  unfolding session_get_user_def
  by (rule sql.meets_bind [OF select_unique_meets [OF by_id_short']
        sql.meets_ret [where Q = "\<lambda>t x t'. t' = t \<and> x = first rows" for rows]]) auto

lemma get_by_id_meets:
  "meets sql_view (get_by_id i)
     (\<lambda>t r t'. t' = t \<and> r = map_option user_from_model (find (\<lambda>u. um_id u = i) (t_users t)))
     (\<lambda>t e. storage_error e)"
  unfolding get_by_id_def
  by (rule sql.meets_bind [OF session_get_user_meets map_model_meets]) auto


lemma username_or_email_meets:
  "meets sql_view (get_by_username_or_email name mail)
     (\<lambda>t r t'. t' = t \<and>
        (case r of
           None \<Rightarrow> \<forall>u \<in> set (t_users t). um_username u \<noteq> name \<and> um_email u \<noteq> mail
         | Some x \<Rightarrow> \<exists>u \<in> set (t_users t).
             (um_username u = name \<or> um_email u = mail) \<and> x = user_from_model u))
     (\<lambda>t e. storage_error e)"
  unfolding get_by_username_or_email_def Let_def
proof (rule sql.meets_bind [OF select_users_meets map_model_meets])
  fix t t' t'' :: tables and rows x
  let ?p = "\<lambda>u. um_username u = name \<or> um_email u = mail"
  assume "select_users_law ?p t rows t'"
    and r: "t'' = t' \<and> x = map_option user_from_model (first (take 1 rows))"
  then have t: "t' = t" and "mset rows = mset (filter ?p (t_users t))"
    unfolding select_users_law_def by blast+
  from this(2) have "set rows = set (filter ?p (t_users t))" by (rule mset_eq_setD)
  with t show "t'' = t \<and> (case x of
      None \<Rightarrow> \<forall>u \<in> set (t_users t). um_username u \<noteq> name \<and> um_email u \<noteq> mail
    | Some x \<Rightarrow> \<exists>u \<in> set (t_users t). ?p u \<and> x = user_from_model u)"
    using r by (cases rows) (auto simp: first_def)
qed auto

lemma create_meets:
  "meets sql_view (create data pw)
     (\<lambda>t x t'. \<exists>m. values_of m = new_user_values data pw \<and> x = user_from_model m \<and>
        t' = t\<lparr>t_users := t_users t @ [m]\<rparr>)
     (\<lambda>t e. storage_error e \<or> e = UserRepositoryConflictError)"
proof -
  let ?ins = "stmt (\<lambda>E. e_insert_user E (new_user_values data pw))"
  let ?handler = "\<lambda>exception. case exception of
      IntegrityError orig \<Rightarrow>
        if \<not> is_duplicate_user_integrity_error orig then raise exception
        else raise UserRepositoryConflictError
    | _ \<Rightarrow> raise exception"
  have ins: "meets sql_view ?ins (insert_user_law (new_user_values data pw)) (\<lambda>t e. storage_error e)"
    by (rule stmt_meets) (rule engine_ok_statements)
  have "meets sql_view (try_except ?ins ?handler) (insert_user_law (new_user_values data pw))
      (\<lambda>t e. storage_error e \<or> e = UserRepositoryConflictError)"
  proof (rule meetsI)
    fix w m w'
    assume w: "v_ready sql_view w" and run: "try_except ?ins ?handler w = (Inr m, w')"
    then have "?ins w = (Inr m, w')"
      by (auto simp: try_except_def split: prod.splits sum.splits exn.splits if_splits)
    from meets_ok [OF ins w this] show "v_ready sql_view w' \<and> v_frame sql_view w w' \<and>
        insert_user_law (new_user_values data pw) (v_tables sql_view w) m (v_tables sql_view w')" .
  next
    fix w e w'
    assume w: "v_ready sql_view w" and run: "try_except ?ins ?handler w = (Inl e, w')"
    then obtain e' where "?ins w = (Inl e', w')" and "e = e' \<or> e = UserRepositoryConflictError"
      by (auto simp: try_except_def split: prod.splits sum.splits exn.splits if_splits)
    with meets_err [OF ins w]
    show "v_frame sql_view w w' \<and> (storage_error e \<or> e = UserRepositoryConflictError)" by blast
  qed
  then show ?thesis
    unfolding create_def new_user_values_def [symmetric]
    by (rule sql.meets_bind
        [OF _ sql.meets_ret [where Q = "\<lambda>t x t'. t' = t \<and> x = user_from_model m" for m]])
      (auto simp: insert_user_law_def)
qed

lemma set_access_flags_meets:
  "meets sql_view (set_access_flags i staff super)
     (\<lambda>t r t'.
        t' = t\<lparr>t_users := map (\<lambda>u. if um_id u = i
                then u\<lparr>um_is_staff := staff, um_is_superuser := super\<rparr> else u) (t_users t)\<rparr> \<and>
        r = map_option (\<lambda>u. user_from_model (u\<lparr>um_is_staff := staff, um_is_superuser := super\<rparr>))
              (find (\<lambda>u. um_id u = i) (t_users t)))
     (\<lambda>t e. storage_error e)"
  unfolding set_access_flags_def Let_def
proof (rule sql.meets_bind [OF session_get_user_meets])
  fix model
  let ?f = "\<lambda>u. u\<lparr>um_is_staff := staff, um_is_superuser := super\<rparr>"
  let ?Q = "\<lambda>t r t'. (case model of None \<Rightarrow> t' = t \<and> r = None
    | Some m \<Rightarrow> t' = t\<lparr>t_users := map (\<lambda>u. if um_id u = um_id m then ?f u else u) (t_users t)\<rparr> \<and>
        r = Some (user_from_model (?f m)))"
  have upd: "meets sql_view (stmt (\<lambda>E. e_update_users E p f)) (update_users_law p f)
      (\<lambda>t e. storage_error e)" for p f
    by (rule stmt_meets) (rule engine_ok_statements)
  show "meets sql_view
      (case model of None \<Rightarrow> ret None
       | Some m \<Rightarrow> bind_p (stmt (\<lambda>E. e_update_users E (\<lambda>u. um_id u = um_id m) ?f))
           (\<lambda>rowcount. ret (Some (user_from_model (?f m))))) ?Q (\<lambda>t e. storage_error e)"
  proof (cases model)
    case None
    then show ?thesis by (auto intro: sql.meets_ret)
  next
    case (Some m)
    have "meets sql_view (bind_p (stmt (\<lambda>E. e_update_users E (\<lambda>u. um_id u = um_id m) ?f))
         (\<lambda>rowcount. ret (Some (user_from_model (?f m))))) ?Q (\<lambda>t e. storage_error e)"
      by (rule sql.meets_bind [OF upd sql.meets_ret
            [where Q = "\<lambda>t r t'. t' = t \<and> r = Some (user_from_model (?f m))"]])
        (auto simp: update_users_law_def Some)
    with Some show ?thesis by simp
  qed
next
  fix t t' t'' :: tables and model y
  assume m: "t' = t \<and> model = find (\<lambda>u. um_id u = i) (t_users t)"
  let ?f = "\<lambda>u. u\<lparr>um_is_staff := staff, um_is_superuser := super\<rparr>"
  assume res: "case model of None \<Rightarrow> t'' = t' \<and> y = None
    | Some m \<Rightarrow> t'' = t'\<lparr>t_users := map (\<lambda>u. if um_id u = um_id m then ?f u else u) (t_users t')\<rparr> \<and>
        y = Some (user_from_model (?f m))"
  show "t'' = t\<lparr>t_users := map (\<lambda>u. if um_id u = i then ?f u else u) (t_users t)\<rparr> \<and>
      y = map_option (\<lambda>u. user_from_model (?f u)) (find (\<lambda>u. um_id u = i) (t_users t))"
  proof (cases model)
    case None
    with m have "find (\<lambda>u. um_id u = i) (t_users t) = None" by simp
    then have "map (\<lambda>u. if um_id u = i then ?f u else u) (t_users t) = t_users t"
      by (intro map_idI) (auto simp: find_None_iff)
    with None m res show ?thesis by (cases t) simp
  next
    case (Some u)
    with m have f: "find (\<lambda>u. um_id u = i) (t_users t) = Some u" and t': "t' = t" by simp_all
    from find_SomeD [OF f] have "um_id u = i" by simp
    with res t' Some show ?thesis unfolding f by simp
  qed
qed auto

interpretation sql_users: user_repository_contract sql_view sqlalchemy_user_repository
proof unfold_locales
  fix i name mail data pw staff super
  note simps = sqlalchemy_user_repository_def user_repository.simps
  show "meets sql_view (ur_get_by_id sqlalchemy_user_repository i)
      (\<lambda>t r t'. t' = t \<and> r = map_option user_from_model (find (\<lambda>u. um_id u = i) (t_users t)))
      (\<lambda>t e. storage_error e)"
    unfolding simps by (rule get_by_id_meets)
  show "meets sql_view (ur_get_active_by_id sqlalchemy_user_repository i)
      (\<lambda>t r t'. t' = t \<and>
         r = map_option user_from_model (find (\<lambda>u. um_id u = i \<and> um_is_active u) (t_users t)))
      (\<lambda>t e. storage_error e)"
    unfolding simps get_active_by_id_def by (rule query_one_meets) (rule by_id_short)
  show "meets sql_view (ur_get_by_username sqlalchemy_user_repository name)
      (\<lambda>t r t'. t' = t \<and>
         r = map_option user_from_model (find (\<lambda>u. um_username u = name) (t_users t)))
      (\<lambda>t e. storage_error e)"
    unfolding simps get_by_username_def by (rule query_one_meets) (rule by_username_short)
qed (simp_all only: sqlalchemy_user_repository_def user_repository.simps username_or_email_meets
    create_meets set_access_flags_meets)

end
