(* ===== verification/Session_Repository.thy ===== *)
theory Session_Repository
  imports User_Repository
begin

text \<open>
  \<open>SQLAlchemyRefreshSessionRepository\<close>
  (core/authentication/infrastructure/sqlalchemy/repositories/refresh_session.py): the
  insert, the locking lookup by token hash, the guarded replacement of the hash and the
  revocation, with the contract of the port proved for them. A query with
  \<open>selectinload\<close> returns each row with its related user; the row lock of
  \<open>with_for_update\<close> has no effect inside one transaction.
\<close>

definition select_sessions :: "(session_row \<Rightarrow> bool) \<Rightarrow>
    ('db world, exn, (refresh_session_model \<times> user_model option) list) prog" where
  "select_sessions p = stmt (\<lambda>E. e_select_sessions E p)"

definition create_session :: "create_refresh_session_dto \<Rightarrow> ('db world, exn, refresh_session) prog" where
  "create_session data =
     (let model =
        \<lparr>rsm_id = cs_id data, rsm_refresh_token_hash = cs_refresh_token_hash data,
         rsm_user_id = u_id (cs_user data), rsm_user_agent = cs_user_agent data,
         rsm_ip_address_trace = cs_ip_address_trace data, rsm_created_at = cs_created_at data,
         rsm_last_used_at = cs_last_used_at data, rsm_expires_at = cs_expires_at data,
         rsm_revoked_at = cs_revoked_at data, rsm_rotation_counter = cs_rotation_counter data\<rparr>
      in
        bind_p (stmt (\<lambda>E. e_insert_session E model)) (\<lambda>flushed.
        of_result (refresh_session_from_model model None (Some (cs_user data)))))"

definition get_by_token_hash :: "string \<Rightarrow> ('db world, exn, refresh_session option) prog" where
  "get_by_token_hash refresh_token_hash =
     bind_p (select_sessions (\<lambda>r. sr_refresh_token_hash r = refresh_token_hash)) (\<lambda>query_result.
     bind_p (of_result (scalar_one_or_none query_result)) (\<lambda>model.
     case model of
       None \<Rightarrow> ret None
     | Some (m, rel) \<Rightarrow>
         bind_p (of_result (refresh_session_from_model m rel None)) (\<lambda>s. ret (Some s))))"

text \<open>The WHERE clause of the replacement: the session, if its hash is still the expected one.\<close>

definition replace_guard :: "replace_refresh_session_token_dto \<Rightarrow> session_row \<Rightarrow> bool" where
  "replace_guard data r =
     (sr_id r = rr_session_id data \<and> sr_refresh_token_hash r = rr_expected_refresh_token_hash data)"

definition replace_token_hash ::
    "replace_refresh_session_token_dto \<Rightarrow> ('db world, exn, refresh_session option) prog" where
  "replace_token_hash data =
     bind_p
       (stmt (\<lambda>E. e_update_sessions E
         (replace_guard data)
         (\<lambda>r. r\<lparr>sr_refresh_token_hash := rr_refresh_token_hash data,
                sr_last_used_at := Some (dt_instant (rr_last_used_at data)),
                sr_rotation_counter := rr_rotation_counter data\<rparr>))) (\<lambda>rowcount.
     if rowcount \<noteq> 1 then ret None
     else
       bind_p (select_sessions (\<lambda>r. sr_refresh_token_hash r = rr_refresh_token_hash data))
         (\<lambda>query_result.
       bind_p (of_result (scalar_one query_result)) (\<lambda>(m, rel).
       bind_p (of_result (refresh_session_from_model m rel None)) (\<lambda>s. ret (Some s)))))"

text \<open>The assignment to \<open>model.revoked_at\<close> is the UPDATE the session flushes for it.\<close>

definition revoke :: "int \<Rightarrow> datetime \<Rightarrow> ('db world, exn, unit) prog" where
  "revoke session_id revoked_at =
     bind_p (select_sessions (\<lambda>r. sr_id r = session_id)) (\<lambda>query_result.
     bind_p (of_result (scalar_one_or_none query_result)) (\<lambda>model.
     case model of
       None \<Rightarrow> ret ()
     | Some (m, rel) \<Rightarrow>
         bind_p (stmt (\<lambda>E. e_update_sessions E (\<lambda>r. sr_id r = rsm_id m)
           (\<lambda>r. r\<lparr>sr_revoked_at := Some (dt_instant revoked_at)\<rparr>))) (\<lambda>rowcount. ret ())))"

definition sqlalchemy_refresh_session_repository :: "'db world refresh_session_repository" where
  "sqlalchemy_refresh_session_repository =
     \<lparr>sp_create = create_session,
      sp_get_by_token_hash = get_by_token_hash,
      sp_replace_token_hash = replace_token_hash,
      sp_revoke = revoke\<rparr>"

section \<open>Reading rows\<close>

lemma select_sessions_meets:
  "meets sql_view (select_sessions p) (select_sessions_law p) (\<lambda>t e. storage_error e)"
  unfolding select_sessions_def by (rule stmt_meets) (rule engine_ok_statements)

lemma update_sessions_meets:
  "meets sql_view (stmt (\<lambda>E. e_update_sessions E p f)) (update_sessions_law p f)
     (\<lambda>t e. storage_error e)"
  by (rule stmt_meets) (rule engine_ok_statements)

text \<open>With at most one matching row, the query returns it with its related user.\<close>

lemma select_one_session:
  assumes law: "select_sessions_law p t rows t'" and short: "length (filter p (t_sessions t)) \<le> 1"
  shows "t' = t \<and>
    (case find p (t_sessions t) of
       None \<Rightarrow> rows = []
     | Some r \<Rightarrow> \<exists>m. rows = [(m, related_user t r)] \<and> row_of m = r)"
proof -
  let ?g = "\<lambda>r. (r, related_user t r)"
  from law have t': "t' = t"
    and "mset (map (\<lambda>(m, u). (row_of m, u)) rows) = mset (map ?g (filter p (t_sessions t)))"
    unfolding select_sessions_law_def by blast+
  then have rows: "map (\<lambda>(m, u). (row_of m, u)) rows = map ?g (filter p (t_sessions t))"
    using short by (intro mset_eq_short) auto
  show ?thesis
  proof (cases "filter p (t_sessions t)")
    case Nil
    with rows t' show ?thesis by (simp add: find_filter_hd)
  next
    case (Cons r rs)
    with short have "rs = []" by simp
    with Cons rows t' show ?thesis by (auto simp: find_filter_hd map_eq_Cons_conv)
  qed
qed

lemma by_hash_short:
  "schema_ok t \<Longrightarrow> length (filter (\<lambda>r. sr_refresh_token_hash r = h) (t_sessions t)) \<le> 1"
  by (rule filter_length_le_1 [of sr_refresh_token_hash _ _ h]) (auto simp: schema_sessions)

lemma by_session_id_short:
  "schema_ok t \<Longrightarrow> length (filter (\<lambda>r. sr_id r = i \<and> q r) (t_sessions t)) \<le> 1"
  by (rule filter_length_le_1 [of sr_id _ _ i]) (auto simp: schema_sessions)

text \<open>Mapping a row that the constraints tie to a user never fails.\<close>

lemma from_model_represents:
  assumes "schema_ok t" and "row_of m \<in> set (t_sessions t)"
  shows "\<exists>s. refresh_session_from_model m (related_user t (row_of m)) None = Inr s \<and>
     represents t (row_of m) s"
proof -
  obtain u where u: "related_user t (row_of m) = Some u"
    using related_user_exists [OF assms] by blast
  then have "um_id u = sr_user_id (row_of m)"
    using related_user_Some by blast
  with u show ?thesis
    by (auto simp: refresh_session_from_model_def represents_def entity_row_def row_of_def
        optional_aware_datetime_def option.map_comp o_def split: option.splits)
qed

text \<open>So a lookup by a unique column finds nothing, or one row that maps to an entity.\<close>

lemma load_row:
  assumes sch: "schema_ok t" and law: "select_sessions_law p t rows t'"
    and short: "length (filter p (t_sessions t)) \<le> 1"
  shows "t' = t \<and>
    (case find p (t_sessions t) of
       None \<Rightarrow> rows = []
     | Some x \<Rightarrow> \<exists>m s. rows = [(m, related_user t x)] \<and> row_of m = x \<and>
         refresh_session_from_model m (related_user t x) None = Inr s \<and> represents t x s)"
proof (cases "find p (t_sessions t)")
  case None
  with select_one_session [OF law short] show ?thesis by simp
next
  case (Some x)
  with select_one_session [OF law short] obtain m where
    m: "t' = t" "rows = [(m, related_user t x)]" "row_of m = x" by auto
  from find_SomeD [OF Some] m(3) have "row_of m \<in> set (t_sessions t)" by simp
  from from_model_represents [OF sch this] m Some show ?thesis by auto
qed

section \<open>The contract\<close>

lemma create_session_meets:
  "meets sql_view (create_session data)
     (\<lambda>t s t'. t' = t\<lparr>t_sessions := t_sessions t @ [row_of (new_session_model data)]\<rparr> \<and>
        entity_row s = row_of (new_session_model data) \<and> rs_user s = cs_user data)
     (\<lambda>t e. storage_error e)"
proof -
  let ?m = "new_session_model data"
  have ins: "meets sql_view (stmt (\<lambda>E. e_insert_session E ?m)) (insert_session_law ?m)
      (\<lambda>t e. storage_error e)"
    by (rule stmt_meets) (rule engine_ok_statements)
  obtain s where s: "refresh_session_from_model ?m None (Some (cs_user data)) = Inr s"
    and "entity_row s = row_of ?m" and "rs_user s = cs_user data"
    by (auto simp: refresh_session_from_model_def entity_row_def row_of_def new_session_model_def
        optional_aware_datetime_def split: option.splits)
  then show ?thesis
    unfolding create_session_def Let_def new_session_model_def [symmetric]
    by (intro sql.meets_bind [OF ins sql.meets_of_result
          [where Q = "\<lambda>t x t'. t' = t \<and> x = s" and E = "\<lambda>t e. False"]])
      (auto simp: insert_session_law_def)
qed

lemma get_by_token_hash_meets:
  "meets sql_view (get_by_token_hash h)
     (\<lambda>t r t'. t' = t \<and>
        (case find (\<lambda>x. sr_refresh_token_hash x = h) (t_sessions t) of
           None \<Rightarrow> r = None
         | Some x \<Rightarrow> \<exists>s. r = Some s \<and> represents t x s))
     (\<lambda>t e. storage_error e)"
  unfolding get_by_token_hash_def
proof (rule sql.meets_bind [OF select_sessions_meets])
  fix rows :: "(refresh_session_model \<times> user_model option) list"
  let ?fin = "\<lambda>rows. case scalar_one_or_none rows of
      Inl e \<Rightarrow> Inl e
    | Inr None \<Rightarrow> Inr None
    | Inr (Some (m, rel)) \<Rightarrow> map_sum id Some (refresh_session_from_model m rel None)"
  show "meets sql_view
      (bind_p (of_result (scalar_one_or_none rows)) (\<lambda>model.
       case model of None \<Rightarrow> ret None
       | Some (m, rel) \<Rightarrow>
           bind_p (of_result (refresh_session_from_model m rel None)) (\<lambda>s. ret (Some s))))
      (\<lambda>t r t'. t' = t \<and> ?fin rows = Inr r) (\<lambda>t e. ?fin rows = Inl e)"
    by (rule meetsI)
      (auto simp: run_iffs sql_ready_iff sql_frame_def split: option.splits sum.splits)
  fix t t' :: tables
  assume sch: "schema_ok t" and law: "select_sessions_law (\<lambda>r. sr_refresh_token_hash r = h) t rows t'"
  note rows = load_row [OF sch law by_hash_short [OF sch]]
  show "t'' = t \<and> (case find (\<lambda>x. sr_refresh_token_hash x = h) (t_sessions t) of
      None \<Rightarrow> r = None | Some x \<Rightarrow> \<exists>s. r = Some s \<and> represents t x s)"
    if "t'' = t' \<and> ?fin rows = Inr r" for t'' r
    using that rows by (auto simp: scalar_one_or_none_def split: option.splits)
  show "storage_error e" if "?fin rows = Inl e" for e
    using that rows by (auto simp: scalar_one_or_none_def split: option.splits)
qed auto

text \<open>The UPDATE guarded by primary key and old hash touches one row or none.\<close>

lemma guarded_update:
  assumes sch: "schema_ok t"
    and law: "update_sessions_law (\<lambda>r. sr_id r = i \<and> q r) f t n t'"
  shows "case find (\<lambda>r. sr_id r = i \<and> q r) (t_sessions t) of
      None \<Rightarrow> n = 0 \<and> t' = t
    | Some x \<Rightarrow> n = 1 \<and> t' = update_session_row i f t \<and> f x \<in> set (t_sessions t')"
proof (cases "find (\<lambda>r. sr_id r = i \<and> q r) (t_sessions t)")
  case None
  then have "\<forall>r \<in> set (t_sessions t). \<not> (sr_id r = i \<and> q r)"
    by (auto simp: find_None_iff)
  then have "filter (\<lambda>r. sr_id r = i \<and> q r) (t_sessions t) = []"
    and "map (\<lambda>r. if sr_id r = i \<and> q r then f r else r) (t_sessions t) = t_sessions t"
    by (auto simp: filter_empty_conv intro!: map_idI)
  with law None show ?thesis by (simp add: update_sessions_law_def)
next
  case (Some x)
  from find_SomeD [OF Some] have x: "x \<in> set (t_sessions t)" "sr_id x = i" "q x" by simp_all
  have iff: "(sr_id r = i \<and> q r) = (sr_id r = i)" if "r \<in> set (t_sessions t)" for r
    using session_by_id_unique [OF sch that x(1)] x by auto
  have rows: "map (\<lambda>r. if sr_id r = i \<and> q r then f r else r) (t_sessions t)
      = map (\<lambda>r. if sr_id r = i then f r else r) (t_sessions t)"
    by (rule map_cong) (simp_all add: iff)
  have "length (filter (\<lambda>r. sr_id r = i \<and> q r) (t_sessions t)) = 1"
    using by_session_id_short [OF sch, of i q] x
    by (cases "filter (\<lambda>r. sr_id r = i \<and> q r) (t_sessions t)") (auto simp: filter_empty_conv)
  moreover have "t' = update_session_row i f t"
    using law rows by (simp add: update_sessions_law_def update_session_row_def)
  moreover have "f x \<in> set (t_sessions (update_session_row i f t))"
    by (rule update_session_row_in) (use x in auto)
  ultimately show ?thesis
    using law Some by (simp add: update_sessions_law_def)
qed

lemma find_hash:
  assumes "schema_ok t" and "x \<in> set (t_sessions t)" and "sr_refresh_token_hash x = h"
  shows "find (\<lambda>r. sr_refresh_token_hash r = h) (t_sessions t) = Some x"
  using find_key_unique [OF schema_sessions(2) [OF assms(1)] assms(2)] assms(3) by simp

lemma replace_token_hash_meets:
  "meets sql_view (replace_token_hash d)
     (\<lambda>t r t'.
        case find (\<lambda>x. sr_id x = rr_session_id d \<and>
               sr_refresh_token_hash x = rr_expected_refresh_token_hash d) (t_sessions t) of
          None \<Rightarrow> r = None \<and> t' = t
        | Some x \<Rightarrow> t' = update_session_row (rr_session_id d) (rotated_row d) t \<and>
            (\<exists>s. r = Some s \<and> represents t' (rotated_row d x) s))
     (\<lambda>t e. storage_error e)"
  unfolding replace_token_hash_def replace_guard_def [abs_def] rotated_row_def [symmetric, abs_def]
proof (rule sql.meets_bind [OF update_sessions_meets])
  fix n :: nat
  let ?h = "rr_refresh_token_hash d"
  let ?new = "\<lambda>r. sr_refresh_token_hash r = ?h"
  let ?load = "bind_p (select_sessions ?new) (\<lambda>query_result.
       bind_p (of_result (scalar_one query_result)) (\<lambda>(m, rel).
       bind_p (of_result (refresh_session_from_model m rel None)) (\<lambda>s. ret (Some s))))"
  let ?Q = "\<lambda>t r t'. t' = t \<and> (if n \<noteq> 1 then r = None
     else \<exists>x s. find ?new (t_sessions t) = Some x \<and> r = Some s \<and> represents t x s)"
  let ?E = "\<lambda>t e. storage_error e \<or> n = 1 \<and> find ?new (t_sessions t) = None"
  have load: "meets sql_view ?load
      (\<lambda>t r t'. t' = t \<and> (\<exists>x s. find ?new (t_sessions t) = Some x \<and> r = Some s \<and> represents t x s))
      (\<lambda>t e. storage_error e \<or> find ?new (t_sessions t) = None)"
  proof (rule sql.meets_bind [OF select_sessions_meets])
    fix rows :: "(refresh_session_model \<times> user_model option) list"
    let ?fin = "case scalar_one rows of
        Inl e \<Rightarrow> Inl e
      | Inr (m, rel) \<Rightarrow> map_sum id Some (refresh_session_from_model m rel None)"
    show "meets sql_view (bind_p (of_result (scalar_one rows)) (\<lambda>(m, rel).
        bind_p (of_result (refresh_session_from_model m rel None)) (\<lambda>s. ret (Some s))))
        (\<lambda>t r t'. t' = t \<and> ?fin = Inr r) (\<lambda>t e. ?fin = Inl e)"
      by (rule meetsI) (auto simp: run_iffs sql_ready_iff sql_frame_def split: sum.splits)
    fix t t' :: tables
    assume sch: "schema_ok t" and law: "select_sessions_law ?new t rows t'"
    note rows = load_row [OF sch law by_hash_short [OF sch]]
    show "t'' = t \<and> (\<exists>x s. find ?new (t_sessions t) = Some x \<and> r = Some s \<and> represents t x s)"
      if "t'' = t' \<and> ?fin = Inr r" for t'' r
      using that rows by (auto simp: scalar_one_def split: option.splits)
    show "storage_error e \<or> find ?new (t_sessions t) = None" if "?fin = Inl e" for e
      using that rows by (auto simp: scalar_one_def split: option.splits)
  qed auto
  show "meets sql_view (if n \<noteq> 1 then ret None else ?load) ?Q ?E"
  proof (cases "n = 1")
    case True
    then show ?thesis by (auto intro: sql.meets_mono [OF load])
  next
    case False
    then show ?thesis by (auto intro: sql.meets_ret)
  qed
next
  fix t t' :: tables and n
  let ?h = "rr_refresh_token_hash d"
  let ?old = "\<lambda>x. sr_id x = rr_session_id d \<and>
      sr_refresh_token_hash x = rr_expected_refresh_token_hash d"
  let ?new = "\<lambda>r. sr_refresh_token_hash r = ?h"
  assume sch: "schema_ok t" "schema_ok t'"
    and law: "update_sessions_law ?old (rotated_row d) t n t'"
  note upd = guarded_update [OF sch(1) law]
  have new: "find ?new (t_sessions t') = Some (rotated_row d x)"
    if "find ?old (t_sessions t) = Some x" for x
    using upd that by (intro find_hash [OF sch(2)]) (auto simp: rotated_row_def)
  show "case find ?old (t_sessions t) of
      None \<Rightarrow> r = None \<and> t'' = t
    | Some x \<Rightarrow> t'' = update_session_row (rr_session_id d) (rotated_row d) t \<and>
        (\<exists>s. r = Some s \<and> represents t'' (rotated_row d x) s)"
    if "t'' = t' \<and> (if n \<noteq> 1 then r = None
       else \<exists>x s. find ?new (t_sessions t') = Some x \<and> r = Some s \<and> represents t' x s)" for t'' r
    using that upd new by (auto split: option.splits)
  show "storage_error e" if "storage_error e \<or> n = 1 \<and> find ?new (t_sessions t') = None" for e
    using that upd new by (auto split: option.splits)
qed auto

lemma revoke_meets:
  "meets sql_view (revoke i at)
     (\<lambda>t x t'. t' = update_session_row i (revoked_row at) t) (\<lambda>t e. storage_error e)"
  unfolding revoke_def revoked_row_def [symmetric, abs_def]
proof (rule sql.meets_bind [OF select_sessions_meets])
  fix rows :: "(refresh_session_model \<times> user_model option) list"
  let ?upd = "\<lambda>m. bind_p (stmt (\<lambda>E. e_update_sessions E (\<lambda>r. sr_id r = rsm_id m) (revoked_row at)))
      (\<lambda>rowcount. ret ())"
  let ?Q = "\<lambda>t x t'. case scalar_one_or_none rows of
      Inl e \<Rightarrow> False
    | Inr None \<Rightarrow> t' = t
    | Inr (Some (m, rel)) \<Rightarrow> t' = update_session_row (rsm_id m) (revoked_row at) t"
  have upd: "meets sql_view (?upd m)
      (\<lambda>t x t'. t' = update_session_row (rsm_id m) (revoked_row at) t) (\<lambda>t e. storage_error e)" for m
    by (rule sql.meets_bind [OF update_sessions_meets
          sql.meets_ret [where Q = "\<lambda>t x t'. t' = t"]])
      (auto simp: update_sessions_law_def update_session_row_def)
  show "meets sql_view
      (bind_p (of_result (scalar_one_or_none rows)) (\<lambda>model.
       case model of None \<Rightarrow> ret () | Some (m, rel) \<Rightarrow> ?upd m))
      ?Q (\<lambda>t e. storage_error e \<or> scalar_one_or_none rows = Inl e)"
  proof (cases "scalar_one_or_none rows")
    case (Inl e)
    then show ?thesis
      by (intro meetsI) (auto simp: run_iffs)
  next
    case (Inr model)
    then show ?thesis
      by (cases model) (auto intro: sql.meets_ret sql.meets_mono [OF upd])
  qed
  fix t t' :: tables
  assume sch: "schema_ok t" and law: "select_sessions_law (\<lambda>r. sr_id r = i) t rows t'"
  have short: "length (filter (\<lambda>r. sr_id r = i) (t_sessions t)) \<le> 1"
    using by_session_id_short [OF sch, of i "\<lambda>_. True"] by simp
  note rows = select_one_session [OF law short]
  show "t'' = update_session_row i (revoked_row at) t" if "?Q t' x t''" for t'' x
  proof (cases "find (\<lambda>r. sr_id r = i) (t_sessions t)")
    case None
    then have "map (\<lambda>r. if sr_id r = i then revoked_row at r else r) (t_sessions t) = t_sessions t"
      by (intro map_idI) (auto simp: find_None_iff)
    with None rows that show ?thesis by (simp add: scalar_one_or_none_def update_session_row_def)
  next
    case (Some x)
    with rows obtain m where "rows = [(m, related_user t x)]" "row_of m = x" "t' = t" by auto
    moreover from this find_SomeD [OF Some] have "rsm_id m = i" by (auto simp: row_of_def)
    ultimately show ?thesis using that by (simp add: scalar_one_or_none_def)
  qed
  show "storage_error e" if "storage_error e \<or> scalar_one_or_none rows = Inl e" for e
    using that rows by (auto simp: scalar_one_or_none_def split: option.splits)
qed auto

interpretation sql_sessions:
  refresh_session_repository_contract sql_view sqlalchemy_refresh_session_repository
  by unfold_locales
    (simp_all only: sqlalchemy_refresh_session_repository_def refresh_session_repository.simps
      create_session_meets get_by_token_hash_meets replace_token_hash_meets revoke_meets)

end
