(* ===== verification/Unit_Of_Work.thy ===== *)
theory Unit_Of_Work
  imports Session_Repository
begin

text \<open>
  The transaction boundary: the port \<open>UnitOfWork\<close> (core/unit_of_work.py) with its
  contract, the \<open>async with\<close> statement the use cases run it in, and the SQLAlchemy
  implementation (infrastructure/sqlalchemy/unit_of_work.py and session.py) with the
  interpretation of the contract on it.
\<close>

section \<open>The port\<close>

record 'w unit_of_work =
  uow_user_repository :: "('w, exn, 'w user_repository) prog"
  uow_refresh_session_repository :: "('w, exn, 'w refresh_session_repository) prog"
  uow_aenter :: "('w, exn, unit) prog"
  uow_aexit :: "exn option \<Rightarrow> ('w, exn, bool) prog"

text \<open>
  \<open>async with uow: body\<close>. An exception of \<open>__aexit__\<close> replaces the one of the body. A
  context manager that answers True would suppress the exception; the contract below
  excludes it, so the answer is not used.
\<close>

definition async_with :: "'w unit_of_work \<Rightarrow> ('w, exn, 'a) prog \<Rightarrow> ('w, exn, 'a) prog" where
  "async_with uow body =
     bind_p (uow_aenter uow) (\<lambda>entered w.
       case body w of
         (Inr x, w1) \<Rightarrow> bind_p (uow_aexit uow None) (\<lambda>suppressed. ret x) w1
       | (Inl e, w1) \<Rightarrow> bind_p (uow_aexit uow (Some e)) (\<lambda>suppressed. raise e) w1)"

lemma async_with_ok:
  assumes "async_with uow body w = (Inr x, w')"
  obtains w1 w2 b where "uow_aenter uow w = (Inr (), w1)" and "body w1 = (Inr x, w2)"
    and "uow_aexit uow None w2 = (Inr b, w')"
proof -
  from assms obtain w1 where enter: "uow_aenter uow w = (Inr (), w1)"
    by (auto simp: async_with_def run_iffs)
  obtain r w2 where b: "body w1 = (r, w2)" by (cases "body w1")
  with assms enter show thesis
    by (cases r) (auto simp: async_with_def run_iffs intro: that)
qed

lemma async_with_err:
  assumes "async_with uow body w = (Inl e, w')"
  obtains (enter) "uow_aenter uow w = (Inl e, w')"
    | (commit) w1 w2 x where "uow_aenter uow w = (Inr (), w1)" "body w1 = (Inr x, w2)"
        "uow_aexit uow None w2 = (Inl e, w')"
    | (rollback) w1 w2 b where "uow_aenter uow w = (Inr (), w1)" "body w1 = (Inl e, w2)"
        "uow_aexit uow (Some e) w2 = (Inr b, w')"
    | (rollback_err) w1 w2 e' where "uow_aenter uow w = (Inr (), w1)" "body w1 = (Inl e', w2)"
        "uow_aexit uow (Some e') w2 = (Inl e, w')"
proof (cases "fst (uow_aenter uow w)")
  case (Inl e')
  with assms enter show thesis by (cases "uow_aenter uow w") (auto simp: async_with_def run_iffs)
next
  case (Inr u)
  then obtain w1 where w1: "uow_aenter uow w = (Inr (), w1)"
    by (cases "uow_aenter uow w") auto
  obtain r w2 where b: "body w1 = (r, w2)" by (cases "body w1")
  with assms w1 show thesis
    by (cases r) (auto simp: async_with_def run_iffs intro: commit rollback rollback_err)
qed

text \<open>
  \<open>transacts V m Q E\<close>: run with no transaction open, \<open>m\<close> either returns with the
  committed tables changed as \<open>Q\<close> says, or raises an exception in \<open>E\<close> with nothing
  committed. The one other outcome is a failure of the database while the transaction is
  being opened or closed.
\<close>

definition transacts :: "'w view \<Rightarrow> ('w, exn, 'a) prog \<Rightarrow> (tables \<Rightarrow> 'a \<Rightarrow> tables \<Rightarrow> bool) \<Rightarrow>
    (tables \<Rightarrow> exn \<Rightarrow> bool) \<Rightarrow> bool" where
  "transacts V m Q E =
     (\<forall>w. v_idle V w \<longrightarrow>
        wp m (\<lambda>x w'. v_idle V w' \<and> Q (v_committed V w) x (v_committed V w'))
             (\<lambda>e w'. (E (v_committed V w) e \<and> v_idle V w' \<and> v_committed V w' = v_committed V w) \<or>
               (storage_error e \<and> v_sound V w' \<and> (v_committed V w' = v_committed V w \<or>
                  (\<exists>x. Q (v_committed V w) x (v_committed V w'))))) w)"

lemma transacts_ok:
  "transacts V m Q E \<Longrightarrow> v_idle V w \<Longrightarrow> m w = (Inr x, w') \<Longrightarrow>
   v_idle V w' \<and> Q (v_committed V w) x (v_committed V w')"
  by (auto simp: transacts_def wp_def split: prod.splits)

lemma transacts_err:
  "transacts V m Q E \<Longrightarrow> v_idle V w \<Longrightarrow> m w = (Inl e, w') \<Longrightarrow> \<not> storage_error e \<Longrightarrow>
   E (v_committed V w) e \<and> v_idle V w' \<and> v_committed V w' = v_committed V w"
  by (auto simp: transacts_def wp_def split: prod.splits)

lemma transacts_always:
  "transacts V m Q E \<Longrightarrow> v_idle V w \<Longrightarrow> m w = (r, w') \<Longrightarrow>
   (v_idle V w' \<or> v_sound V w')
   \<and> (v_committed V w' = v_committed V w \<or> (\<exists>x. Q (v_committed V w) x (v_committed V w')))"
  by (cases r) (auto simp: transacts_def wp_def split: prod.splits)

lemma transacts_mono:
  assumes "transacts V m Q E"
    and "\<And>t x t'. Q t x t' \<Longrightarrow> Q' t x t'" and "\<And>t e. E t e \<Longrightarrow> E' t e"
  shows "transacts V m Q' E'"
  using assms unfolding transacts_def by (blast intro: wp_mono)

locale unit_of_work_contract =
  transactional_view V +
  users: user_repository_contract V users +
  sessions: refresh_session_repository_contract V sessions
  for V :: "'w view" and users and sessions +
  fixes uow :: "'w unit_of_work"
  assumes user_repository: "v_live V w \<Longrightarrow> uow_user_repository uow w = (Inr users, w)"
    and refresh_session_repository:
      "v_live V w \<Longrightarrow> uow_refresh_session_repository uow w = (Inr sessions, w)"
    and aenter_ok: "v_idle V w \<Longrightarrow> uow_aenter uow w = (Inr u, w') \<Longrightarrow>
      v_ready V w' \<and> v_tables V w' = v_committed V w \<and> v_committed V w' = v_committed V w"
    and aenter_err: "v_idle V w \<Longrightarrow> uow_aenter uow w = (Inl e, w') \<Longrightarrow>
      storage_error e \<and> v_sound V w' \<and> v_committed V w' = v_committed V w"
    and commit_ok: "v_ready V w \<Longrightarrow> uow_aexit uow None w = (Inr b, w') \<Longrightarrow>
      \<not> b \<and> v_idle V w' \<and> v_committed V w' = v_tables V w"
    and commit_err: "v_ready V w \<Longrightarrow> uow_aexit uow None w = (Inl e, w') \<Longrightarrow>
      storage_error e \<and> v_sound V w' \<and>
      (v_committed V w' = v_committed V w \<or> v_committed V w' = v_tables V w)"
    and abort_ok: "v_live V w \<Longrightarrow> uow_aexit uow (Some e) w = (Inr b, w') \<Longrightarrow>
      \<not> b \<and> v_idle V w' \<and> v_committed V w' = v_committed V w"
    and abort_err: "v_live V w \<Longrightarrow> uow_aexit uow (Some e) w = (Inl e', w') \<Longrightarrow>
      storage_error e' \<and> v_sound V w' \<and> v_committed V w' = v_committed V w"
begin

text \<open>Reading the repository properties inside the block never fails.\<close>

lemma meets_with_users:
  assumes "meets V (k users) Q E"
  shows "meets V (bind_p (uow_user_repository uow) k) Q E"
  by (rule meetsI)
    (auto simp: bind_p_def user_repository ready_live dest: meets_ok [OF assms] meets_err [OF assms])

lemma meets_with_sessions:
  assumes "meets V (k sessions) Q E"
  shows "meets V (bind_p (uow_refresh_session_repository uow) k) Q E"
  by (rule meetsI)
    (auto simp: bind_p_def refresh_session_repository ready_live
      dest: meets_ok [OF assms] meets_err [OF assms])

text \<open>A block that meets a specification on the tables is an atomic transaction for it.\<close>

lemma async_with_transacts:
  assumes body: "meets V body Q E"
  shows "transacts V (async_with uow body) Q E"
  unfolding transacts_def
proof (intro allI impI wpI)
  fix w x w'
  assume idle: "v_idle V w" and run: "async_with uow body w = (Inr x, w')"
  from run obtain w1 w2 b where enter: "uow_aenter uow w = (Inr (), w1)"
    and b: "body w1 = (Inr x, w2)" and exit: "uow_aexit uow None w2 = (Inr b, w')"
    by (rule async_with_ok)
  from aenter_ok [OF idle enter] have w1: "v_ready V w1" "v_tables V w1 = v_committed V w" by auto
  from meets_ok [OF body w1(1) b] commit_ok [OF _ exit] w1(2)
  show "v_idle V w' \<and> Q (v_committed V w) x (v_committed V w')" by auto
next
  fix w e w'
  assume idle: "v_idle V w" and run: "async_with uow body w = (Inl e, w')"
  from run show "(E (v_committed V w) e \<and> v_idle V w' \<and> v_committed V w' = v_committed V w) \<or>
      (storage_error e \<and> v_sound V w' \<and> (v_committed V w' = v_committed V w \<or>
        (\<exists>x. Q (v_committed V w) x (v_committed V w'))))"
  proof (cases rule: async_with_err)
    case enter
    with aenter_err [OF idle] show ?thesis by blast
  next
    case (commit w1 w2 x)
    from aenter_ok [OF idle commit(1)] have w1: "v_ready V w1" "v_tables V w1 = v_committed V w"
      "v_committed V w1 = v_committed V w" by auto
    from meets_ok [OF body w1(1) commit(2)] commit_err [OF _ commit(3)] w1 frame_committed
    show ?thesis by metis
  next
    case (rollback w1 w2 b)
    from aenter_ok [OF idle rollback(1)] have w1: "v_ready V w1" "v_tables V w1 = v_committed V w"
      "v_committed V w1 = v_committed V w" by auto
    from meets_err [OF body w1(1) rollback(2)] abort_ok [OF _ rollback(3)] w1 frame_committed
      frame_live ready_live
    show ?thesis by metis
  next
    case (rollback_err w1 w2 e')
    from aenter_ok [OF idle rollback_err(1)] have w1: "v_ready V w1"
      "v_committed V w1 = v_committed V w" by auto
    from meets_err [OF body w1(1) rollback_err(2)] abort_err [OF _ rollback_err(3)] w1
      frame_committed frame_live ready_live
    show ?thesis by metis
  qed
qed

end

section \<open>The SQLAlchemy implementation\<close>

definition inactive_uow_error :: exn where
  "inactive_uow_error = RuntimeError ''Unit of work is not active.''"

definition nested_uow_error :: exn where
  "nested_uow_error = RuntimeError ''Nested UnitOfWork scopes are not supported.''"

text \<open>\<open>SQLAlchemySessionFactory.__call__\<close>: the engine and the session maker are created by
  the first call and cached; a session is named by the engine it is bound to.\<close>

definition session_factory_call :: "session_factory \<Rightarrow> nat \<times> session_factory" where
  "session_factory_call f =
     (case sf_session_factory f of
        None \<Rightarrow>
          let n = sf_engines_created f in
          (n, f\<lparr>sf_engine := Some n, sf_session_factory := Some n, sf_engines_created := n + 1\<rparr>)
      | Some n \<Rightarrow> (n, f))"

definition open_session :: "('db world, exn, nat) prog" where
  [prog_defs]: "open_session =
     (\<lambda>w. case session_factory_call (w_factory w) of (n, f) \<Rightarrow> (Inr n, w\<lparr>w_factory := f\<rparr>))"

definition set_scope :: "uow_scope option \<Rightarrow> ('db world, exn, unit) prog" where
  [prog_defs]: "set_scope s = modify (w_scope_update (\<lambda>_. s))"

definition current_scope :: "('db world, exn, uow_scope) prog" where
  "current_scope =
     bind_p (gets w_scope) (\<lambda>scope.
     case scope of
       None \<Rightarrow> raise inactive_uow_error
     | Some s \<Rightarrow> ret s)"

definition user_repository_property :: "('db world, exn, 'db world user_repository) prog" where
  "user_repository_property =
     bind_p current_scope (\<lambda>scope. ret sqlalchemy_user_repository)"

definition refresh_session_repository_property ::
    "('db world, exn, 'db world refresh_session_repository) prog" where
  "refresh_session_repository_property =
     bind_p current_scope (\<lambda>scope. ret sqlalchemy_refresh_session_repository)"

definition finish_transaction :: "bool \<Rightarrow> ('db world, exn, unit) prog" where
  "finish_transaction has_error =
     (if has_error then stmt e_rollback else stmt e_commit)"

definition close_scope :: "('db world, exn, unit) prog" where
  "close_scope = bind_p (stmt e_close) (\<lambda>closed. set_scope None)"

definition aenter :: "('db world, exn, unit) prog" where
  "aenter =
     bind_p (gets w_scope) (\<lambda>scope.
     if scope \<noteq> None then raise nested_uow_error
     else
       bind_p open_session (\<lambda>session.
       bind_p (stmt e_begin) (\<lambda>transaction.
       set_scope (Some \<lparr>sc_session = session\<rparr>))))"

definition aexit :: "exn option \<Rightarrow> ('db world, exn, bool) prog" where
  "aexit exc =
     bind_p (gets w_scope) (\<lambda>scope.
     case scope of
       None \<Rightarrow> raise inactive_uow_error
     | Some s \<Rightarrow>
         bind_p
           (try_except (finish_transaction (exc \<noteq> None))
             (\<lambda>e. bind_p close_scope (\<lambda>closed. raise e))) (\<lambda>finished.
         bind_p close_scope (\<lambda>closed.
         ret False)))"

definition sqlalchemy_unit_of_work :: "'db world unit_of_work" where
  "sqlalchemy_unit_of_work =
     \<lparr>uow_user_repository = user_repository_property,
      uow_refresh_session_repository = refresh_session_repository_property,
      uow_aenter = aenter,
      uow_aexit = aexit\<rparr>"


section \<open>The contract\<close>

lemma stmt_run: "stmt st w = (r, w') \<longleftrightarrow> (\<exists>d. st (w_engine w) (w_db w) = (r, d) \<and> w' = w\<lparr>w_db := d\<rparr>)"
  by (auto simp: stmt_def split: prod.splits)

lemma set_scope_run [simp]: "set_scope s w = (r, w') \<longleftrightarrow> r = Inr () \<and> w' = w\<lparr>w_scope := s\<rparr>"
  by (auto simp: set_scope_def)

lemma open_session_run:
  "open_session w = (r, w') \<Longrightarrow> (\<exists>n. r = Inr n) \<and> w_engine w' = w_engine w \<and> w_db w' = w_db w \<and>
     w_scope w' = w_scope w"
  by (auto simp: open_session_def split: prod.splits)

text \<open>What the laws of the engine say about the four transaction statements.\<close>

lemma transaction_laws:
  assumes "engine_ok E"
  shows "e_begin E d = (Inr u, d') \<Longrightarrow>
      e_committed E d' = e_committed E d \<and> e_view E d' = e_committed E d"
    and "e_begin E d = (Inl e, d') \<Longrightarrow> storage_error e \<and> e_committed E d' = e_committed E d"
    and "e_commit E d = (Inr u, d') \<Longrightarrow> e_committed E d' = e_view E d"
    and "e_commit E d = (Inl e, d') \<Longrightarrow> storage_error e \<and> e_committed E d' = e_committed E d"
    and "e_rollback E d = (Inr u, d') \<Longrightarrow> e_committed E d' = e_committed E d"
    and "e_rollback E d = (Inl e, d') \<Longrightarrow> storage_error e \<and> e_committed E d' = e_committed E d"
    and "e_close E d = (Inr u, d') \<Longrightarrow> e_committed E d' = e_committed E d"
    and "e_close E d = (Inl e, d') \<Longrightarrow> storage_error e \<and> e_committed E d' = e_committed E d"
  using assms unfolding engine_ok_def transaction_ok_def
  by (auto dest!: spec [of _ d] split: sum.splits)

lemmas rows_of_world = committed_of_def view_of_def

text \<open>The end of a transaction: \<open>p\<close> commits or rolls back, then the scope is closed.\<close>

lemma aexit_run:
  assumes "aexit exc w = (r, w')" and "w_scope w = Some s"
  obtains (returned) w1 u u' where "finish_transaction (exc \<noteq> None) w = (Inr u, w1)"
      "close_scope w1 = (Inr u', w')" "r = Inr False"
    | (close_err) w1 u e where "finish_transaction (exc \<noteq> None) w = (Inr u, w1)"
      "close_scope w1 = (Inl e, w')" "r = Inl e"
    | (finish_err) w1 e e' u where "finish_transaction (exc \<noteq> None) w = (Inl e, w1)"
      "close_scope w1 = (Inr u, w') \<and> e' = e \<or> close_scope w1 = (Inl e', w')" "r = Inl e'"
proof (cases "finish_transaction (exc \<noteq> None) w")
  case (Pair f w1)
  obtain c w2 where "close_scope w1 = (c, w2)" by (cases "close_scope w1")
  with Pair assms show thesis
    by (cases f; cases c) (auto simp: aexit_def bind_p_def try_except_def gets_def ret_def raise_def
        intro: returned close_err finish_err)
qed

lemma close_scope_run:
  "close_scope w = (r, w') \<Longrightarrow> engine_ok (w_engine w) \<Longrightarrow>
   w_engine w' = w_engine w \<and> committed_of w' = committed_of w \<and>
   (case r of Inr u \<Rightarrow> w_scope w' = None | Inl e \<Rightarrow> storage_error e)"
  by (cases r) (auto simp: close_scope_def run_iffs stmt_run rows_of_world dest: transaction_laws)

lemma finish_run:
  "finish_transaction has_error w = (r, w') \<Longrightarrow> engine_ok (w_engine w) \<Longrightarrow>
   w_engine w' = w_engine w \<and>
   (case r of
      Inr u \<Rightarrow> committed_of w' = (if has_error then committed_of w else view_of w)
    | Inl e \<Rightarrow> storage_error e \<and> committed_of w' = committed_of w)"
  by (cases r) (auto simp: finish_transaction_def stmt_run rows_of_world
      dest: transaction_laws split: if_splits)

lemma sql_aenter_ok:
  "v_idle sql_view w \<Longrightarrow> aenter w = (Inr u, w') \<Longrightarrow>
   v_ready sql_view w' \<and> view_of w' = committed_of w \<and> committed_of w' = committed_of w"
  by (auto simp: aenter_def run_iffs stmt_run sql_view_iffs rows_of_world
      dest!: open_session_run dest: transaction_laws)

lemma sql_aenter_err:
  "v_idle sql_view w \<Longrightarrow> aenter w = (Inl e, w') \<Longrightarrow>
   storage_error e \<and> v_sound sql_view w' \<and> committed_of w' = committed_of w"
  by (auto simp: aenter_def run_iffs stmt_run sql_view_iffs rows_of_world
      dest!: open_session_run dest: transaction_laws)

text \<open>\<open>__aexit__\<close> never suppresses an exception, and leaves no scope when it returns.\<close>

lemma aexit_law:
  assumes "aexit exc w = (r, w')" and "v_live sql_view w" and "exc = None \<Longrightarrow> schema_ok (view_of w)"
  shows "case r of
      Inr b \<Rightarrow> \<not> b \<and> v_idle sql_view w' \<and>
        committed_of w' = (if exc = None then view_of w else committed_of w)
    | Inl e \<Rightarrow> storage_error e \<and> v_sound sql_view w' \<and>
        (committed_of w' = committed_of w \<or> exc = None \<and> committed_of w' = view_of w)"
proof -
  from assms(2) obtain s where s: "w_scope w = Some s" and ok: "engine_ok (w_engine w)"
    and sch: "schema_ok (committed_of w)"
    by (auto simp: sql_live_iff)
  from assms(1) s show ?thesis
  proof (cases rule: aexit_run)
    case (returned w1 u u')
    from finish_run [OF returned(1) ok] close_scope_run [OF returned(2)] returned(3) ok sch assms(3)
    show ?thesis by (auto simp: sql_idle_iff split: if_splits)
  next
    case (close_err w1 u e)
    from finish_run [OF close_err(1) ok] close_scope_run [OF close_err(2)] close_err(3) ok sch assms(3)
    show ?thesis by (auto simp: sql_sound_iff split: if_splits)
  next
    case (finish_err w1 e e' u)
    from finish_run [OF finish_err(1) ok] have f: "w_engine w1 = w_engine w" "storage_error e"
      "committed_of w1 = committed_of w" by auto
    with ok have ok1: "engine_ok (w_engine w1)" by simp
    from finish_err(2) have "storage_error e' \<and> w_engine w' = w_engine w \<and> committed_of w' = committed_of w"
    proof
      assume "close_scope w1 = (Inr u, w') \<and> e' = e"
      with close_scope_run [OF _ ok1] f show ?thesis by fastforce
    next
      assume "close_scope w1 = (Inl e', w')"
      from close_scope_run [OF this ok1] f show ?thesis by simp
    qed
    with finish_err(3) ok sch show ?thesis by (simp add: sql_sound_iff)
  qed
qed

interpretation sql_uow: unit_of_work_contract sql_view sqlalchemy_user_repository
  sqlalchemy_refresh_session_repository sqlalchemy_unit_of_work
proof (unfold_locales, simp_all only: sqlalchemy_unit_of_work_def unit_of_work.simps sql_view_simps)
  fix w w' :: "'a world" and u b e e'
  show "v_live sql_view w \<Longrightarrow> user_repository_property w = (Inr sqlalchemy_user_repository, w)"
    by (auto simp: user_repository_property_def current_scope_def bind_p_def gets_def ret_def
        sql_live_iff split: option.splits)
  show "v_live sql_view w \<Longrightarrow>
      refresh_session_repository_property w = (Inr sqlalchemy_refresh_session_repository, w)"
    by (auto simp: refresh_session_repository_property_def current_scope_def bind_p_def gets_def
        ret_def sql_live_iff split: option.splits)
next
  fix w w' :: "'a world" and u
  assume "v_idle sql_view w" and "aenter w = (Inr u, w')"
  then show "v_ready sql_view w' \<and> view_of w' = committed_of w \<and> committed_of w' = committed_of w"
    by (rule sql_aenter_ok)
next
  fix w w' :: "'a world" and e
  assume "v_idle sql_view w" and "aenter w = (Inl e, w')"
  then show "storage_error e \<and> v_sound sql_view w' \<and> committed_of w' = committed_of w"
    by (rule sql_aenter_err)
next
  fix w w' :: "'a world" and b
  assume "v_ready sql_view w" and "aexit None w = (Inr b, w')"
  then show "\<not> b \<and> v_idle sql_view w' \<and> committed_of w' = view_of w"
    using aexit_law [of None w "Inr b" w'] by (simp add: sql_view_iffs)
next
  fix w w' :: "'a world" and e
  assume "v_ready sql_view w" and "aexit None w = (Inl e, w')"
  then show "storage_error e \<and> v_sound sql_view w' \<and>
      (committed_of w' = committed_of w \<or> committed_of w' = view_of w)"
    using aexit_law [of None w "Inl e" w'] by (simp add: sql_view_iffs)
next
  fix w w' :: "'a world" and b e
  assume "v_live sql_view w" and "aexit (Some e) w = (Inr b, w')"
  then show "\<not> b \<and> v_idle sql_view w' \<and> committed_of w' = committed_of w"
    using aexit_law [of "Some e" w "Inr b" w'] by simp
next
  fix w w' :: "'a world" and e e'
  assume "v_live sql_view w" and "aexit (Some e) w = (Inl e', w')"
  then show "storage_error e' \<and> v_sound sql_view w' \<and> committed_of w' = committed_of w"
    using aexit_law [of "Some e" w "Inl e'" w'] by simp
qed

end
