(* ===== verification/Refresh_Sessions.thy ===== *)
theory Refresh_Sessions
  imports Unit_Of_Work
begin

text \<open>
  \<open>RefreshSessionService\<close> (core/authentication/services/refresh_session.py): issuing a
  refresh token with its hashed session record, rotation, revocation. The lemmas say what
  each method does to the tables and which exception it raises when, for any unit of work
  and runtime that keep their contracts.
\<close>

section \<open>Settings and helpers\<close>

record refresh_session_service_settings =
  rss_refresh_token_nbytes :: int
  rss_refresh_token_ttl_days :: int

definition of_time_error :: "time_error + 'a \<Rightarrow> exn + 'a" where
  "of_time_error r =
     (case r of
        Inl Time_OverflowError \<Rightarrow> Inl OverflowError
      | Inl Time_TypeError \<Rightarrow> Inl (TypeError ''datetime'')
      | Inr x \<Rightarrow> Inr x)"

definition refresh_token_ttl :: "refresh_session_service_settings \<Rightarrow> exn + int" where
  "refresh_token_ttl settings = of_time_error (timedelta_days (rss_refresh_token_ttl_days settings))"

definition issue_refresh_token ::
    "'w runtime \<Rightarrow> refresh_session_service_settings \<Rightarrow> ('w, exn, string) prog" where
  "issue_refresh_token rt settings = rt_token_urlsafe rt (rss_refresh_token_nbytes settings)"

definition hash_refresh_token :: "'w runtime \<Rightarrow> string \<Rightarrow> string" where
  "hash_refresh_token rt refresh_token = rt_sha256_hexdigest rt refresh_token"

section \<open>The methods\<close>

definition create_refresh_session ::
    "'w runtime \<Rightarrow> refresh_session_service_settings \<Rightarrow> 'w unit_of_work \<Rightarrow> user \<Rightarrow> string \<Rightarrow>
     string option \<Rightarrow> ('w, exn, refresh_session_result) prog" where
  "create_refresh_session rt settings uow user user_agent ip_address_trace =
     bind_p (issue_refresh_token rt settings) (\<lambda>refresh_token.
     bind_p (rt_now rt) (\<lambda>created_at.
     bind_p (uow_refresh_session_repository uow) (\<lambda>repository.
     bind_p (rt_uuid7 rt) (\<lambda>new_id.
     bind_p (of_result (refresh_token_ttl settings)) (\<lambda>ttl.
     bind_p (of_result (of_time_error (dt_add created_at ttl))) (\<lambda>expires_at.
     bind_p (sp_create repository
         \<lparr>cs_id = new_id,
          cs_user = user,
          cs_refresh_token_hash = hash_refresh_token rt refresh_token,
          cs_user_agent = user_agent,
          cs_ip_address_trace = (case ip_address_trace of None \<Rightarrow> '''' | Some trace \<Rightarrow> trace),
          cs_created_at = created_at,
          cs_last_used_at = None,
          cs_expires_at = expires_at,
          cs_revoked_at = None,
          cs_rotation_counter = 0\<rparr>) (\<lambda>session.
     ret \<lparr>rsr_refresh_token = refresh_token, rsr_session = session\<rparr>)))))))"

definition get_active_refresh_session ::
    "'w runtime \<Rightarrow> 'w refresh_session_repository \<Rightarrow> string \<Rightarrow> ('w, exn, refresh_session) prog" where
  "get_active_refresh_session rt repository refresh_token_hash =
     bind_p (sp_get_by_token_hash repository refresh_token_hash) (\<lambda>session.
     case session of
       None \<Rightarrow> raise InvalidRefreshTokenError
     | Some s \<Rightarrow>
         bind_p (rt_now rt) (\<lambda>now.
         bind_p (of_result (is_active_at s now)) (\<lambda>active.
         if \<not> active then raise ExpiredRefreshTokenError
         else ret s)))"

definition rotate_refresh_token ::
    "'w runtime \<Rightarrow> refresh_session_service_settings \<Rightarrow> 'w unit_of_work \<Rightarrow> string \<Rightarrow>
     ('w, exn, refresh_session_result) prog" where
  "rotate_refresh_token rt settings uow refresh_token =
     (let expected_refresh_token_hash = hash_refresh_token rt refresh_token in
     bind_p (uow_refresh_session_repository uow) (\<lambda>repository.
     bind_p (get_active_refresh_session rt repository expected_refresh_token_hash) (\<lambda>session.
     bind_p (issue_refresh_token rt settings) (\<lambda>new_refresh_token.
     bind_p (rt_now rt) (\<lambda>used_at.
     bind_p (uow_refresh_session_repository uow) (\<lambda>repository.
     bind_p (sp_replace_token_hash repository
         \<lparr>rr_session_id = rs_id session,
          rr_expected_refresh_token_hash = expected_refresh_token_hash,
          rr_refresh_token_hash = hash_refresh_token rt new_refresh_token,
          rr_last_used_at = used_at,
          rr_rotation_counter = rs_rotation_counter session + 1\<rparr>) (\<lambda>rotated_session.
     case rotated_session of
       None \<Rightarrow> raise InvalidRefreshTokenError
     | Some rotated \<Rightarrow>
         ret \<lparr>rsr_refresh_token = new_refresh_token, rsr_session = rotated\<rparr>)))))))"

definition revoke_refresh_token ::
    "'w runtime \<Rightarrow> 'w unit_of_work \<Rightarrow> string \<Rightarrow> user \<Rightarrow> ('w, exn, unit) prog" where
  "revoke_refresh_token rt uow refresh_token user =
     bind_p (uow_refresh_session_repository uow) (\<lambda>repository.
     bind_p (get_active_refresh_session rt repository (hash_refresh_token rt refresh_token))
       (\<lambda>session.
     if u_id (rs_user session) \<noteq> u_id user then raise InvalidRefreshTokenError
     else
       bind_p (uow_refresh_session_repository uow) (\<lambda>repository.
       bind_p (rt_now rt) (\<lambda>revoked_at.
       sp_revoke repository (rs_id session) revoked_at))))"

lemma time_arithmetic:
  "refresh_token_ttl settings = Inr ttl \<Longrightarrow> ttl = rss_refresh_token_ttl_days settings * usec_per_day"
  "refresh_token_ttl settings = Inl e \<Longrightarrow> e = OverflowError"
  "of_time_error (dt_add d us) = Inl e \<Longrightarrow> e = OverflowError"
  "of_time_error (dt_add d us) = Inr d' \<Longrightarrow> dt_instant d' = dt_instant d + us"
  by (auto simp: refresh_token_ttl_def of_time_error_def timedelta_days_def mk_timedelta_def
      dt_add_instant split: sum.splits time_error.splits if_splits)
    (auto simp: dt_add_def Let_def split: if_splits)

section \<open>What the methods do to the tables\<close>

text \<open>The session row a token leads to, and when it counts as usable or as spent.\<close>

definition session_of_token :: "(string \<Rightarrow> string) \<Rightarrow> tables \<Rightarrow> string \<Rightarrow> session_row option" where
  "session_of_token hash t token =
     find (\<lambda>r. sr_refresh_token_hash r = hash token) (t_sessions t)"

definition usable_at :: "int set \<Rightarrow> session_row \<Rightarrow> bool" where
  "usable_at readings r = (sr_revoked_at r = None \<and> (\<exists>now \<in> readings. now < sr_expires_at r))"

definition spent_at :: "int set \<Rightarrow> session_row \<Rightarrow> bool" where
  "spent_at readings r = (sr_revoked_at r \<noteq> None \<or> (\<exists>now \<in> readings. sr_expires_at r \<le> now))"

definition next_row :: "string \<Rightarrow> int \<Rightarrow> session_row \<Rightarrow> session_row" where
  "next_row new_hash used_at r =
     r\<lparr>sr_refresh_token_hash := new_hash, sr_last_used_at := Some used_at,
       sr_rotation_counter := sr_rotation_counter r + 1\<rparr>"

text \<open>The outcomes of a lookup that fails, for any method that starts from a token.\<close>

definition token_rejected ::
    "(string \<Rightarrow> string) \<Rightarrow> int set \<Rightarrow> string \<Rightarrow> tables \<Rightarrow> exn \<Rightarrow> bool" where
  "token_rejected hash readings token t e =
     ((e = InvalidRefreshTokenError \<and> session_of_token hash t token = None) \<or>
      (e = ExpiredRefreshTokenError \<and>
        (\<exists>r. session_of_token hash t token = Some r \<and> spent_at readings r)))"

text \<open>The row a session is created with.\<close>

definition fresh_session ::
    "(string \<Rightarrow> string) \<Rightarrow> int set \<Rightarrow> string set \<Rightarrow> refresh_session_service_settings \<Rightarrow> user \<Rightarrow>
     string \<Rightarrow> string option \<Rightarrow> string \<Rightarrow> session_row \<Rightarrow> bool" where
  "fresh_session hash readings tokens settings usr user_agent ip_address_trace token r =
     (token \<in> tokens \<and> sr_refresh_token_hash r = hash token \<and> sr_user_id r = u_id usr \<and>
      sr_user_agent r = user_agent \<and>
      sr_ip_address_trace r = (case ip_address_trace of None \<Rightarrow> '''' | Some trace \<Rightarrow> trace) \<and>
      sr_created_at r \<in> readings \<and>
      sr_expires_at r = sr_created_at r + rss_refresh_token_ttl_days settings * usec_per_day \<and>
      sr_last_used_at r = None \<and> sr_revoked_at r = None \<and> sr_rotation_counter r = 0)"

text \<open>What a rotation does to the row it starts from: new hash, new instant, next counter.\<close>

definition rotates ::
    "(string \<Rightarrow> string) \<Rightarrow> int set \<Rightarrow> string set \<Rightarrow> session_row \<Rightarrow>
     tables \<Rightarrow> refresh_session_result \<Rightarrow> tables \<Rightarrow> bool" where
  "rotates hash readings tokens r t x t' =
     (rsr_refresh_token x \<in> tokens \<and>
      (\<exists>used_at \<in> readings.
         t' = update_session_row (sr_id r) (next_row (hash (rsr_refresh_token x)) used_at) t \<and>
         represents t' (next_row (hash (rsr_refresh_token x)) used_at r) (rsr_session x)))"

locale application_contract =
  unit_of_work_contract V users sessions uow +
  runtime_contract V rt readings tokens hashes
  for V :: "'w view" and users and sessions and uow and rt and readings and tokens and hashes
begin

text \<open>The instants and the values of a draw, as a continuation sees them.\<close>

lemmas draws_meet = now token_urlsafe uuid7

lemma check_active_meets:
  "meets V (bind_p (rt_now rt) (\<lambda>now.
       bind_p (of_result (is_active_at s now)) (\<lambda>active.
       if \<not> active then raise ExpiredRefreshTokenError else ret s)))
     (\<lambda>t r t'. t' = t \<and> r = s \<and> usable_at readings (entity_row s))
     (\<lambda>t e. \<not> dt_aware (rs_expires_at s) \<or>
        e = ExpiredRefreshTokenError \<and> spent_at readings (entity_row s))"
proof (rule meets_bind [OF now])
  fix d
  show "meets V (bind_p (of_result (is_active_at s d)) (\<lambda>active.
      if \<not> active then raise ExpiredRefreshTokenError else ret s))
      (\<lambda>t r t'. t' = t \<and> r = s \<and> is_active_at s d = Inr True)
      (\<lambda>t e. is_active_at s d = Inl e \<or> e = ExpiredRefreshTokenError \<and> is_active_at s d = Inr False)"
    by (cases "is_active_at s d") (auto intro!: meets_ret meets_raise)
qed (auto simp: is_active_at_def dt_gt_def usable_at_def spent_at_def entity_row_def not_less
      split: if_splits)

abbreviation hash where "hash \<equiv> rt_sha256_hexdigest rt"

lemma get_active_meets:
  "meets V (get_active_refresh_session rt sessions (hash_refresh_token rt token))
     (\<lambda>t s t'. t' = t \<and> (\<exists>r. session_of_token hash t token = Some r \<and> represents t r s \<and>
        usable_at readings r))
     (\<lambda>t e. storage_error e \<or> token_rejected hash readings token t e)"
  unfolding get_active_refresh_session_def
proof (rule meets_bind [OF sessions.get_by_token_hash])
  fix found
  show "meets V (case found of
        None \<Rightarrow> raise InvalidRefreshTokenError
      | Some s \<Rightarrow>
          bind_p (rt_now rt) (\<lambda>now.
          bind_p (of_result (is_active_at s now)) (\<lambda>active.
          if \<not> active then raise ExpiredRefreshTokenError
          else ret s)))
      (\<lambda>t r t'. t' = t \<and> found = Some r \<and> usable_at readings (entity_row r))
      (\<lambda>t e. case found of None \<Rightarrow> e = InvalidRefreshTokenError
         | Some s \<Rightarrow> \<not> dt_aware (rs_expires_at s) \<or>
             e = ExpiredRefreshTokenError \<and> spent_at readings (entity_row s))"
  proof (cases found)
    case None
    then show ?thesis by (auto intro: meets_raise)
  next
    case (Some s)
    then show ?thesis by (auto intro: meets_mono [OF check_active_meets])
  qed
qed (auto simp: token_rejected_def session_of_token_def hash_refresh_token_def represents_def
      split: option.splits)

lemma create_refresh_session_meets:
  "meets V (create_refresh_session rt settings uow usr user_agent ip_address_trace)
     (\<lambda>t x t'. \<exists>r. t' = t\<lparr>t_sessions := t_sessions t @ [r]\<rparr> \<and>
        fresh_session hash readings tokens settings usr user_agent ip_address_trace
          (rsr_refresh_token x) r \<and>
        entity_row (rsr_session x) = r \<and> rs_user (rsr_session x) = usr)
     (\<lambda>t e. storage_error e \<or> e = OverflowError)"
  (is "meets V _ ?Q ?E")
  unfolding create_refresh_session_def issue_refresh_token_def
proof (rule meets_bind_draw [OF token_urlsafe], rule meets_bind_draw [OF now],
    rule meets_with_sessions, rule meets_bind_draw [where P = "\<lambda>_. True"])
  show "meets V (rt_uuid7 rt) (\<lambda>t x t'. t' = t \<and> True) (\<lambda>t e. False)"
    using uuid7 by simp
next
  fix token d i
  assume token: "token \<in> tokens" and d: "\<exists>n\<in>readings. d = dt_utc n"
  let ?data = "\<lambda>expires_at. \<lparr>cs_id = i, cs_user = usr,
      cs_refresh_token_hash = hash_refresh_token rt token, cs_user_agent = user_agent,
      cs_ip_address_trace = (case ip_address_trace of None \<Rightarrow> '''' | Some trace \<Rightarrow> trace),
      cs_created_at = d, cs_last_used_at = None, cs_expires_at = expires_at,
      cs_revoked_at = None, cs_rotation_counter = 0\<rparr>"
  have store: "meets V (bind_p (sp_create sessions (?data x)) (\<lambda>session.
      ret \<lparr>rsr_refresh_token = token, rsr_session = session\<rparr>)) ?Q ?E"
    if "refresh_token_ttl settings = Inr ttl" "of_time_error (dt_add d ttl) = Inr x" for ttl x
    by (rule meets_bind [OF sessions.create meets_ret
          [where Q = "\<lambda>t y t'. t' = t \<and> rsr_refresh_token y = token \<and> rsr_session y = s" for s]])
      (use token d time_arithmetic(1) [OF that(1)] time_arithmetic(4) [OF that(2)] in
        \<open>auto simp: fresh_session_def hash_refresh_token_def row_of_def new_session_model_def\<close>)
  show "meets V (bind_p (of_result (refresh_token_ttl settings)) (\<lambda>ttl.
      bind_p (of_result (of_time_error (dt_add d ttl))) (\<lambda>expires_at.
      bind_p (sp_create sessions (?data expires_at)) (\<lambda>session.
      ret \<lparr>rsr_refresh_token = token, rsr_session = session\<rparr>)))) ?Q ?E"
  proof (cases "refresh_token_ttl settings")
    case (Inl e)
    with time_arithmetic(2) [OF Inl] show ?thesis by (auto intro: meets_raise)
  next
    case ttl: (Inr ttl)
    show ?thesis
    proof (cases "of_time_error (dt_add d ttl)")
      case (Inl e)
      with ttl time_arithmetic(3) [OF Inl] show ?thesis by (auto intro: meets_raise)
    next
      case (Inr x)
      with ttl store [OF ttl Inr] show ?thesis by simp
    qed
  qed
qed

text \<open>The guarded UPDATE of a rotation, on the tables the lookup saw.\<close>

lemma rotate_step_meets:
  assumes new: "new \<in> tokens" and n: "n \<in> readings"
  shows "meets V (bind_p (sp_replace_token_hash sessions
         \<lparr>rr_session_id = rs_id s,
          rr_expected_refresh_token_hash = hash token,
          rr_refresh_token_hash = hash new,
          rr_last_used_at = dt_utc n,
          rr_rotation_counter = rs_rotation_counter s + 1\<rparr>) (\<lambda>rotated_session.
       case rotated_session of
         None \<Rightarrow> raise InvalidRefreshTokenError
       | Some rotated \<Rightarrow> ret \<lparr>rsr_refresh_token = new, rsr_session = rotated\<rparr>))
     (\<lambda>t x t'. \<forall>r. session_of_token hash t token = Some r \<and> represents t r s \<longrightarrow> rotates hash readings tokens r t x t')
     (\<lambda>t e. storage_error e \<or> session_of_token hash t token = None \<or>
        (\<exists>r. session_of_token hash t token = Some r \<and> \<not> represents t r s))"
proof (rule meets_bind [OF sessions.replace_token_hash])
  fix found
  show "meets V (case found of
         None \<Rightarrow> raise InvalidRefreshTokenError
       | Some rotated \<Rightarrow> ret \<lparr>rsr_refresh_token = new, rsr_session = rotated\<rparr>)
     (\<lambda>t x t'. t' = t \<and> rsr_refresh_token x = new \<and> found = Some (rsr_session x))
     (\<lambda>t e. found = None)"
    by (cases found) (auto intro: meets_ret meets_raise)
next
  let ?d = "\<lparr>rr_session_id = rs_id s, rr_expected_refresh_token_hash = hash token,
      rr_refresh_token_hash = hash new, rr_last_used_at = dt_utc n,
      rr_rotation_counter = rs_rotation_counter s + 1\<rparr>"
  fix t t' :: tables and found
  let ?row = "find (\<lambda>x. sr_id x = rr_session_id ?d \<and>
      sr_refresh_token_hash x = rr_expected_refresh_token_hash ?d) (t_sessions t)"
  assume sch: "schema_ok t" and upd: "case ?row of
        None \<Rightarrow> found = None \<and> t' = t
      | Some x \<Rightarrow> t' = update_session_row (rr_session_id ?d) (rotated_row ?d) t \<and>
          (\<exists>s. found = Some s \<and> represents t' (rotated_row ?d x) s)"
  have row: "?row = Some r" "t' = update_session_row (sr_id r) (next_row (hash new) n) t \<and>
      (\<exists>s'. found = Some s' \<and> represents t' (next_row (hash new) n r) s')"
    if r: "session_of_token hash t token = Some r" "represents t r s" for r
  proof -
    from r(2) have s: "rs_id s = sr_id r" "rs_rotation_counter s = sr_rotation_counter r"
      by (auto simp: represents_def entity_row_def)
    show 1: "?row = Some r"
      using find_by_hash_and_id [OF sch r(1) [unfolded session_of_token_def]] s by simp
    have eq: "rotated_row ?d r = next_row (hash new) n r"
      using s by (simp add: rotated_row_def next_row_def)
    have "update_session_row (sr_id r) (rotated_row ?d) t
        = update_session_row (sr_id r) (next_row (hash new) n) t"
      using find_SomeD [OF 1] by (intro update_session_row_cong [where r = r] sch eq) simp
    with upd 1 eq s show "t' = update_session_row (sr_id r) (next_row (hash new) n) t \<and>
        (\<exists>s'. found = Some s' \<and> represents t' (next_row (hash new) n r) s')" by auto
  qed
  show "\<forall>r. session_of_token hash t token = Some r \<and> represents t r s \<longrightarrow> rotates hash readings tokens r t x t''"
    if "t'' = t' \<and> rsr_refresh_token x = new \<and> found = Some (rsr_session x)" for x t''
    using row(2) that new n by (intro allI impI) (force simp: rotates_def)
  show "storage_error e \<or> session_of_token hash t token = None \<or>
      (\<exists>r. session_of_token hash t token = Some r \<and> \<not> represents t r s)"
    if "found = None" for e
    using row(2) that by (cases "session_of_token hash t token") auto
qed auto

lemma rotate_refresh_token_meets:
  "meets V (rotate_refresh_token rt settings uow token)
     (\<lambda>t x t'. \<exists>r. session_of_token hash t token = Some r \<and> usable_at readings r \<and> rotates hash readings tokens r t x t')
     (\<lambda>t e. storage_error e \<or> token_rejected hash readings token t e)"
  unfolding rotate_refresh_token_def Let_def issue_refresh_token_def
proof (rule meets_with_sessions, rule meets_bind [OF get_active_meets])
  fix s
  show "meets V
    (bind_p (rt_token_urlsafe rt (rss_refresh_token_nbytes settings)) (\<lambda>new_refresh_token.
     bind_p (rt_now rt) (\<lambda>used_at.
     bind_p (uow_refresh_session_repository uow) (\<lambda>repository.
     bind_p (sp_replace_token_hash repository
         \<lparr>rr_session_id = rs_id s,
          rr_expected_refresh_token_hash = hash_refresh_token rt token,
          rr_refresh_token_hash = hash_refresh_token rt new_refresh_token,
          rr_last_used_at = used_at,
          rr_rotation_counter = rs_rotation_counter s + 1\<rparr>) (\<lambda>rotated_session.
     case rotated_session of
       None \<Rightarrow> raise InvalidRefreshTokenError
     | Some rotated \<Rightarrow> ret \<lparr>rsr_refresh_token = new_refresh_token, rsr_session = rotated\<rparr>)))))
     (\<lambda>t x t'. \<forall>r. session_of_token hash t token = Some r \<and> represents t r s \<longrightarrow> rotates hash readings tokens r t x t')
     (\<lambda>t e. storage_error e \<or> session_of_token hash t token = None \<or>
        (\<exists>r. session_of_token hash t token = Some r \<and> \<not> represents t r s))"
    unfolding hash_refresh_token_def
  proof (rule meets_bind_draw [OF token_urlsafe], rule meets_bind_draw [OF now],
      rule meets_with_sessions)
    fix new d
    assume "new \<in> tokens" and "\<exists>n\<in>readings. d = dt_utc n"
    then show "meets V (bind_p (sp_replace_token_hash sessions
         \<lparr>rr_session_id = rs_id s, rr_expected_refresh_token_hash = hash token,
          rr_refresh_token_hash = hash new, rr_last_used_at = d,
          rr_rotation_counter = rs_rotation_counter s + 1\<rparr>) (\<lambda>rotated_session.
       case rotated_session of
         None \<Rightarrow> raise InvalidRefreshTokenError
       | Some rotated \<Rightarrow> ret \<lparr>rsr_refresh_token = new, rsr_session = rotated\<rparr>))
     (\<lambda>t x t'. \<forall>r. session_of_token hash t token = Some r \<and> represents t r s \<longrightarrow> rotates hash readings tokens r t x t')
     (\<lambda>t e. storage_error e \<or> session_of_token hash t token = None \<or>
        (\<exists>r. session_of_token hash t token = Some r \<and> \<not> represents t r s))"
      using rotate_step_meets by auto
  qed
qed auto

lemma revoke_refresh_token_meets:
  "meets V (revoke_refresh_token rt uow token usr)
     (\<lambda>t x t'. \<exists>r. session_of_token hash t token = Some r \<and> usable_at readings r \<and>
        sr_user_id r = u_id usr \<and>
        (\<exists>n \<in> readings. t' = update_session_row (sr_id r) (revoked_row (dt_utc n)) t))
     (\<lambda>t e. storage_error e \<or> token_rejected hash readings token t e \<or>
        (e = InvalidRefreshTokenError \<and>
         (\<exists>r. session_of_token hash t token = Some r \<and> usable_at readings r \<and>
            sr_user_id r \<noteq> u_id usr)))"
  unfolding revoke_refresh_token_def
proof (rule meets_with_sessions, rule meets_bind [OF get_active_meets])
  fix s
  have revoke: "meets V (bind_p (rt_now rt) (\<lambda>revoked_at. sp_revoke sessions (rs_id s) revoked_at))
      (\<lambda>t x t'. \<exists>n \<in> readings. t' = update_session_row (rs_id s) (revoked_row (dt_utc n)) t)
      (\<lambda>t e. storage_error e)"
    by (rule meets_bind_draw [OF now]) (auto intro: meets_mono [OF sessions.revoke])
  show "meets V (if u_id (rs_user s) \<noteq> u_id usr then raise InvalidRefreshTokenError
      else bind_p (uow_refresh_session_repository uow) (\<lambda>repository.
        bind_p (rt_now rt) (\<lambda>revoked_at. sp_revoke repository (rs_id s) revoked_at)))
      (\<lambda>t x t'. u_id (rs_user s) = u_id usr \<and>
         (\<exists>n \<in> readings. t' = update_session_row (rs_id s) (revoked_row (dt_utc n)) t))
      (\<lambda>t e. storage_error e \<or> e = InvalidRefreshTokenError \<and> u_id (rs_user s) \<noteq> u_id usr)"
    by (auto intro!: meets_raise meets_with_sessions intro: meets_mono [OF revoke])
qed (auto simp: represents_def entity_row_def)

end

text \<open>The SQLAlchemy unit of work and the runtime of the world keep the contracts.\<close>

interpretation app: application_contract sql_view sqlalchemy_user_repository
  sqlalchemy_refresh_session_repository sqlalchemy_unit_of_work "world_runtime L" "readings_of L"
  "tokens_of L" "hashes_of L" for L
  by unfold_locales

end
