(* ===== verification/User_Services.thy ===== *)
theory User_Services
  imports Refresh_Sessions
begin

text \<open>
  The user services (core/user/services): identity normalization, the password policy,
  credential checks and access flags, with the validation the pydantic models of the
  commands do when they are built (core/user/dtos, core/user/constraints).
\<close>

section \<open>Commands\<close>

definition user_name_max_length :: nat where "user_name_max_length = 150"

definition password_max_length :: nat where "password_max_length = 128"

text \<open>
  Building a \<open>RegisterUserDTO\<close> or a \<open>PersistUserDTO\<close>: the e-mail validator answers the
  address in its normal form or refuses, and the \<open>Len\<close> bounds are checked.
\<close>

definition make_register_user_dto ::
    "'w runtime \<Rightarrow> string \<Rightarrow> string \<Rightarrow> string \<Rightarrow> string \<Rightarrow> string \<Rightarrow> exn + register_user_dto" where
  "make_register_user_dto rt email username first_name last_name password =
     (case rt_validate_email rt email of
        None \<Rightarrow> Inl ValidationError
      | Some valid_email \<Rightarrow>
          if length username \<le> user_name_max_length \<and> length first_name \<le> user_name_max_length
             \<and> length last_name \<le> user_name_max_length \<and> length password \<le> password_max_length
          then Inr \<lparr>ru_email = valid_email, ru_username = username, ru_first_name = first_name,
                    ru_last_name = last_name, ru_password = password\<rparr>
          else Inl ValidationError)"

definition make_persist_user_dto ::
    "'w runtime \<Rightarrow> string \<Rightarrow> string \<Rightarrow> string \<Rightarrow> string \<Rightarrow> bool \<Rightarrow> bool \<Rightarrow> bool \<Rightarrow>
     exn + persist_user_dto" where
  "make_persist_user_dto rt email username first_name last_name is_active is_staff is_superuser =
     (case rt_validate_email rt email of
        None \<Rightarrow> Inl ValidationError
      | Some valid_email \<Rightarrow>
          if length username \<le> user_name_max_length \<and> length first_name \<le> user_name_max_length
             \<and> length last_name \<le> user_name_max_length
          then Inr \<lparr>pu_email = valid_email, pu_username = username, pu_first_name = first_name,
                    pu_last_name = last_name, pu_is_active = is_active, pu_is_staff = is_staff,
                    pu_is_superuser = is_superuser\<rparr>
          else Inl ValidationError)"

section \<open>Identity\<close>

definition normalize_username :: "'w runtime \<Rightarrow> string \<Rightarrow> string" where
  "normalize_username rt username = rt_nfkc rt (strip username)"

definition normalize_email :: "'w runtime \<Rightarrow> string \<Rightarrow> string" where
  "normalize_email rt email =
     (case partition_at (CHR ''@'') (strip email) of (local_part, separator, domain) \<Rightarrow>
        if \<not> separator then strip email
        else local_part @ ''@'' @ rt_casefold rt domain)"

definition normalize_register_user_data ::
    "'w runtime \<Rightarrow> register_user_dto \<Rightarrow> exn + register_user_dto" where
  "normalize_register_user_data rt data =
     make_register_user_dto rt (normalize_email rt (ru_email data))
       (normalize_username rt (ru_username data)) (ru_first_name data) (ru_last_name data)
       (ru_password data)"

section \<open>Passwords\<close>

record password_service_settings =
  pss_min_length :: int
  pss_max_length :: int

definition is_weak_password ::
    "'w runtime \<Rightarrow> password_service_settings \<Rightarrow> register_user_dto \<Rightarrow> bool" where
  "is_weak_password rt settings data =
     (let password = ru_password data in
        int (length password) < pss_min_length settings \<or>
        int (length password) > pss_max_length settings \<or>
        str_isnumeric password \<or>
        rt_casefold rt password \<in>
          {rt_casefold rt (ru_username data), rt_casefold rt (ru_email data)})"

definition validate_password ::
    "'w runtime \<Rightarrow> password_service_settings \<Rightarrow> register_user_dto \<Rightarrow> exn + unit" where
  "validate_password rt settings data =
     (if is_weak_password rt settings data then Inl WeakPasswordError else Inr ())"

definition hash_password :: "'w runtime \<Rightarrow> string \<Rightarrow> ('w, exn, string) prog" where
  "hash_password rt password = rt_password_hash rt password"

definition verify_password :: "'w runtime \<Rightarrow> string \<Rightarrow> string \<Rightarrow> exn + bool" where
  "verify_password rt password password_hash = rt_password_verify rt password password_hash"

section \<open>Credentials and permissions\<close>

definition authenticate_user ::
    "'w runtime \<Rightarrow> 'w unit_of_work \<Rightarrow> string \<Rightarrow> string \<Rightarrow> ('w, exn, user option) prog" where
  "authenticate_user rt uow username password =
     (let normalized_username = normalize_username rt username in
     bind_p (uow_user_repository uow) (\<lambda>repository.
     bind_p (ur_get_by_username repository normalized_username) (\<lambda>found.
     case found of
       None \<Rightarrow> ret None
     | Some usr \<Rightarrow>
         if \<not> u_is_active usr then ret None
         else
           bind_p (of_result (verify_password rt password (u_password_hash usr)))
             (\<lambda>is_valid_password.
           if \<not> is_valid_password then ret None
           else ret (Some usr)))))"

definition check_access :: "user \<Rightarrow> bool \<Rightarrow> bool \<Rightarrow> exn + unit" where
  "check_access usr require_staff require_superuser =
     (if require_staff \<and> \<not> u_is_staff usr then Inl UserPermissionDeniedError
      else if require_superuser \<and> \<not> u_is_superuser usr then Inl UserPermissionDeniedError
      else Inr ())"

section \<open>What the services promise\<close>

text \<open>The answer of a credential check as a function of the rows.\<close>

definition credentials_in ::
    "'w runtime \<Rightarrow> tables \<Rightarrow> string \<Rightarrow> string \<Rightarrow> exn + user option" where
  "credentials_in rt t username password =
     (case find (\<lambda>u. um_username u = normalize_username rt username) (t_users t) of
        None \<Rightarrow> Inr None
      | Some m \<Rightarrow>
          if um_is_active m
          then map_sum id (\<lambda>ok. if ok then Some (user_from_model m) else None)
                 (rt_password_verify rt password (um_password_hash m))
          else Inr None)"

context application_contract
begin

lemma authenticate_user_meets:
  "meets V (authenticate_user rt uow username password)
     (\<lambda>t r t'. t' = t \<and> credentials_in rt t username password = Inr r)
     (\<lambda>t e. storage_error e \<or> credentials_in rt t username password = Inl e)"
  unfolding authenticate_user_def Let_def
proof (rule meets_with_users, rule meets_bind [OF users.get_by_username])
  fix found
  let ?r = "case found of
      None \<Rightarrow> Inr None
    | Some usr \<Rightarrow>
        if u_is_active usr
        then map_sum id (\<lambda>ok. if ok then Some usr else None)
               (rt_password_verify rt password (u_password_hash usr))
        else Inr None"
  show "meets V (case found of
        None \<Rightarrow> ret None
      | Some usr \<Rightarrow>
          if \<not> u_is_active usr then ret None
          else
            bind_p (of_result (verify_password rt password (u_password_hash usr)))
              (\<lambda>is_valid_password. if \<not> is_valid_password then ret None else ret (Some usr)))
      (\<lambda>t r t'. t' = t \<and> ?r = Inr r) (\<lambda>t e. ?r = Inl e)"
  proof (cases found)
    case None
    then show ?thesis by (auto intro: meets_ret)
  next
    case (Some usr)
    then show ?thesis
      by (cases "rt_password_verify rt password (u_password_hash usr)")
        (auto simp: verify_password_def intro: meets_ret meets_raise)
  qed
qed (auto simp: credentials_in_def split: option.splits)

end

text \<open>Normalization is idempotent when the Unicode functions are, on values they leave alone.\<close>

lemma normalize_email_domain:
  assumes "CHR ''@'' \<notin> set l" and "l @ ''@'' @ d = strip (l @ ''@'' @ d)"
  shows "normalize_email rt (l @ ''@'' @ d) = l @ ''@'' @ rt_casefold rt d"
  using assms by (simp add: normalize_email_def)

text \<open>
  Two addresses that differ only in the case of the domain have the same normal form.
\<close>

lemma normalize_email_eq:
  assumes "CHR ''@'' \<notin> set l" and "rt_casefold rt d = rt_casefold rt d'"
    and "strip (l @ ''@'' @ d) = l @ ''@'' @ d" and "strip (l @ ''@'' @ d') = l @ ''@'' @ d'"
  shows "normalize_email rt (l @ ''@'' @ d) = normalize_email rt (l @ ''@'' @ d')"
  using assms by (simp add: normalize_email_def)

lemma validate_password_ok:
  "validate_password rt settings data = Inr () \<longleftrightarrow>
     pss_min_length settings \<le> int (length (ru_password data)) \<and>
     int (length (ru_password data)) \<le> pss_max_length settings \<and>
     \<not> str_isnumeric (ru_password data) \<and>
     rt_casefold rt (ru_password data) \<noteq> rt_casefold rt (ru_username data) \<and>
     rt_casefold rt (ru_password data) \<noteq> rt_casefold rt (ru_email data)"
  by (auto simp: validate_password_def is_weak_password_def Let_def)

lemma check_access_iff:
  "check_access usr st su = Inr () \<longleftrightarrow> (st \<longrightarrow> u_is_staff usr) \<and> (su \<longrightarrow> u_is_superuser usr)"
  "check_access usr st su = Inl e \<longleftrightarrow>
     e = UserPermissionDeniedError \<and> (st \<and> \<not> u_is_staff usr \<or> su \<and> \<not> u_is_superuser usr)"
  by (auto simp: check_access_def)

end
