(* ===== verification/Py_Int.thy ===== *)
theory Py_Int
  imports Py_Str
begin

text \<open>
  \<open>str(n)\<close> and \<open>int(s)\<close> for decimal text, as the JWT subject and the version parsers
  use them. \<open>int\<close> strips white space, takes one sign, allows single underscores between
  digits, and refuses more than 4300 digits (\<open>sys.int_max_str_digits\<close>); a refusal is a
  \<open>ValueError\<close>, here \<open>None\<close>.
\<close>

definition digit_char :: "nat \<Rightarrow> char" where
  [str_simps]: "digit_char d = char_of (48 + d)"

definition digit_value :: "char \<Rightarrow> nat" where
  [str_simps]: "digit_value c = code_of c - 48"

fun str_of_nat :: "nat \<Rightarrow> string" where
  "str_of_nat n = (if n < 10 then [digit_char n] else str_of_nat (n div 10) @ [digit_char (n mod 10)])"

declare str_of_nat.simps [simp del]

definition str_of_int :: "int \<Rightarrow> string" where
  [str_simps]: "str_of_int i =
     (if i < 0 then CHR ''-'' # str_of_nat (nat (- i)) else str_of_nat (nat i))"

fun value_of_digits :: "nat \<Rightarrow> string \<Rightarrow> nat" where
  "value_of_digits acc [] = acc"
| "value_of_digits acc (c # cs) =
     value_of_digits (if is_decimal c then 10 * acc + digit_value c else acc) cs"

text \<open>Digits with single underscores between them; the flag says a digit came just before.\<close>

fun digits_ok :: "bool \<Rightarrow> string \<Rightarrow> bool" where
  "digits_ok after_digit [] = after_digit"
| "digits_ok after_digit (c # cs) =
     (if is_decimal c then digits_ok True cs
      else c = CHR ''_'' \<and> after_digit \<and> digits_ok False cs)"

definition int_max_str_digits :: nat where
  [str_simps]: "int_max_str_digits = 4300"

definition parse_digits :: "string \<Rightarrow> nat option" where
  [str_simps]: "parse_digits s =
     (if digits_ok False s \<and> length (filter is_decimal s) \<le> int_max_str_digits
      then Some (value_of_digits 0 s) else None)"

definition int_of_str :: "string \<Rightarrow> int option" where
  [str_simps]: "int_of_str s =
     (let t = strip s in
      case t of
        [] \<Rightarrow> None
      | c # cs \<Rightarrow>
          if c = CHR ''-'' then map_option (\<lambda>n. - int n) (parse_digits cs)
          else if c = CHR ''+'' then map_option int (parse_digits cs)
          else map_option int (parse_digits t))"

lemma digit_char_decimal [simp]: "d < 10 \<Longrightarrow> is_decimal (digit_char d)"
  by (simp add: digit_char_def is_decimal_def)

lemma digit_value_char [simp]: "d < 10 \<Longrightarrow> digit_value (digit_char d) = d"
  by (simp add: digit_char_def digit_value_def)

lemma decimal_not_space: "is_decimal c \<Longrightarrow> \<not> is_space c"
  by (auto simp: is_decimal_def is_space_def)

lemma decimal_not_special: "is_decimal c \<Longrightarrow> c \<notin> {CHR ''-'', CHR ''+'', CHR ''_'', CHR ''.''}"
  by (auto simp: is_decimal_def code_of_def)

lemma value_of_digits_append:
  "value_of_digits acc (xs @ ys) = value_of_digits (value_of_digits acc xs) ys"
  by (induction xs arbitrary: acc) auto

lemma str_of_nat_decimal: "list_all is_decimal (str_of_nat n)"
  by (induction n rule: str_of_nat.induct) (subst str_of_nat.simps, simp)

lemma str_of_nat_not_Nil [simp]: "str_of_nat n \<noteq> []"
  by (subst str_of_nat.simps) simp

lemma value_of_str_of_nat: "value_of_digits 0 (str_of_nat n) = n"
  by (induction n rule: str_of_nat.induct)
    (subst str_of_nat.simps, simp add: value_of_digits_append)

lemma digits_ok_all: "list_all is_decimal s \<Longrightarrow> digits_ok b s = (b \<or> s \<noteq> [])"
  by (induction s arbitrary: b) auto

lemma length_str_of_nat: "n < 10 ^ k \<Longrightarrow> 0 < k \<Longrightarrow> length (str_of_nat n) \<le> k"
proof (induction n arbitrary: k rule: str_of_nat.induct)
  case (1 n)
  show ?case
  proof (cases "n < 10")
    case True
    with 1 show ?thesis by (simp add: str_of_nat.simps [of n])
  next
    case False
    with "1.prems" have "1 < k" by (cases k) (auto intro: ccontr)
    with "1.prems" have "n div 10 < 10 ^ (k - 1)"
      by (simp add: div_less_iff_less_mult flip: power_Suc2)
    with "1.IH" False \<open>1 < k\<close> have "length (str_of_nat (n div 10)) \<le> k - 1" by simp
    with False \<open>1 < k\<close> show ?thesis by (simp add: str_of_nat.simps [of n])
  qed
qed

lemma parse_digits_str_of_nat:
  assumes "n < 10 ^ int_max_str_digits"
  shows "parse_digits (str_of_nat n) = Some n"
proof -
  have "length (str_of_nat n) \<le> int_max_str_digits"
    using assms by (rule length_str_of_nat) (simp add: int_max_str_digits_def)
  moreover have "filter is_decimal (str_of_nat n) = str_of_nat n"
    using str_of_nat_decimal [of n] by (simp add: list_all_iff)
  ultimately show ?thesis
    using str_of_nat_decimal [of n]
    by (simp add: parse_digits_def digits_ok_all value_of_str_of_nat)
qed

lemma strip_decimals: "list_all is_decimal s \<Longrightarrow> strip s = s"
  by (rule strip_id) (metis decimal_not_space last_in_set list.set_sel(1) list_all_iff)

lemma int_of_str_of_nat:
  assumes "n < 10 ^ int_max_str_digits"
  shows "int_of_str (str_of_nat n) = Some (int n)"
proof -
  obtain c cs where s: "str_of_nat n = c # cs"
    by (cases "str_of_nat n") auto
  with str_of_nat_decimal [of n] have "is_decimal c" by simp
  then have "c \<noteq> CHR ''-''" "c \<noteq> CHR ''+''"
    using decimal_not_special by auto
  with s parse_digits_str_of_nat [OF assms] strip_decimals [OF str_of_nat_decimal [of n]]
  show ?thesis by (simp add: int_of_str_def)
qed

text \<open>Parsing what was printed gives the number back.\<close>

lemma int_of_str_of_int:
  assumes "\<bar>i\<bar> < 10 ^ int_max_str_digits"
  shows "int_of_str (str_of_int i) = Some i"
proof (cases "i < 0")
  case False
  with assms have "nat i < 10 ^ int_max_str_digits"
    by (simp add: nat_less_iff)
  with False int_of_str_of_nat [of "nat i"] show ?thesis
    by (simp add: str_of_int_def)
next
  case True
  let ?s = "str_of_nat (nat (- i))"
  from True assms have n: "nat (- i) < 10 ^ int_max_str_digits"
    by (simp add: nat_less_iff)
  have "strip (CHR ''-'' # ?s) = CHR ''-'' # ?s"
  proof (rule strip_id)
    have "is_decimal (last ?s)"
      using str_of_nat_decimal [of "nat (- i)"] by (simp add: list_all_iff)
    then show "CHR ''-'' # ?s = [] \<or>
        \<not> is_space (hd (CHR ''-'' # ?s)) \<and> \<not> is_space (last (CHR ''-'' # ?s))"
      by (simp add: decimal_not_space) (simp add: str_simps)
  qed
  with True parse_digits_str_of_nat [OF n] show ?thesis
    by (simp add: int_of_str_def str_of_int_def)
qed

end
