(* ===== verification/Jwt.thy ===== *)
theory Jwt
  imports User_Services Py_Int "HOL-Library.AList"
begin

text \<open>
  Access tokens: \<open>JWTService\<close> (core/authentication/services/jwt.py) and the bearer
  dependency \<open>JWTAuth\<close> (core/authentication/delivery/fastapi/auth) that turns a request's
  credentials into the user id the controllers trust. Signing and checking a token is
  PyJWT's work, a parameter of the model (\<open>rt_jwt_encode\<close>, \<open>rt_jwt_decode\<close>).
\<close>

section \<open>\<open>JWTService\<close>\<close>

record jwt_service_settings =
  jss_secret_key :: string
  jss_algorithm :: string
  jss_typ :: string
  jss_access_token_expire_minutes :: int

definition access_token_expire :: "jwt_service_settings \<Rightarrow> exn + int" where
  "access_token_expire settings =
     of_time_error (timedelta_minutes (jss_access_token_expire_minutes settings))"

text \<open>\<open>{**kwargs, key: value, ...}\<close>: a later key replaces an earlier one in its place.\<close>

definition dict_with :: "claims \<Rightarrow> (string \<times> claim) list \<Rightarrow> claims" where
  "dict_with d kvs = foldl (\<lambda>acc (k, v). AList.update k v acc) d kvs"

definition access_token_claims ::
    "jwt_service_settings \<Rightarrow> claims \<Rightarrow> int \<Rightarrow> datetime \<Rightarrow> datetime \<Rightarrow> claims" where
  "access_token_claims settings payload_kwargs user_id iat expires =
     dict_with payload_kwargs
       [(''sub'', ClaimStr (str_of_int user_id)),
        (''exp'', ClaimTime expires),
        (''iat'', ClaimTime iat),
        (''typ'', ClaimStr (jss_typ settings))]"

definition issue_access_token ::
    "'w runtime \<Rightarrow> jwt_service_settings \<Rightarrow> int \<Rightarrow> claims \<Rightarrow> ('w, exn, string) prog" where
  "issue_access_token rt settings user_id payload_kwargs =
     bind_p (rt_now rt) (\<lambda>iat.
     bind_p (of_result (access_token_expire settings)) (\<lambda>lifetime.
     bind_p (of_result (of_time_error (dt_add iat lifetime))) (\<lambda>expires.
     of_result (rt_jwt_encode rt (access_token_claims settings payload_kwargs user_id iat expires)
       (jss_secret_key settings) (jss_algorithm settings)))))"

definition required_claims :: "string list" where
  "required_claims = [''exp'', ''iat'', ''sub'', ''typ'']"

definition decode_token ::
    "'w runtime \<Rightarrow> jwt_service_settings \<Rightarrow> string \<Rightarrow> ('w, exn, claims) prog" where
  "decode_token rt settings token =
     bind_p (rt_now rt) (\<lambda>now.
     bind_p (of_result (rt_jwt_decode rt (dt_instant now) token (jss_secret_key settings)
       [jss_algorithm settings] required_claims)) (\<lambda>payload.
     if map_of payload ''typ'' \<noteq> Some (ClaimStr (jss_typ settings)) then raise JWTInvalidTokenError
     else ret payload))"

section \<open>\<open>JWTAuth\<close>\<close>

definition bearer_authentication_error :: "string \<Rightarrow> exn" where
  "bearer_authentication_error detail =
     HTTPException \<lparr>he_status_code = 401, he_detail = detail,
       he_headers = Some [(''WWW-Authenticate'', ''Bearer'')]\<rparr>"

text \<open>\<open>int(v)\<close> of a payload value.\<close>

fun int_of_claim :: "claim \<Rightarrow> exn + int" where
  "int_of_claim (ClaimStr s) =
     (case int_of_str s of None \<Rightarrow> Inl (ValueError ''int'') | Some i \<Rightarrow> Inr i)"
| "int_of_claim (ClaimInt i) = Inr i"
| "int_of_claim (ClaimFloat r) = r"
| "int_of_claim _ = Inl (TypeError ''int'')"

definition get_subject_user_id :: "claims \<Rightarrow> exn + int" where
  "get_subject_user_id payload =
     (case map_of payload ''sub'' of
        None \<Rightarrow> Inl (bearer_authentication_error ''Token payload missing 'sub' field'')
      | Some ClaimNull \<Rightarrow> Inl (bearer_authentication_error ''Token payload missing 'sub' field'')
      | Some user_id \<Rightarrow>
          (case int_of_claim user_id of
             Inl (TypeError _) \<Rightarrow>
               Inl (bearer_authentication_error ''Token payload has invalid 'sub' field'')
           | Inl (ValueError _) \<Rightarrow>
               Inl (bearer_authentication_error ''Token payload has invalid 'sub' field'')
           | r \<Rightarrow> r))"

definition get_token_payload ::
    "'w runtime \<Rightarrow> jwt_service_settings \<Rightarrow> string \<Rightarrow> ('w, exn, claims) prog" where
  "get_token_payload rt settings token =
     try_except (decode_token rt settings token) (\<lambda>exception.
       if isinstance exception ExpiredSignatureError_class
       then raise (bearer_authentication_error ''Token has expired'')
       else if isinstance exception InvalidTokenError_class
       then raise (bearer_authentication_error ''Invalid token'')
       else raise exception)"

text \<open>
  The request state \<open>JWTAuth\<close> fills. FastAPI's \<open>HTTPBearer\<close> answers the credentials of the
  Authorization header, None when there are none.
\<close>

record authenticated_request_state =
  ars_jwt_payload :: claims
  ars_user_id :: int

definition jwt_auth ::
    "'w runtime \<Rightarrow> jwt_service_settings \<Rightarrow> bool \<Rightarrow> string option \<Rightarrow>
     ('w, exn, authenticated_request_state option) prog" where
  "jwt_auth rt settings required credentials =
     (case credentials of
        None \<Rightarrow>
          if required then raise (bearer_authentication_error ''Not authenticated'')
          else ret None
      | Some token \<Rightarrow>
          bind_p (get_token_payload rt settings token) (\<lambda>payload.
          bind_p (of_result (get_subject_user_id payload)) (\<lambda>user_id.
          ret (Some \<lparr>ars_jwt_payload = payload, ars_user_id = user_id\<rparr>))))"

text \<open>\<open>JWTAuthFactory\<close>: a required bearer dependency.\<close>

definition jwt_auth_factory ::
    "'w runtime \<Rightarrow> jwt_service_settings \<Rightarrow> string option \<Rightarrow>
     ('w, exn, authenticated_request_state option) prog" where
  "jwt_auth_factory rt settings = jwt_auth rt settings True"

section \<open>Lemmas\<close>

lemma map_of_dict_with:
  "map_of (dict_with d kvs) k = (case map_of (rev kvs) k of None \<Rightarrow> map_of d k | Some v \<Rightarrow> Some v)"
proof (induction kvs rule: rev_induct)
  case Nil
  then show ?case by (simp add: dict_with_def)
next
  case (snoc kv kvs)
  obtain k' v where kv: "kv = (k', v)" by (cases kv)
  have "dict_with d (kvs @ [kv]) = AList.update k' v (dict_with d kvs)"
    by (simp add: dict_with_def kv)
  then show ?case
    using snoc by (simp add: kv update_conv')
qed

lemma access_token_claims_of:
  "map_of (access_token_claims settings kwargs i iat expires) ''sub'' = Some (ClaimStr (str_of_int i))"
  "map_of (access_token_claims settings kwargs i iat expires) ''exp'' = Some (ClaimTime expires)"
  "map_of (access_token_claims settings kwargs i iat expires) ''iat'' = Some (ClaimTime iat)"
  "map_of (access_token_claims settings kwargs i iat expires) ''typ'' = Some (ClaimStr (jss_typ settings))"
  by (simp_all add: access_token_claims_def map_of_dict_with)

lemma access_token_expire_value:
  "access_token_expire settings = Inr us \<Longrightarrow>
     us = jss_access_token_expire_minutes settings * 60000000"
  "access_token_expire settings = Inl e \<Longrightarrow> e = OverflowError"
  by (auto simp: access_token_expire_def of_time_error_def timedelta_minutes_def mk_timedelta_def
      split: sum.splits time_error.splits if_splits)

lemma subject_errors:
  "get_subject_user_id payload = Inl e \<Longrightarrow>
     e = bearer_authentication_error ''Token payload missing 'sub' field'' \<or>
     e = bearer_authentication_error ''Token payload has invalid 'sub' field'' \<or>
     (\<exists>r. map_of payload ''sub'' = Some (ClaimFloat (Inl e)))"
  by (auto simp: get_subject_user_id_def split: option.splits claim.splits sum.splits exn.splits
      elim!: int_of_claim.elims)

lemma subject_of_str:
  "map_of payload ''sub'' = Some (ClaimStr s) \<Longrightarrow>
   get_subject_user_id payload =
     (case int_of_str s of
        None \<Rightarrow> Inl (bearer_authentication_error ''Token payload has invalid 'sub' field'')
      | Some i \<Rightarrow> Inr i)"
  by (simp add: get_subject_user_id_def split: option.splits)

text \<open>The access token a method of a use case issues: what was signed, with which key.\<close>

definition access_token_for ::
    "(claims \<Rightarrow> string \<Rightarrow> string \<Rightarrow> exn + string) \<Rightarrow> int set \<Rightarrow> jwt_service_settings \<Rightarrow> int \<Rightarrow>
     string \<Rightarrow> bool" where
  "access_token_for encode readings settings user_id token =
     (\<exists>iat \<in> readings. \<exists>expires.
        dt_instant expires = iat + jss_access_token_expire_minutes settings * 60000000 \<and>
        encode (access_token_claims settings [] user_id (dt_utc iat) expires)
          (jss_secret_key settings) (jss_algorithm settings) = Inr token)"

text \<open>What issuing may raise: the lifetime overflows, or the signing library raises.\<close>

definition signing_error ::
    "(claims \<Rightarrow> string \<Rightarrow> string \<Rightarrow> exn + string) \<Rightarrow> jwt_service_settings \<Rightarrow> exn \<Rightarrow> bool" where
  "signing_error encode settings e =
     (e = OverflowError \<or>
      (\<exists>c. encode c (jss_secret_key settings) (jss_algorithm settings) = Inl e))"

context runtime_contract
begin

lemma issue_access_token_meets:
  "meets V (issue_access_token rt settings user_id [])
     (\<lambda>t token t'. t' = t \<and> access_token_for (rt_jwt_encode rt) readings settings user_id token)
     (\<lambda>t e. signing_error (rt_jwt_encode rt) settings e)"
  unfolding issue_access_token_def
proof (rule meets_bind_draw [OF now])
  fix d
  assume "\<exists>n\<in>readings. d = dt_utc n"
  then obtain n where n: "n \<in> readings" "d = dt_utc n" by blast
  show "meets V (bind_p (of_result (access_token_expire settings)) (\<lambda>lifetime.
      bind_p (of_result (of_time_error (dt_add d lifetime))) (\<lambda>expires.
      of_result (rt_jwt_encode rt (access_token_claims settings [] user_id d expires)
        (jss_secret_key settings) (jss_algorithm settings)))))
      (\<lambda>t token t'. t' = t \<and> access_token_for (rt_jwt_encode rt) readings settings user_id token)
      (\<lambda>t e. signing_error (rt_jwt_encode rt) settings e)"
  proof (cases "access_token_expire settings")
    case (Inl e)
    with access_token_expire_value(2) [OF Inl] show ?thesis
      by (auto simp: signing_error_def intro: meets_raise)
  next
    case lifetime: (Inr us)
    show ?thesis
    proof (cases "of_time_error (dt_add d us)")
      case (Inl e)
      with time_arithmetic(3) [OF Inl] lifetime show ?thesis
        by (auto simp: signing_error_def intro: meets_raise)
    next
      case (Inr x)
      with time_arithmetic(4) [OF Inr] lifetime access_token_expire_value(1) [OF lifetime] n
      show ?thesis
        by (auto simp: signing_error_def access_token_for_def intro!: meets_of_result)
    qed
  qed
qed

end

end
