(* ===== verification/Use_Cases.thy ===== *)
theory Use_Cases
  imports Jwt
begin

text \<open>
  The use cases (core/authentication/use_cases, core/user/use_cases): each runs its
  services in one unit of work. The lemmas say, for any adapters that keep the contracts,
  which committed change a use case makes when it returns and which exceptions it raises,
  with nothing committed then.
\<close>

record token_settings =
  ts_sessions :: refresh_session_service_settings
  ts_jwt :: jwt_service_settings

section \<open>Authentication\<close>

definition build_token_result ::
    "'w runtime \<Rightarrow> token_settings \<Rightarrow> user \<Rightarrow> string \<Rightarrow> ('w, exn, token_dto) prog" where
  "build_token_result rt settings usr refresh_token =
     bind_p (issue_access_token rt (ts_jwt settings) (u_id usr) []) (\<lambda>access_token.
     ret \<lparr>tk_access_token = access_token, tk_refresh_token = refresh_token\<rparr>)"

definition issue_token ::
    "'w runtime \<Rightarrow> token_settings \<Rightarrow> 'w unit_of_work \<Rightarrow> issue_token_dto \<Rightarrow>
     token_request_context_dto \<Rightarrow> ('w, exn, token_dto) prog" where
  "issue_token rt settings uow data request_context =
     async_with uow
       (bind_p (authenticate_user rt uow (it_username data) (it_password data)) (\<lambda>found.
        case found of
          None \<Rightarrow> raise InvalidCredentialsError
        | Some usr \<Rightarrow>
            bind_p (create_refresh_session rt (ts_sessions settings) uow usr
                (tc_user_agent request_context) (tc_ip_address_trace request_context))
              (\<lambda>session.
            build_token_result rt settings usr (rsr_refresh_token session))))"

definition refresh_token ::
    "'w runtime \<Rightarrow> token_settings \<Rightarrow> 'w unit_of_work \<Rightarrow> refresh_token_dto \<Rightarrow>
     ('w, exn, token_dto) prog" where
  "refresh_token rt settings uow data =
     async_with uow
       (bind_p (rotate_refresh_token rt (ts_sessions settings) uow (rt_refresh_token data))
         (\<lambda>rotated_session.
        if \<not> u_is_active (rs_user (rsr_session rotated_session))
        then raise InvalidRefreshTokenError
        else build_token_result rt settings (rs_user (rsr_session rotated_session))
               (rsr_refresh_token rotated_session)))"

definition revoke_token ::
    "'w runtime \<Rightarrow> 'w unit_of_work \<Rightarrow> refresh_token_dto \<Rightarrow> int \<Rightarrow> ('w, exn, unit) prog" where
  "revoke_token rt uow data user_id =
     async_with uow
       (bind_p (uow_user_repository uow) (\<lambda>repository.
        bind_p (ur_get_active_by_id repository user_id) (\<lambda>found.
        case found of
          None \<Rightarrow> raise AuthenticatedUserNotFoundError
        | Some usr \<Rightarrow> revoke_refresh_token rt uow (rt_refresh_token data) usr)))"

section \<open>Users\<close>

definition get_active_user_by_id :: "'w unit_of_work \<Rightarrow> int \<Rightarrow> ('w, exn, user option) prog" where
  "get_active_user_by_id uow user_id =
     async_with uow
       (bind_p (uow_user_repository uow) (\<lambda>repository.
        ur_get_active_by_id repository user_id))"

definition staff_user_lookup :: "'w unit_of_work \<Rightarrow> int \<Rightarrow> int \<Rightarrow> ('w, exn, user option) prog" where
  "staff_user_lookup uow user_id actor_user_id =
     async_with uow
       (bind_p (uow_user_repository uow) (\<lambda>repository.
        bind_p (ur_get_active_by_id repository actor_user_id) (\<lambda>actor.
        case actor of
          None \<Rightarrow> raise AuthenticatedUserNotFoundError
        | Some actor_user \<Rightarrow>
            bind_p (of_result (check_access actor_user True False)) (\<lambda>allowed.
            bind_p (uow_user_repository uow) (\<lambda>repository.
            ur_get_by_id repository user_id)))))"

definition persist_user_data :: "'w runtime \<Rightarrow> register_user_dto \<Rightarrow> exn + persist_user_dto" where
  "persist_user_data rt data =
     make_persist_user_dto rt (ru_email data) (ru_username data) (ru_first_name data)
       (ru_last_name data) True False False"

definition register_user ::
    "'w runtime \<Rightarrow> password_service_settings \<Rightarrow> 'w unit_of_work \<Rightarrow> register_user_dto \<Rightarrow>
     ('w, exn, user) prog" where
  "register_user rt settings uow data =
     bind_p (of_result (normalize_register_user_data rt data)) (\<lambda>normalized_data.
     bind_p (of_result (validate_password rt settings normalized_data)) (\<lambda>valid.
     bind_p (hash_password rt (ru_password normalized_data)) (\<lambda>password_hash.
     async_with uow
       (bind_p (uow_user_repository uow) (\<lambda>repository.
        bind_p (ur_get_by_username_or_email repository (ru_username normalized_data)
            (ru_email normalized_data)) (\<lambda>existing_user.
        if existing_user \<noteq> None then raise UserAlreadyExistsError
        else
          try_except
            (bind_p (uow_user_repository uow) (\<lambda>repository.
             bind_p (of_result (persist_user_data rt normalized_data)) (\<lambda>persist_data.
             ur_create repository persist_data password_hash)))
            (\<lambda>exception.
             if isinstance exception UserRepositoryConflictError_class
             then raise UserAlreadyExistsError else raise exception)))))))"

text \<open>The block that \<open>register_user\<close> runs in its unit of work.\<close>

abbreviation registration_block ::
    "'w runtime \<Rightarrow> 'w unit_of_work \<Rightarrow> register_user_dto \<Rightarrow> string \<Rightarrow> ('w, exn, user) prog" where
  "registration_block rt uow d h \<equiv>
     bind_p (uow_user_repository uow) (\<lambda>repository.
     bind_p (ur_get_by_username_or_email repository (ru_username d) (ru_email d)) (\<lambda>existing_user.
     if existing_user \<noteq> None then raise UserAlreadyExistsError
     else
       try_except
         (bind_p (uow_user_repository uow) (\<lambda>repository.
          bind_p (of_result (persist_user_data rt d)) (\<lambda>persist_data.
          ur_create repository persist_data h)))
         (\<lambda>exception.
          if isinstance exception UserRepositoryConflictError_class
          then raise UserAlreadyExistsError else raise exception)))"

section \<open>Reading\<close>

definition active_user_in :: "tables \<Rightarrow> int \<Rightarrow> user option" where
  "active_user_in t i =
     map_option user_from_model (find (\<lambda>u. um_id u = i \<and> um_is_active u) (t_users t))"

definition user_in :: "tables \<Rightarrow> int \<Rightarrow> user option" where
  "user_in t i = map_option user_from_model (find (\<lambda>u. um_id u = i) (t_users t))"

text \<open>Building a command fails with \<open>ValidationError\<close> only.\<close>

lemma make_register_user_dto_error:
  "make_register_user_dto rt mail name given family pw = Inl e \<Longrightarrow> e = ValidationError"
  by (auto simp: make_register_user_dto_def split: option.splits if_splits)

lemma normalize_register_user_data_error:
  "normalize_register_user_data rt data = Inl e \<Longrightarrow> e = ValidationError"
  unfolding normalize_register_user_data_def by (rule make_register_user_dto_error)

lemma persist_user_data_error: "persist_user_data rt d = Inl e \<Longrightarrow> e = ValidationError"
  by (auto simp: persist_user_data_def make_persist_user_dto_def split: option.splits if_splits)

text \<open>Whether a stored user has the username or the e-mail of a registration.\<close>

definition identity_taken :: "tables \<Rightarrow> register_user_dto \<Rightarrow> bool" where
  "identity_taken t d = list_ex (\<lambda>u. um_username u = ru_username d \<or> um_email u = ru_email d) (t_users t)"

lemma active_user_in_row:
  assumes "schema_ok t" and "m \<in> set (t_users t)"
  shows "active_user_in t (um_id m) = (if um_is_active m then Some (user_from_model m) else None)"
proof -
  have uniq: "u = m" if "u \<in> set (t_users t)" "um_id u = um_id m" for u
    using user_by_id_unique [OF assms(1) that(1) assms(2) that(2)] .
  show ?thesis
  proof (cases "find (\<lambda>u. um_id u = um_id m \<and> um_is_active u) (t_users t)")
    case None
    from find_NoneD [OF None assms(2)] None show ?thesis by (simp add: active_user_in_def)
  next
    case (Some u)
    from find_SomeD [OF Some] uniq have "u = m" "um_is_active m" by auto
    with Some show ?thesis by (simp add: active_user_in_def)
  qed
qed

lemma active_user_in_id: "active_user_in t i = Some usr \<Longrightarrow> u_id usr = i \<and> u_is_active usr"
  by (auto simp: active_user_in_def dest: find_SomeD)

text \<open>The user of a rotated session is the user of its row.\<close>

lemma rotates_user:
  assumes "schema_ok t" and "rotates hash readings tokens r t y t'"
  shows "u_id (rs_user (rsr_session y)) = sr_user_id r"
    and "active_user_in t (sr_user_id r) =
      (if u_is_active (rs_user (rsr_session y)) then Some (rs_user (rsr_session y)) else None)"
proof -
  from assms(2) obtain h n where
    "represents (update_session_row (sr_id r) (next_row h n) t) (next_row h n r) (rsr_session y)"
    by (auto simp: rotates_def)
  then obtain m where m: "related_user t r = Some m" "rs_user (rsr_session y) = user_from_model m"
    by (auto simp: represents_def related_user_def next_row_def)
  from related_user_Some [OF m(1)] have m': "m \<in> set (t_users t)" "um_id m = sr_user_id r"
    by auto
  with m show "u_id (rs_user (rsr_session y)) = sr_user_id r" by simp
  from active_user_in_row [OF assms(1) m'(1)] m m' show "active_user_in t (sr_user_id r) =
      (if u_is_active (rs_user (rsr_session y)) then Some (rs_user (rsr_session y)) else None)"
    by simp
qed

context application_contract
begin

lemma get_active_user_by_id_transacts:
  "transacts V (get_active_user_by_id uow i)
     (\<lambda>t r t'. t' = t \<and> r = active_user_in t i) (\<lambda>t e. storage_error e)"
  unfolding get_active_user_by_id_def active_user_in_def
  by (rule async_with_transacts) (rule meets_with_users, rule users.get_active_by_id)

lemma staff_user_lookup_transacts:
  "transacts V (staff_user_lookup uow i actor_id)
     (\<lambda>t r t'. t' = t \<and> r = user_in t i \<and>
        (\<exists>actor. active_user_in t actor_id = Some actor \<and> u_is_staff actor))
     (\<lambda>t e. storage_error e \<or>
        (e = AuthenticatedUserNotFoundError \<and> active_user_in t actor_id = None) \<or>
        (e = UserPermissionDeniedError \<and>
          (\<exists>actor. active_user_in t actor_id = Some actor \<and> \<not> u_is_staff actor)))"
  unfolding staff_user_lookup_def
proof (rule async_with_transacts, rule meets_with_users,
    rule meets_bind [OF users.get_active_by_id [of actor_id]])
  fix found
  have look: "meets V (bind_p (uow_user_repository uow) (\<lambda>repository. ur_get_by_id repository i))
      (\<lambda>t r t'. t' = t \<and> r = user_in t i) (\<lambda>t e. storage_error e)"
    unfolding user_in_def by (rule meets_with_users) (rule users.get_by_id)
  show "meets V (case found of
        None \<Rightarrow> raise AuthenticatedUserNotFoundError
      | Some actor_user \<Rightarrow>
          bind_p (of_result (check_access actor_user True False)) (\<lambda>allowed.
          bind_p (uow_user_repository uow) (\<lambda>repository. ur_get_by_id repository i)))
      (\<lambda>t r t'. t' = t \<and> r = user_in t i \<and> (\<exists>actor. found = Some actor \<and> u_is_staff actor))
      (\<lambda>t e. storage_error e \<or> (e = AuthenticatedUserNotFoundError \<and> found = None) \<or>
        (e = UserPermissionDeniedError \<and> (\<exists>actor. found = Some actor \<and> \<not> u_is_staff actor)))"
  proof (cases found)
    case None
    then show ?thesis by (auto intro: meets_raise)
  next
    case (Some actor)
    then show ?thesis
      by (cases "u_is_staff actor")
        (auto simp: check_access_def intro: meets_raise meets_mono [OF look])
  qed
qed (auto simp: active_user_in_def)

section \<open>Tokens\<close>

lemma build_token_result_meets:
  "meets V (build_token_result rt settings usr refresh)
     (\<lambda>t x t'. t' = t \<and> tk_refresh_token x = refresh \<and>
        access_token_for (rt_jwt_encode rt) readings (ts_jwt settings) (u_id usr) (tk_access_token x))
     (\<lambda>t e. signing_error (rt_jwt_encode rt) (ts_jwt settings) e)"
  unfolding build_token_result_def
  by (rule meets_bind [OF issue_access_token_meets meets_ret
        [where Q = "\<lambda>t x t'. t' = t \<and> x = \<lparr>tk_access_token = a, tk_refresh_token = refresh\<rparr>" for a]])
    auto

lemma issue_token_transacts:
  "transacts V (issue_token rt settings uow data ctx)
     (\<lambda>t x t'. \<exists>usr r. credentials_in rt t (it_username data) (it_password data) = Inr (Some usr) \<and>
        t' = t\<lparr>t_sessions := t_sessions t @ [r]\<rparr> \<and>
        fresh_session hash readings tokens (ts_sessions settings) usr (tc_user_agent ctx)
          (tc_ip_address_trace ctx) (tk_refresh_token x) r \<and>
        access_token_for (rt_jwt_encode rt) readings (ts_jwt settings) (u_id usr) (tk_access_token x))
     (\<lambda>t e. storage_error e \<or> signing_error (rt_jwt_encode rt) (ts_jwt settings) e \<or>
        credentials_in rt t (it_username data) (it_password data) = Inl e \<or>
        (e = InvalidCredentialsError \<and>
         credentials_in rt t (it_username data) (it_password data) = Inr None))"
  unfolding issue_token_def
proof (rule async_with_transacts, rule meets_bind [OF authenticate_user_meets])
  fix found
  have step: "meets V
      (bind_p (create_refresh_session rt (ts_sessions settings) uow usr (tc_user_agent ctx)
          (tc_ip_address_trace ctx)) (\<lambda>session.
        build_token_result rt settings usr (rsr_refresh_token session)))
      (\<lambda>t x t'. \<exists>r. t' = t\<lparr>t_sessions := t_sessions t @ [r]\<rparr> \<and>
        fresh_session hash readings tokens (ts_sessions settings) usr (tc_user_agent ctx)
          (tc_ip_address_trace ctx) (tk_refresh_token x) r \<and>
        access_token_for (rt_jwt_encode rt) readings (ts_jwt settings) (u_id usr) (tk_access_token x))
      (\<lambda>t e. storage_error e \<or> signing_error (rt_jwt_encode rt) (ts_jwt settings) e)" for usr
    by (rule meets_bind [OF create_refresh_session_meets build_token_result_meets])
      (auto simp: signing_error_def)
  show "meets V (case found of
        None \<Rightarrow> raise InvalidCredentialsError
      | Some usr \<Rightarrow>
          bind_p (create_refresh_session rt (ts_sessions settings) uow usr (tc_user_agent ctx)
              (tc_ip_address_trace ctx)) (\<lambda>session.
          build_token_result rt settings usr (rsr_refresh_token session)))
      (\<lambda>t x t'. \<exists>usr r. found = Some usr \<and> t' = t\<lparr>t_sessions := t_sessions t @ [r]\<rparr> \<and>
        fresh_session hash readings tokens (ts_sessions settings) usr (tc_user_agent ctx)
          (tc_ip_address_trace ctx) (tk_refresh_token x) r \<and>
        access_token_for (rt_jwt_encode rt) readings (ts_jwt settings) (u_id usr) (tk_access_token x))
      (\<lambda>t e. storage_error e \<or> signing_error (rt_jwt_encode rt) (ts_jwt settings) e \<or>
        e = InvalidCredentialsError \<and> found = None)"
    by (cases found) (auto intro: meets_raise meets_mono [OF step])
qed auto

lemma refresh_token_transacts:
  "transacts V (refresh_token rt settings uow data)
     (\<lambda>t x t'. \<exists>r y. session_of_token hash t (rt_refresh_token data) = Some r \<and>
        usable_at readings r \<and> rotates hash readings tokens r t y t' \<and>
        tk_refresh_token x = rsr_refresh_token y \<and>
        active_user_in t (sr_user_id r) = Some (rs_user (rsr_session y)) \<and>
        access_token_for (rt_jwt_encode rt) readings (ts_jwt settings) (sr_user_id r) (tk_access_token x))
     (\<lambda>t e. storage_error e \<or> signing_error (rt_jwt_encode rt) (ts_jwt settings) e \<or>
        token_rejected hash readings (rt_refresh_token data) t e \<or>
        (e = InvalidRefreshTokenError \<and>
         (\<exists>r. session_of_token hash t (rt_refresh_token data) = Some r \<and>
            usable_at readings r \<and>
            active_user_in t (sr_user_id r) = None)))"
  unfolding refresh_token_def
proof (rule async_with_transacts, rule meets_bind [OF rotate_refresh_token_meets])
  fix y
  show "meets V (if \<not> u_is_active (rs_user (rsr_session y)) then raise InvalidRefreshTokenError
      else build_token_result rt settings (rs_user (rsr_session y)) (rsr_refresh_token y))
      (\<lambda>t x t'. t' = t \<and> u_is_active (rs_user (rsr_session y)) \<and>
        tk_refresh_token x = rsr_refresh_token y \<and>
        access_token_for (rt_jwt_encode rt) readings (ts_jwt settings) (u_id (rs_user (rsr_session y)))
          (tk_access_token x))
      (\<lambda>t e. signing_error (rt_jwt_encode rt) (ts_jwt settings) e \<or>
        e = InvalidRefreshTokenError \<and> \<not> u_is_active (rs_user (rsr_session y)))"
    by (auto intro: meets_raise meets_mono [OF build_token_result_meets])
qed (use rotates_user in \<open>fastforce split: if_splits\<close>)+

lemma revoke_token_transacts:
  "transacts V (revoke_token rt uow data user_id)
     (\<lambda>t x t'. \<exists>usr r. active_user_in t user_id = Some usr \<and>
        session_of_token hash t (rt_refresh_token data) = Some r \<and> usable_at readings r \<and>
        sr_user_id r = user_id \<and>
        (\<exists>n \<in> readings. t' = update_session_row (sr_id r) (revoked_row (dt_utc n)) t))
     (\<lambda>t e. storage_error e \<or> token_rejected hash readings (rt_refresh_token data) t e \<or>
        (e = AuthenticatedUserNotFoundError \<and> active_user_in t user_id = None) \<or>
        (e = InvalidRefreshTokenError \<and>
         (\<exists>r. session_of_token hash t (rt_refresh_token data) = Some r \<and>
            usable_at readings r \<and> sr_user_id r \<noteq> user_id)))"
  unfolding revoke_token_def
proof (rule async_with_transacts, rule meets_with_users,
    rule meets_bind [OF users.get_active_by_id [of user_id]])
  fix found
  let ?token = "rt_refresh_token data"
  show "meets V (case found of
        None \<Rightarrow> raise AuthenticatedUserNotFoundError
      | Some usr \<Rightarrow> revoke_refresh_token rt uow ?token usr)
      (\<lambda>t x t'. \<exists>usr r. found = Some usr \<and> session_of_token hash t ?token = Some r \<and>
         usable_at readings r \<and> sr_user_id r = u_id usr \<and>
         (\<exists>n \<in> readings. t' = update_session_row (sr_id r) (revoked_row (dt_utc n)) t))
      (\<lambda>t e. storage_error e \<or> token_rejected hash readings ?token t e \<or>
        (e = AuthenticatedUserNotFoundError \<and> found = None) \<or>
        (e = InvalidRefreshTokenError \<and>
         (\<exists>usr r. found = Some usr \<and> session_of_token hash t ?token = Some r \<and>
            usable_at readings r \<and>
            sr_user_id r \<noteq> u_id usr)))"
    by (cases found) (auto intro: meets_raise meets_mono [OF revoke_refresh_token_meets])
qed (auto simp: active_user_in_def [symmetric] dest: active_user_in_id)

section \<open>Registration\<close>

lemma transacts_bind_result:
  assumes "\<And>x. r = Inr x \<Longrightarrow> transacts V (k x) Q E" and "\<And>t e. r = Inl e \<Longrightarrow> E t e"
  shows "transacts V (bind_p (of_result r) k) Q E"
  using assms by (cases r) (auto simp: transacts_def wp_simps)

lemma transacts_bind_hash:
  assumes "\<And>h. h \<in> hashes p \<Longrightarrow> transacts V (k h) Q E"
  shows "transacts V (bind_p (rt_password_hash rt p) k) Q E"
  unfolding transacts_def
proof (intro allI impI)
  fix w
  assume idle: "v_idle V w"
  from password_hash [OF idle, of p] obtain h w1 where
    h: "rt_password_hash rt p w = (Inr h, w1)" "h \<in> hashes p"
    and w1: "v_idle V w1" "v_committed V w1 = v_committed V w" by blast
  from assms [OF h(2)] w1(1) have "wp (k h)
      (\<lambda>x w'. v_idle V w' \<and> Q (v_committed V w) x (v_committed V w'))
      (\<lambda>e w'. E (v_committed V w) e \<and> v_idle V w' \<and> v_committed V w' = v_committed V w \<or>
         storage_error e \<and> v_sound V w' \<and> (v_committed V w' = v_committed V w \<or>
           (\<exists>x. Q (v_committed V w) x (v_committed V w')))) w1"
    unfolding transacts_def w1(2) [symmetric] by blast
  then show "wp (bind_p (rt_password_hash rt p) k)
      (\<lambda>x w'. v_idle V w' \<and> Q (v_committed V w) x (v_committed V w'))
      (\<lambda>e w'. E (v_committed V w) e \<and> v_idle V w' \<and> v_committed V w' = v_committed V w \<or>
         storage_error e \<and> v_sound V w' \<and> (v_committed V w' = v_committed V w \<or>
           (\<exists>x. Q (v_committed V w) x (v_committed V w')))) w"
    by (simp add: wp_bind) (simp add: wp_def h(1))
qed

lemma create_user_meets:
  "meets V
     (try_except
        (bind_p (uow_user_repository uow) (\<lambda>repository.
         bind_p (of_result (persist_user_data rt d)) (\<lambda>p. ur_create repository p h)))
        (\<lambda>exception.
         if isinstance exception UserRepositoryConflictError_class
         then raise UserAlreadyExistsError else raise exception))
     (\<lambda>t x t'. \<exists>p m. persist_user_data rt d = Inr p \<and> values_of m = new_user_values p h \<and>
        x = user_from_model m \<and> t' = t\<lparr>t_users := t_users t @ [m]\<rparr>)
     (\<lambda>t e. storage_error e \<or> persist_user_data rt d = Inl e \<or>
        e = UserAlreadyExistsError \<and> (\<exists>p. persist_user_data rt d = Inr p))"
  (is "meets V (try_except ?m ?h) ?Q ?E")
proof -
  have m: "meets V ?m ?Q
      (\<lambda>t e. storage_error e \<or> persist_user_data rt d = Inl e \<or>
        e = UserRepositoryConflictError \<and> (\<exists>p. persist_user_data rt d = Inr p))"
  proof (rule meets_with_users, cases "persist_user_data rt d")
    case (Inl e)
    then show "meets V (bind_p (of_result (persist_user_data rt d)) (\<lambda>p. ur_create users p h)) ?Q
      (\<lambda>t e. storage_error e \<or> persist_user_data rt d = Inl e \<or>
        e = UserRepositoryConflictError \<and> (\<exists>p. persist_user_data rt d = Inr p))"
      by (auto intro: meets_raise)
  next
    case (Inr p)
    then show "meets V (bind_p (of_result (persist_user_data rt d)) (\<lambda>p. ur_create users p h)) ?Q
      (\<lambda>t e. storage_error e \<or> persist_user_data rt d = Inl e \<or>
        e = UserRepositoryConflictError \<and> (\<exists>p. persist_user_data rt d = Inr p))"
      by (auto intro: meets_mono [OF users.create])
  qed
  have h: "?h e w = (Inl (if e = UserRepositoryConflictError then UserAlreadyExistsError else e), w)"
    for e w
    by (cases e) (simp_all add: raise_def)
  show ?thesis
  proof (rule meetsI)
    fix w x w'
    assume w: "v_ready V w" and run: "try_except ?m ?h w = (Inr x, w')"
    then have "?m w = (Inr x, w')"
      by (auto simp: try_except_def h simp del: isinstance_simps split: prod.splits sum.splits)
    from meets_ok [OF m w this]
    show "v_ready V w' \<and> v_frame V w w' \<and> ?Q (v_tables V w) x (v_tables V w')" .
  next
    fix w e w'
    assume w: "v_ready V w" and run: "try_except ?m ?h w = (Inl e, w')"
    then obtain e1 where e1: "?m w = (Inl e1, w')"
      and e: "e = (if e1 = UserRepositoryConflictError then UserAlreadyExistsError else e1)"
      by (auto simp: try_except_def h simp del: isinstance_simps split: prod.splits sum.splits)
    from meets_err [OF m w e1] e show "v_frame V w w' \<and> ?E (v_tables V w) e"
      by (auto dest: persist_user_data_error)
  qed
qed

lemma registration_block_meets:
  "meets V (registration_block rt uow d h)
     (\<lambda>t x t'. \<not> identity_taken t d \<and> (\<exists>p m. persist_user_data rt d = Inr p \<and>
        values_of m = new_user_values p h \<and> x = user_from_model m \<and> t' = t\<lparr>t_users := t_users t @ [m]\<rparr>))
     (\<lambda>t e. storage_error e \<or>
        (if identity_taken t d then e = UserAlreadyExistsError
         else persist_user_data rt d = Inl e \<or>
           e = UserAlreadyExistsError \<and> (\<exists>p. persist_user_data rt d = Inr p)))"
proof (rule meets_with_users, rule meets_bind [OF users.get_by_username_or_email])
  fix existing
  show "meets V (if existing \<noteq> None then raise UserAlreadyExistsError
      else
        try_except
          (bind_p (uow_user_repository uow) (\<lambda>repository.
           bind_p (of_result (persist_user_data rt d)) (\<lambda>persist_data.
           ur_create repository persist_data h)))
          (\<lambda>exception.
           if isinstance exception UserRepositoryConflictError_class
           then raise UserAlreadyExistsError else raise exception))
      (\<lambda>t x t'. existing = None \<and> (\<exists>p m. persist_user_data rt d = Inr p \<and>
         values_of m = new_user_values p h \<and> x = user_from_model m \<and> t' = t\<lparr>t_users := t_users t @ [m]\<rparr>))
      (\<lambda>t e. storage_error e \<or>
         (if existing \<noteq> None then e = UserAlreadyExistsError
          else persist_user_data rt d = Inl e \<or>
            e = UserAlreadyExistsError \<and> (\<exists>p. persist_user_data rt d = Inr p)))"
    by (auto simp del: isinstance_simps intro!: meets_raise intro: meets_mono [OF create_user_meets])
qed (auto simp: identity_taken_def list_ex_iff split: option.splits)

lemma register_user_transacts:
  "transacts V (register_user rt settings uow data)
     (\<lambda>t x t'. \<exists>d p m h. normalize_register_user_data rt data = Inr d \<and>
        \<not> is_weak_password rt settings d \<and> persist_user_data rt d = Inr p \<and>
        (\<forall>u \<in> set (t_users t). um_username u \<noteq> ru_username d \<and> um_email u \<noteq> ru_email d) \<and>
        h \<in> hashes (ru_password data) \<and> values_of m = new_user_values p h \<and>
        x = user_from_model m \<and> t' = t\<lparr>t_users := t_users t @ [m]\<rparr>)
     (\<lambda>t e. storage_error e \<or> normalize_register_user_data rt data = Inl e \<or>
        (\<exists>d. normalize_register_user_data rt data = Inr d \<and>
           (if is_weak_password rt settings d then e = WeakPasswordError
            else if identity_taken t d then e = UserAlreadyExistsError
            else persist_user_data rt d = Inl e \<or>
              e = UserAlreadyExistsError \<and> (\<exists>p. persist_user_data rt d = Inr p))))"
  (is "transacts V _ ?Q ?E")
  unfolding register_user_def
proof (rule transacts_bind_result, rule transacts_bind_result)
  fix d u
  assume d: "normalize_register_user_data rt data = Inr d"
    and valid: "validate_password rt settings d = Inr u"
  then have strong: "\<not> is_weak_password rt settings d"
    by (auto simp: validate_password_def split: if_splits)
  have pw: "ru_password d = ru_password data"
    using d by (auto simp: normalize_register_user_data_def make_register_user_dto_def
        split: option.splits if_splits)
  show "transacts V (bind_p (hash_password rt (ru_password d)) (\<lambda>password_hash.
     async_with uow (registration_block rt uow d password_hash))) ?Q ?E"
    unfolding hash_password_def
  proof (rule transacts_bind_hash)
    fix h
    assume h: "h \<in> hashes (ru_password d)"
    show "transacts V (async_with uow (registration_block rt uow d h)) ?Q ?E"
      by (rule transacts_mono [OF async_with_transacts [OF registration_block_meets]])
        (use d strong h pw in \<open>auto simp: identity_taken_def list_ex_iff\<close>)
  qed
qed (auto simp: validate_password_def split: if_splits)

end

end
