(* ===== verification/Py_IP.thy ===== *)
theory Py_IP
  imports Py_Int
begin

text \<open>
  \<open>ipaddress.ip_address\<close> and \<open>str\<close> of its result, from Python's standard library: IPv4
  octets without leading zeros, IPv6 groups with one \<open>::\<close>, an embedded IPv4 tail and a scope
  id, and the compressed text form. An invalid address is a \<open>ValueError\<close>, here None.
\<close>

section \<open>Hexadecimal groups\<close>

definition hex_value :: "char \<Rightarrow> nat option" where
  "hex_value c =
     (let n = code_of c in
      if 48 \<le> n \<and> n \<le> 57 then Some (n - 48)
      else if 97 \<le> n \<and> n \<le> 102 then Some (n - 87)
      else if 65 \<le> n \<and> n \<le> 70 then Some (n - 55)
      else None)"

definition hex_digit :: "nat \<Rightarrow> char" where
  "hex_digit d = char_of (if d < 10 then 48 + d else 87 + d)"

text \<open>\<open>'%x' % n\<close>.\<close>

fun hex_of_nat :: "nat \<Rightarrow> string" where
  "hex_of_nat n = (if n < 16 then [hex_digit n] else hex_of_nat (n div 16) @ [hex_digit (n mod 16)])"

declare hex_of_nat.simps [simp del]

fun hex_fold :: "nat \<Rightarrow> string \<Rightarrow> nat option" where
  "hex_fold acc [] = Some acc"
| "hex_fold acc (c # cs) =
     (case hex_value c of None \<Rightarrow> None | Some d \<Rightarrow> hex_fold (16 * acc + d) cs)"

definition parse_hextet :: "string \<Rightarrow> nat option" where
  "parse_hextet s = (if s = [] \<or> 4 < length s then None else hex_fold 0 s)"

section \<open>Parsing\<close>

datatype ip_address = IPv4Address "nat list" | IPv6Address "nat list" "string option"

definition parse_octet :: "string \<Rightarrow> nat option" where
  "parse_octet s =
     (if s = [] \<or> \<not> list_all is_decimal s \<or> 3 < length s then None
      else if s \<noteq> ''0'' \<and> hd s = CHR ''0'' then None
      else if 255 < value_of_digits 0 s then None
      else Some (value_of_digits 0 s))"

definition parse_all :: "('a \<Rightarrow> 'b option) \<Rightarrow> 'a list \<Rightarrow> 'b list option" where
  "parse_all f xs = (if None \<in> set (map f xs) then None else Some (map (the \<circ> f) xs))"

definition parse_ipv4 :: "string \<Rightarrow> nat list option" where
  "parse_ipv4 s =
     (let octets = split_on (CHR ''.'') s in
      if length octets \<noteq> 4 then None else parse_all parse_octet octets)"

text \<open>The groups of an address, \<open>::\<close> filled with zeros; at most one empty inner group.\<close>

definition expand_groups :: "string list \<Rightarrow> nat list option" where
  "expand_groups parts =
     (case filter (\<lambda>i. parts ! i = []) [1..<length parts - 1] of
        [] \<Rightarrow> if length parts = 8 then parse_all parse_hextet parts else None
      | [i] \<Rightarrow>
          (let hi = take i parts; lo = drop (i + 1) parts;
               hi_empty = (hd parts = []); lo_empty = (last parts = []) in
           if hi_empty \<and> i \<noteq> 1 \<or> lo_empty \<and> length lo \<noteq> 1 then None
           else
             (let his = (if hi_empty then [] else hi); los = (if lo_empty then [] else lo) in
              if 8 \<le> length his + length los then None
              else
                (case (parse_all parse_hextet his, parse_all parse_hextet los) of
                   (Some h, Some l) \<Rightarrow> Some (h @ replicate (8 - (length h + length l)) 0 @ l)
                 | _ \<Rightarrow> None)))
      | _ \<Rightarrow> None)"

definition parse_ipv6_groups :: "string \<Rightarrow> nat list option" where
  "parse_ipv6_groups s =
     (let parts = split_on (CHR '':'') s in
      if s = [] \<or> 45 < length s \<or> length parts < 3 then None
      else
        (case (if CHR ''.'' \<in> set (last parts)
               then (case parse_ipv4 (last parts) of
                       Some [a, b, c, d] \<Rightarrow>
                         Some (butlast parts @ [hex_of_nat (256 * a + b), hex_of_nat (256 * c + d)])
                     | _ \<Rightarrow> None)
               else Some parts) of
           None \<Rightarrow> None
         | Some groups \<Rightarrow> if 9 < length groups then None else expand_groups groups))"

definition parse_ipv6 :: "string \<Rightarrow> (nat list \<times> string option) option" where
  "parse_ipv6 s =
     (if CHR ''/'' \<in> set s then None
      else
        (case partition_at (CHR ''%'') s of (addr, sep, scope_id) \<Rightarrow>
           if sep \<and> (scope_id = [] \<or> CHR ''%'' \<in> set scope_id) then None
           else map_option (\<lambda>g. (g, if sep then Some scope_id else None)) (parse_ipv6_groups addr)))"

definition ip_address :: "string \<Rightarrow> ip_address option" where
  "ip_address s =
     (case parse_ipv4 s of
        Some octets \<Rightarrow> Some (IPv4Address octets)
      | None \<Rightarrow> map_option (\<lambda>(g, scope_id). IPv6Address g scope_id) (parse_ipv6 s))"

section \<open>The text form\<close>

text \<open>The first longest run of zero groups: its start and its length.\<close>

fun zero_runs :: "nat \<Rightarrow> nat list \<Rightarrow> (nat \<times> nat) list" where
  "zero_runs i [] = []"
| "zero_runs i (x # xs) =
     (i, length (takeWhile (\<lambda>y. y = 0) (x # xs))) # zero_runs (i + 1) xs"

definition best_run :: "nat list \<Rightarrow> nat \<times> nat" where
  "best_run gs =
     foldl (\<lambda>(bs, bl) (s, l). if bl < l then (s, l) else (bs, bl)) (0, 0) (zero_runs 0 gs)"

definition str_of_groups :: "nat list \<Rightarrow> string" where
  "str_of_groups gs =
     (case best_run gs of (start, len) \<Rightarrow>
        if 1 < len
        then str_join '':'' (map hex_of_nat (take start gs)) @ ''::'' @
             str_join '':'' (map hex_of_nat (drop (start + len) gs))
        else str_join '':'' (map hex_of_nat gs))"

definition str_of_octets :: "nat list \<Rightarrow> string" where
  "str_of_octets os = str_join ''.'' (map str_of_nat os)"

fun str_of_ip :: "ip_address \<Rightarrow> string" where
  "str_of_ip (IPv4Address os) = str_of_octets os"
| "str_of_ip (IPv6Address gs scope_id) =
     (if take 6 gs = [0, 0, 0, 0, 0, 65535]
      then ''::ffff:'' @ str_of_octets [gs ! 6 div 256, gs ! 6 mod 256, gs ! 7 div 256, gs ! 7 mod 256]
      else str_of_groups gs) @
     (case scope_id of None \<Rightarrow> [] | Some z \<Rightarrow> ''%'' @ z)"

section \<open>IPv4 text is its own normal form\<close>

lemma digit_char_value: "is_decimal c \<Longrightarrow> digit_char (digit_value c) = c"
  by (auto simp: digit_char_def digit_value_def is_decimal_def code_of_def)

lemma digit_value_lt: "is_decimal c \<Longrightarrow> digit_value c < 10"
  by (auto simp: digit_value_def is_decimal_def)

lemma value_of_digits_snoc:
  "is_decimal c \<Longrightarrow> value_of_digits 0 (s @ [c]) = 10 * value_of_digits 0 s + digit_value c"
  by (simp add: value_of_digits_append)

lemma code_zero: "char_of (48 :: nat) = CHR ''0''"
  by code_simp

lemma value_pos:
  "list_all is_decimal s \<Longrightarrow> s \<noteq> [] \<Longrightarrow> hd s \<noteq> CHR ''0'' \<Longrightarrow> 0 < value_of_digits 0 s"
proof (induction s rule: rev_induct)
  case (snoc c s)
  show ?case
  proof (cases "s = []")
    case True
    with snoc.prems have "is_decimal c" "c \<noteq> CHR ''0''" by auto
    then have "code_of c \<noteq> 48" by (metis code_of_def char_of_char code_zero)
    with True \<open>is_decimal c\<close> show ?thesis
      by (auto simp: digit_value_def is_decimal_def)
  next
    case False
    with snoc show ?thesis by (simp add: value_of_digits_snoc)
  qed
qed simp

lemma str_of_value:
  "list_all is_decimal s \<Longrightarrow> s \<noteq> [] \<Longrightarrow> s = ''0'' \<or> hd s \<noteq> CHR ''0'' \<Longrightarrow>
   str_of_nat (value_of_digits 0 s) = s"
proof (induction s rule: rev_induct)
  case (snoc c s)
  then have c: "is_decimal c" by simp
  show ?case
  proof (cases "s = []")
    case True
    with c digit_value_lt [OF c] show ?thesis
      by (simp add: str_of_nat.simps digit_char_value)
  next
    case False
    with snoc.prems have hd: "hd s \<noteq> CHR ''0''" by (cases s) auto
    with snoc False have "str_of_nat (value_of_digits 0 s) = s" "0 < value_of_digits 0 s"
      by (simp_all add: value_pos)
    with c digit_value_lt [OF c] show ?thesis
      by (simp add: value_of_digits_snoc str_of_nat.simps [of "10 * _ + _"] digit_char_value)
  qed
qed simp

lemma parse_octet_str: "parse_octet s = Some n \<Longrightarrow> str_of_nat n = s"
  by (auto simp: parse_octet_def str_of_value simp del: value_of_digits.simps split: if_splits)

lemma parse_all_Some:
  "parse_all f xs = Some ys \<Longrightarrow> (\<And>x y. x \<in> set xs \<Longrightarrow> f x = Some y \<Longrightarrow> g y = h x) \<Longrightarrow> map g ys = map h xs"
  by (auto simp: parse_all_def image_iff split: if_splits) (metis option.exhaust_sel)

lemma parse_ipv4_str: "parse_ipv4 s = Some os \<Longrightarrow> str_of_octets os = s"
proof -
  assume p: "parse_ipv4 s = Some os"
  then have "parse_all parse_octet (split_on (CHR ''.'') s) = Some os"
    by (auto simp: parse_ipv4_def Let_def split: if_splits)
  then have "map str_of_nat os = map id (split_on (CHR ''.'') s)"
    by (rule parse_all_Some) (simp add: parse_octet_str)
  then show ?thesis by (simp add: str_of_octets_def)
qed

lemma ip_address_v4: "ip_address s = Some (IPv4Address os) \<Longrightarrow> str_of_octets os = s"
  by (auto simp: ip_address_def dest: parse_ipv4_str split: option.splits)

end
