(* ===== verification/Requests.thy ===== *)
theory Requests
  imports World Py_IP
begin

text \<open>
  What the service derives from a request: the client's address trace and user agent
  (core/shared/delivery/fastapi/request.py), the throttling keys and dependencies
  (core/shared/delivery/fastapi/throttling, core/authentication/delivery/fastapi/throttling)
  and the middleware that throttles before a body is read. The rate limiter itself is a
  parameter: a program that says whether a key is over its limit.
\<close>

section \<open>Requests\<close>

record http_request =
  rq_method :: string
  rq_path :: string
  rq_headers :: "(string \<times> string) list"
  rq_client :: "(string \<times> int) option"

text \<open>\<open>request.headers.get(name)\<close>: ASGI names are lower case, the first match counts.\<close>

definition header_get :: "http_request \<Rightarrow> string \<Rightarrow> string option" where
  "header_get request name = map_of (rq_headers request) (str_lower name)"

record request_info_service_settings =
  ris_ip_header :: string
  ris_trust_forwarded_ip_header :: bool
  ris_user_agent_header :: string

definition get_user_agent :: "request_info_service_settings \<Rightarrow> http_request \<Rightarrow> string" where
  "get_user_agent settings request =
     (case header_get request (ris_user_agent_header settings) of None \<Rightarrow> '''' | Some v \<Rightarrow> v)"

definition normalize_ip :: "string \<Rightarrow> string option" where
  "normalize_ip address = map_option str_of_ip (ip_address address)"

definition get_remote_address :: "http_request \<Rightarrow> string option" where
  "get_remote_address request =
     (case rq_client request of
        None \<Rightarrow> None
      | Some (remote_address, port) \<Rightarrow>
          (case normalize_ip remote_address of
             Some normalized_address \<Rightarrow> Some normalized_address
           | None \<Rightarrow> None))"

text \<open>The loop over the entries: the accumulated list, or the early \<open>return ()\<close>.\<close>

fun parse_ip_trace_from :: "string list \<Rightarrow> string list \<Rightarrow> string list" where
  "parse_ip_trace_from addresses [] = addresses"
| "parse_ip_trace_from addresses (raw_address # rest) =
     (let address = strip raw_address in
      if address = [] then []
      else
        (case normalize_ip address of
           None \<Rightarrow> []
         | Some normalized_address \<Rightarrow> parse_ip_trace_from (addresses @ [normalized_address]) rest))"

definition parse_ip_trace :: "string \<Rightarrow> string list" where
  "parse_ip_trace header_value = parse_ip_trace_from [] (split_on (CHR '','') header_value)"

definition get_user_ip_trace :: "request_info_service_settings \<Rightarrow> http_request \<Rightarrow> string option" where
  "get_user_ip_trace settings request =
     (if \<not> ris_trust_forwarded_ip_header settings then get_remote_address request
      else
        (case header_get request (ris_ip_header settings) of
           None \<Rightarrow> get_remote_address request
         | Some header_value \<Rightarrow>
             (let addresses = parse_ip_trace header_value in
              if addresses \<noteq> [] then Some (str_join '','' addresses)
              else get_remote_address request)))"

section \<open>Throttlers\<close>

type_synonym 'w limiter = "string \<Rightarrow> int \<Rightarrow> ('w, exn, bool) prog"

definition too_many_requests :: exn where
  "too_many_requests =
     HTTPException \<lparr>he_status_code = 429, he_detail = ''Too many requests'', he_headers = None\<rparr>"

text \<open>\<open>BaseThrottler.__call__\<close> with the key of the subclass.\<close>

definition throttler_call ::
    "'w limiter \<Rightarrow> int \<Rightarrow> (http_request \<Rightarrow> string) \<Rightarrow> http_request \<Rightarrow> ('w, exn, unit) prog" where
  "throttler_call limit cost build_key request =
     bind_p (limit (build_key request) cost) (\<lambda>limited.
     if limited then raise too_many_requests else ret ())"

definition ip_throttler_key :: "request_info_service_settings \<Rightarrow> http_request \<Rightarrow> string" where
  "ip_throttler_key settings request =
     str_lower (''throttler:'' @ rq_method request @ '':'' @ rq_path request @ '':'' @
       (case get_user_ip_trace settings request of None \<Rightarrow> ''None'' | Some user_ip \<Rightarrow> user_ip))"

definition user_throttler_key :: "int \<Rightarrow> http_request \<Rightarrow> string" where
  "user_throttler_key user_id request =
     str_lower (''throttler:'' @ rq_method request @ '':'' @ rq_path request @ '':'' @ str_of_int user_id)"

definition ip_throttler ::
    "'w limiter \<Rightarrow> int \<Rightarrow> request_info_service_settings \<Rightarrow> http_request \<Rightarrow> ('w, exn, unit) prog" where
  "ip_throttler limit cost settings request =
     throttler_call limit cost (ip_throttler_key settings) request"

definition user_throttler ::
    "'w limiter \<Rightarrow> int \<Rightarrow> int \<Rightarrow> http_request \<Rightarrow> ('w, exn, unit) prog" where
  "user_throttler limit cost user_id request =
     throttler_call limit cost (user_throttler_key user_id) request"

section \<open>The middleware\<close>

text \<open>\<open>str.upper\<close> on HTTP methods, which are ASCII tokens.\<close>

definition ascii_upper :: "string \<Rightarrow> string" where
  "ascii_upper s =
     map (\<lambda>c. if 97 \<le> code_of c \<and> code_of c \<le> 122 then char_of (code_of c - 32) else c) s"

record asgi_scope =
  as_type :: string
  as_request :: http_request

record 'w pre_body_ip_throttling_rule =
  tr_method :: string
  tr_path :: string
  tr_throttler :: "http_request \<Rightarrow> ('w, exn, unit) prog"

definition request_key :: "http_request \<Rightarrow> string \<times> string" where
  "request_key request = (ascii_upper (rq_method request), rq_path request)"

text \<open>A dict comprehension: of two rules with one key the later one stays.\<close>

definition rules_by_key ::
    "'w pre_body_ip_throttling_rule list \<Rightarrow> string \<times> string \<Rightarrow> 'w pre_body_ip_throttling_rule option" where
  "rules_by_key rules =
     map_of (rev (map (\<lambda>rule. ((ascii_upper (tr_method rule), tr_path rule), rule)) rules))"

definition pre_body_ip_throttling_middleware ::
    "(asgi_scope \<Rightarrow> ('w, exn, 'a) prog) \<Rightarrow> (http_exception \<Rightarrow> ('w, exn, 'a) prog) \<Rightarrow>
     'w pre_body_ip_throttling_rule list \<Rightarrow> asgi_scope \<Rightarrow> ('w, exn, 'a) prog" where
  "pre_body_ip_throttling_middleware app respond rules scope =
     (if as_type scope \<noteq> ''http'' then app scope
      else
        (case rules_by_key rules (request_key (as_request scope)) of
           None \<Rightarrow> app scope
         | Some rule \<Rightarrow>
             bind_p
               (try_except
                 (bind_p (tr_throttler rule (as_request scope)) (\<lambda>passed. ret None))
                 (\<lambda>exception. case exception of
                    HTTPException response \<Rightarrow> ret (Some response)
                  | _ \<Rightarrow> raise exception)) (\<lambda>refused.
             case refused of
               Some response \<Rightarrow> respond response
             | None \<Rightarrow> app scope)))"

section \<open>The shared store of the throttlers\<close>

text \<open>
  \<open>AsyncThrottlerFactory\<close>: the store in use, the number of stores made so far, and the
  Redis clients closed so far, each by the number of its store. A client is described by
  the names of its callable methods; whether a store has opened one is a parameter.
\<close>

record throttler_store =
  ts_store :: "nat option"
  ts_created :: nat
  ts_closed :: "nat list"

definition store_factory_call :: "throttler_store \<Rightarrow> nat \<times> throttler_store" where
  "store_factory_call s = (ts_created s, s\<lparr>ts_created := ts_created s + 1\<rparr>)"

definition throttler_factory_init :: throttler_store where
  "throttler_factory_init =
     (let (n, s) = store_factory_call \<lparr>ts_store = None, ts_created = 0, ts_closed = []\<rparr>
      in s\<lparr>ts_store := Some n\<rparr>)"

definition get_store :: "throttler_store \<Rightarrow> nat \<times> throttler_store" where
  "get_store s =
     (case ts_store s of
        Some n \<Rightarrow> (n, s)
      | None \<Rightarrow> (let (n, s') = store_factory_call s in (n, s'\<lparr>ts_store := Some n\<rparr>)))"

definition close_method :: "string list \<Rightarrow> string option" where
  "close_method callable_names =
     find (\<lambda>method_name. method_name \<in> set callable_names) [''aclose'', ''close'', ''disconnect'']"

definition throttler_factory_dispose ::
    "(nat \<Rightarrow> string list option) \<Rightarrow> throttler_store \<Rightarrow> throttler_store" where
  "throttler_factory_dispose client_of s =
     (let s' = s\<lparr>ts_store := None\<rparr> in
      case ts_store s of
        None \<Rightarrow> s'
      | Some n \<Rightarrow>
          (case client_of n of
             None \<Rightarrow> s'
           | Some callable_names \<Rightarrow>
               (case close_method callable_names of
                  None \<Rightarrow> s'
                | Some m \<Rightarrow> s'\<lparr>ts_closed := ts_closed s' @ [n]\<rparr>)))"

section \<open>Lemmas\<close>

lemma parse_ip_trace_from_eq:
  "parse_ip_trace_from acc entries =
     (if \<forall>e \<in> set entries. strip e \<noteq> [] \<and> normalize_ip (strip e) \<noteq> None
      then acc @ map (\<lambda>e. the (normalize_ip (strip e))) entries else [])"
  by (induction entries arbitrary: acc) (auto simp: Let_def split: option.splits)

lemma parse_ip_trace_eq:
  "parse_ip_trace header =
     (let entries = map strip (split_on (CHR '','') header) in
      if \<forall>e \<in> set entries. e \<noteq> [] \<and> normalize_ip e \<noteq> None
      then map (\<lambda>e. the (normalize_ip e)) entries else [])"
  by (simp add: parse_ip_trace_def parse_ip_trace_from_eq Let_def o_def)

lemma get_remote_address_eq:
  "get_remote_address request = Option.bind (rq_client request) (\<lambda>(host, port). normalize_ip host)"
  by (auto simp: get_remote_address_def split: option.splits)

text \<open>An IPv4 address is recorded as it was written.\<close>

lemma normalize_ip_v4: "parse_ipv4 s \<noteq> None \<Longrightarrow> normalize_ip s = Some s"
  by (auto simp: normalize_ip_def ip_address_def dest: parse_ipv4_str)

lemma str_of_nat_lower: "list_all is_decimal s \<Longrightarrow> str_lower s = s"
  by (auto simp: str_lower_def lower_char_def is_upper_char_def is_decimal_def list_all_iff
      intro!: map_idI)

lemma str_of_int_lower: "str_lower (str_of_int i) = str_of_int i"
proof -
  have "str_lower (str_of_nat n) = str_of_nat n" for n
    by (rule str_of_nat_lower) (rule str_of_nat_decimal)
  moreover have "lower_char (CHR ''-'') = CHR ''-''"
    by (simp add: lower_char_def is_upper_char_def code_of_def)
  ultimately show ?thesis by (simp add: str_of_int_def str_lower_def)
qed

lemma str_lower_append: "str_lower (a @ b) = str_lower a @ str_lower b"
  by (simp add: str_lower_def)

lemma str_of_nat_inj: "str_of_nat m = str_of_nat n \<Longrightarrow> m = n"
  by (metis value_of_str_of_nat)

lemma str_of_int_inj:
  assumes "str_of_int i = str_of_int j"
  shows "i = j"
proof -
  have minus: "CHR ''-'' \<notin> set (str_of_nat n)" for n
    using str_of_nat_decimal [of n] decimal_not_special by (auto simp: list_all_iff)
  have "nat i = nat j \<and> 0 \<le> i \<and> 0 \<le> j \<or> nat (- i) = nat (- j) \<and> i < 0 \<and> j < 0"
    using assms minus by (auto simp: str_of_int_def split: if_splits dest!: str_of_nat_inj)
      (metis list.set_intros(1))+
  then show ?thesis by linarith
qed

lemma throttler_call_run:
  "throttler_call limit cost build_key request w =
     (case limit (build_key request) cost w of
        (Inr True, w') \<Rightarrow> (Inl too_many_requests, w')
      | (Inr False, w') \<Rightarrow> (Inr (), w')
      | (Inl e, w') \<Rightarrow> (Inl e, w'))"
  by (auto simp: throttler_call_def bind_p_def raise_def ret_def split: prod.splits sum.splits bool.splits)

section \<open>The life of the store\<close>

text \<open>\<open>__call__\<close> and \<open>dispose\<close> as steps, for any behaviour of the client.\<close>

inductive store_step :: "throttler_store \<Rightarrow> throttler_store \<Rightarrow> bool" where
  call_step: "get_store s = (n, s') \<Longrightarrow> store_step s s'"
| dispose_step: "throttler_factory_dispose client_of s = s' \<Longrightarrow> store_step s s'"

inductive_cases store_stepE: "store_step s s'"

inductive store_reachable :: "throttler_store \<Rightarrow> bool" where
  store_init: "store_reachable throttler_factory_init"
| store_next: "store_reachable s \<Longrightarrow> store_step s s' \<Longrightarrow> store_reachable s'"

definition store_inv :: "throttler_store \<Rightarrow> bool" where
  "store_inv s =
     (distinct (ts_closed s) \<and> (\<forall>n \<in> set (ts_closed s). n < ts_created s) \<and>
      (\<forall>n. ts_store s = Some n \<longrightarrow> n < ts_created s \<and> n \<notin> set (ts_closed s)))"

lemma store_inv_init: "store_inv throttler_factory_init"
  by (simp add: store_inv_def throttler_factory_init_def store_factory_call_def)

lemma store_inv_get: "store_inv s \<Longrightarrow> get_store s = (n, s') \<Longrightarrow> store_inv s' \<and> ts_store s' = Some n"
  by (force simp: store_inv_def get_store_def store_factory_call_def split: option.splits)

lemma store_inv_dispose: "store_inv s \<Longrightarrow> store_inv (throttler_factory_dispose c s)"
  by (auto simp: store_inv_def throttler_factory_dispose_def Let_def split: option.splits)

lemma store_inv_step: "store_step s s' \<Longrightarrow> store_inv s \<Longrightarrow> store_inv s'"
  by (elim store_stepE) (auto dest: store_inv_get intro: store_inv_dispose)

lemma store_reachable_inv: "store_reachable s \<Longrightarrow> store_inv s"
  by (induction rule: store_reachable.induct) (auto intro: store_inv_init store_inv_step)

section \<open>Properties\<close>

definition spoofed :: http_request where
  "spoofed = \<lparr>rq_method = ''POST'', rq_path = ''/api/v1/users'',
     rq_headers = [(''x-forwarded-for'', ''8.8.8.8, 10.0.0.1'')], rq_client = Some (''127.0.0.1'', 80)\<rparr>"

definition default_request_info :: request_info_service_settings where
  "default_request_info = \<lparr>ris_ip_header = ''x-forwarded-for'',
     ris_trust_forwarded_ip_header = False, ris_user_agent_header = ''user-agent''\<rparr>"

text \<open>
  C23. With an untrusted forwarding header no header can change the client's identity: the
  address trace, and with it the key an IP throttle counts, depends on the connection's
  peer address alone.
\<close>

theorem untrusted_headers_ignored:
  assumes "\<not> ris_trust_forwarded_ip_header settings"
  shows "get_user_ip_trace settings (request\<lparr>rq_headers := headers\<rparr>)
      = Option.bind (rq_client request) (\<lambda>(host, port). normalize_ip host) \<and>
    ip_throttler_key settings (request\<lparr>rq_headers := headers\<rparr>) = ip_throttler_key settings request"
  using assms by (simp add: ip_throttler_key_def get_user_ip_trace_def get_remote_address_eq)

theorem untrusted_headers_ignored_witness:
  "get_user_ip_trace default_request_info (spoofed\<lparr>rq_headers := [(''x-forwarded-for'', ''1.1.1.1'')]\<rparr>)
     = Some ''127.0.0.1''"
  using untrusted_headers_ignored [where settings = default_request_info and request = spoofed
      and headers = "[(''x-forwarded-for'', ''1.1.1.1'')]"]
  by (simp add: default_request_info_def spoofed_def normalize_ip_v4) code_simp

text \<open>
  C24. The address trace, completely: behind a trusted header whose comma-separated entries,
  stripped, are all valid addresses, it is the list of their normal forms joined by commas,
  in the order of the header; an empty or invalid entry anywhere discards the header, and
  then, like without the header or with an untrusted one, it is the normal form of the
  peer address, or None when that is no address.
\<close>

theorem ip_trace_characterized:
  "get_user_ip_trace settings request =
     (let remote = Option.bind (rq_client request) (\<lambda>(host, port). normalize_ip host) in
      if \<not> ris_trust_forwarded_ip_header settings then remote
      else
        case header_get request (ris_ip_header settings) of
          None \<Rightarrow> remote
        | Some value \<Rightarrow>
            (let entries = map strip (split_on (CHR '','') value) in
             if list_all (\<lambda>e. e \<noteq> [] \<and> normalize_ip e \<noteq> None) entries
             then Some (str_join '','' (map (\<lambda>e. the (normalize_ip e)) entries)) else remote))"
  by (auto simp: get_user_ip_trace_def get_remote_address_eq parse_ip_trace_eq Let_def list_all_iff
      split: option.splits)

text \<open>
  A user throttle counts each user apart: on one method and path the keys of two users
  are equal only if the users are.
\<close>

theorem user_throttler_key_separates:
  assumes "user_throttler_key i request = user_throttler_key j request"
  shows "i = j"
  using assms
  by (intro str_of_int_inj)
    (simp only: user_throttler_key_def str_lower_append str_of_int_lower same_append_eq)

theorem user_throttler_key_separates_witness:
  "user_throttler_key 7 spoofed = user_throttler_key 7 spoofed \<and> (7::int) = 7"
  using user_throttler_key_separates [of 7 spoofed 7] by simp

text \<open>
  The middleware throttles before anything else sees the request: on an HTTP request
  whose method, in any case, and exact path have a rule, the last such rule's throttler
  runs first; the application runs, from the world the throttler left, only if the throttler let the
  request pass, and an \<open>HTTPException\<close> of the throttler is answered in its place. Any
  other request goes straight to the application.
\<close>

theorem middleware_throttles_first:
  "pre_body_ip_throttling_middleware app respond rules scope w =
     (case (if as_type scope = ''http'' then rules_by_key rules (request_key (as_request scope)) else None) of
        None \<Rightarrow> app scope w
      | Some rule \<Rightarrow>
          (case tr_throttler rule (as_request scope) w of
             (Inr u, w') \<Rightarrow> app scope w'
           | (Inl (HTTPException h), w') \<Rightarrow> respond h w'
           | (Inl e, w') \<Rightarrow> (Inl e, w')))"
  by (auto simp: pre_body_ip_throttling_middleware_def bind_p_def try_except_def ret_def raise_def
      split: option.splits prod.splits sum.splits exn.splits)

text \<open>
  The throttlers' store is never used after its client was closed, and no client is
  closed twice: whatever calls and disposals happened, a later request for the store
  answers one that is not closed, the same one until the next disposal.
\<close>

theorem throttler_store_never_closed:
  assumes "store_reachable s" and "get_store s = (n, s')"
  shows "n \<notin> set (ts_closed s') \<and> distinct (ts_closed s') \<and> get_store s' = (n, s')"
  using store_inv_get [OF store_reachable_inv [OF assms(1)] assms(2)]
  by (auto simp: store_inv_def get_store_def)

theorem throttler_store_never_closed_witness:
  "let s = throttler_factory_dispose (\<lambda>n. Some [''close'']) throttler_factory_init
   in ts_closed s = [0] \<and> fst (get_store s) \<notin> set (ts_closed (snd (get_store s)))"
proof -
  let ?s = "throttler_factory_dispose (\<lambda>n. Some [''close'']) throttler_factory_init"
  have "store_reachable ?s"
    by (rule store_next [OF store_init dispose_step]) (rule refl)
  from throttler_store_never_closed [OF this prod.collapse [symmetric]] have
    "fst (get_store ?s) \<notin> set (ts_closed (snd (get_store ?s)))" by blast
  moreover have "ts_closed ?s = [0]" by code_simp
  ultimately show ?thesis by (simp add: Let_def)
qed

end
