(* ===== verification/Http.thy ===== *)
theory Http
  imports Use_Cases Requests
begin

text \<open>
  The HTTP adapters: the controllers of the eight endpoints with their exception
  translation (core/*/delivery/fastapi/controllers), the wrapper every endpoint runs in
  (foundation/delivery/controller.py), the routes with their dependencies, and the health
  checks. An endpoint is a program; a response that is no success is the \<open>HTTPException\<close>
  it raises, and any other exception reaches the framework, which answers 500.
\<close>

section \<open>The wrapper of the endpoints\<close>

text \<open>\<open>_add_exception_handler\<close>: \<open>except Exception\<close>, so a cancellation passes through.\<close>

definition add_exception_handler ::
    "(exn \<Rightarrow> ('w, exn, 'a) prog) \<Rightarrow> ('w, exn, 'a) prog \<Rightarrow> ('w, exn, 'a) prog" where
  "add_exception_handler handle_exception method =
     try_except method (\<lambda>exception.
       if isinstance exception Exception_class then handle_exception exception else raise exception)"

text \<open>
  \<open>_wrap_methods\<close>: every public method that the base class lacks is replaced by its wrapper,
  which is made for coroutine functions only. The members of a controller come by name, as
  \<open>getmembers\<close> lists them.
\<close>

record controller_member =
  cm_name :: string
  cm_callable :: bool
  cm_isclass :: bool
  cm_coroutine :: bool

definition is_endpoint :: "string list \<Rightarrow> controller_member \<Rightarrow> bool" where
  "is_endpoint base_attributes m =
     (cm_callable m \<and> \<not> cm_isclass m \<and> cm_name m \<notin> set base_attributes \<and> \<not> startswith (cm_name m) ''_'')"

fun wrap_methods :: "string list \<Rightarrow> controller_member list \<Rightarrow> exn + string list" where
  "wrap_methods base_attributes [] = Inr []"
| "wrap_methods base_attributes (m # ms) =
     (if \<not> is_endpoint base_attributes m then wrap_methods base_attributes ms
      else if \<not> cm_coroutine m
      then Inl (TypeError (''Controller endpoint '' @ [CHR 0x27] @ cm_name m @ [CHR 0x27]
                           @ '' must be async def.''))
      else (case wrap_methods base_attributes ms of
              Inl e \<Rightarrow> Inl e
            | Inr names \<Rightarrow> Inr (cm_name m # names)))"

definition base_handle_exception :: "exn \<Rightarrow> ('w, exn, 'a) prog" where
  "base_handle_exception exception = raise exception"

definition http_error :: "int \<Rightarrow> string \<Rightarrow> exn" where
  "http_error status detail =
     HTTPException \<lparr>he_status_code = status, he_detail = detail, he_headers = None\<rparr>"

section \<open>Token endpoints\<close>

definition issue_token_handle_exception :: "exn \<Rightarrow> ('w, exn, 'a) prog" where
  "issue_token_handle_exception exception =
     (if isinstance exception InvalidCredentialsError_class
      then raise (http_error 401 ''Invalid username or password'')
      else base_handle_exception exception)"

definition issue_token_endpoint ::
    "'w runtime \<Rightarrow> token_settings \<Rightarrow> 'w unit_of_work \<Rightarrow> request_info_service_settings \<Rightarrow>
     http_request \<Rightarrow> issue_token_dto \<Rightarrow> ('w, exn, token_dto) prog" where
  "issue_token_endpoint rt settings uow request_info request body =
     add_exception_handler issue_token_handle_exception
       (issue_token rt settings uow
         \<lparr>it_username = it_username body, it_password = it_password body\<rparr>
         \<lparr>tc_user_agent = get_user_agent request_info request,
          tc_ip_address_trace = get_user_ip_trace request_info request\<rparr>)"

definition refresh_token_handle_exception :: "exn \<Rightarrow> ('w, exn, 'a) prog" where
  "refresh_token_handle_exception exception =
     (if isinstance exception InvalidRefreshTokenError_class
      then raise (http_error 401 ''Invalid refresh token'')
      else if isinstance exception ExpiredRefreshTokenError_class
      then raise (http_error 401 ''Refresh token expired or revoked'')
      else if isinstance exception RefreshTokenError_class
      then raise (http_error 401 ''Refresh token error'')
      else base_handle_exception exception)"

definition refresh_token_endpoint ::
    "'w runtime \<Rightarrow> token_settings \<Rightarrow> 'w unit_of_work \<Rightarrow> refresh_token_dto \<Rightarrow>
     ('w, exn, token_dto) prog" where
  "refresh_token_endpoint rt settings uow body =
     add_exception_handler refresh_token_handle_exception
       (refresh_token rt settings uow \<lparr>rt_refresh_token = rt_refresh_token body\<rparr>)"

definition revoke_token_handle_exception :: "exn \<Rightarrow> ('w, exn, 'a) prog" where
  "revoke_token_handle_exception exception =
     (if isinstance exception InvalidRefreshTokenError_class
      then raise (http_error 401 ''Invalid refresh token'')
      else if isinstance exception ExpiredRefreshTokenError_class
      then raise (http_error 401 ''Refresh token expired or revoked'')
      else if isinstance exception RefreshTokenError_class
      then raise (http_error 401 ''Refresh token error'')
      else if isinstance exception AuthenticatedUserNotFoundError_class
      then raise (bearer_authentication_error ''User not found'')
      else base_handle_exception exception)"

definition revoke_token_endpoint ::
    "'w runtime \<Rightarrow> 'w unit_of_work \<Rightarrow> authenticated_request_state \<Rightarrow> refresh_token_dto \<Rightarrow>
     ('w, exn, unit) prog" where
  "revoke_token_endpoint rt uow state body =
     add_exception_handler revoke_token_handle_exception
       (revoke_token rt uow \<lparr>rt_refresh_token = rt_refresh_token body\<rparr> (ars_user_id state))"

section \<open>User endpoints\<close>

text \<open>\<open>UserSchema\<close>: the fields of a user that leave the service.\<close>

record user_schema =
  us_id :: int
  us_username :: string
  us_email :: string
  us_first_name :: string
  us_last_name :: string
  us_is_staff :: bool
  us_is_superuser :: bool

definition user_schema_of :: "user \<Rightarrow> user_schema" where
  "user_schema_of usr =
     \<lparr>us_id = u_id usr, us_username = u_username usr, us_email = u_email usr,
      us_first_name = u_first_name usr, us_last_name = u_last_name usr,
      us_is_staff = u_is_staff usr, us_is_superuser = u_is_superuser usr\<rparr>"

definition create_user_handle_exception :: "exn \<Rightarrow> ('w, exn, 'a) prog" where
  "create_user_handle_exception exception =
     (if isinstance exception WeakPasswordError_class
      then raise (http_error 400 ''Password does not meet the strength requirements'')
      else if isinstance exception UserAlreadyExistsError_class
      then raise (http_error 409 ''A user with the given username or email already exists'')
      else base_handle_exception exception)"

definition create_user_endpoint ::
    "'w runtime \<Rightarrow> password_service_settings \<Rightarrow> 'w unit_of_work \<Rightarrow> register_user_dto \<Rightarrow>
     ('w, exn, user_schema) prog" where
  "create_user_endpoint rt settings uow request_body =
     add_exception_handler create_user_handle_exception
       (bind_p (of_result (make_register_user_dto rt (ru_email request_body) (ru_username request_body)
           (ru_first_name request_body) (ru_last_name request_body) (ru_password request_body)))
         (\<lambda>data.
        bind_p (register_user rt settings uow data) (\<lambda>usr.
        ret (user_schema_of usr))))"

definition current_user_endpoint ::
    "'w unit_of_work \<Rightarrow> authenticated_request_state \<Rightarrow> ('w, exn, user_schema) prog" where
  "current_user_endpoint uow state =
     add_exception_handler base_handle_exception
       (bind_p (get_active_user_by_id uow (ars_user_id state)) (\<lambda>found.
        case found of
          None \<Rightarrow> raise (bearer_authentication_error ''User not found'')
        | Some usr \<Rightarrow> ret (user_schema_of usr)))"

definition staff_user_lookup_handle_exception :: "exn \<Rightarrow> ('w, exn, 'a) prog" where
  "staff_user_lookup_handle_exception exception =
     (if isinstance exception AuthenticatedUserNotFoundError_class
      then raise (bearer_authentication_error ''User not found'')
      else if isinstance exception UserPermissionDeniedError_class
      then raise (http_error 403 ''Permission denied'')
      else base_handle_exception exception)"

definition staff_user_lookup_endpoint ::
    "'w unit_of_work \<Rightarrow> authenticated_request_state \<Rightarrow> int \<Rightarrow> ('w, exn, user_schema) prog" where
  "staff_user_lookup_endpoint uow state user_id =
     add_exception_handler staff_user_lookup_handle_exception
       (bind_p (staff_user_lookup uow user_id (ars_user_id state)) (\<lambda>found.
        case found of
          None \<Rightarrow> raise (http_error 404 ''User not found'')
        | Some usr \<Rightarrow> ret (user_schema_of usr)))"

section \<open>Routes with dependencies\<close>

text \<open>
  The dependencies of a route run before its endpoint, in their order. The state they
  leave on the request is handed to the endpoint; reading it when no credentials were
  required and given is an \<open>AttributeError\<close>.
\<close>

definition with_authentication ::
    "'w runtime \<Rightarrow> jwt_service_settings \<Rightarrow> string option \<Rightarrow>
     (authenticated_request_state \<Rightarrow> ('w, exn, 'a) prog) \<Rightarrow> ('w, exn, 'a) prog" where
  "with_authentication rt settings credentials rest =
     bind_p (jwt_auth_factory rt settings credentials) (\<lambda>state.
     case state of
       None \<Rightarrow> raise (AttributeError ''user_id'')
     | Some st \<Rightarrow> rest st)"

definition revoke_token_route ::
    "'w runtime \<Rightarrow> jwt_service_settings \<Rightarrow> 'w unit_of_work \<Rightarrow> 'w limiter \<Rightarrow> string option \<Rightarrow>
     http_request \<Rightarrow> refresh_token_dto \<Rightarrow> ('w, exn, unit) prog" where
  "revoke_token_route rt settings uow limit credentials request body =
     with_authentication rt settings credentials (\<lambda>state.
     bind_p (user_throttler limit 1 (ars_user_id state) request) (\<lambda>passed.
     revoke_token_endpoint rt uow state body))"

definition current_user_route ::
    "'w runtime \<Rightarrow> jwt_service_settings \<Rightarrow> 'w unit_of_work \<Rightarrow> string option \<Rightarrow>
     ('w, exn, user_schema) prog" where
  "current_user_route rt settings uow credentials =
     with_authentication rt settings credentials (\<lambda>state. current_user_endpoint uow state)"

definition staff_user_lookup_route ::
    "'w runtime \<Rightarrow> jwt_service_settings \<Rightarrow> 'w unit_of_work \<Rightarrow> string option \<Rightarrow> int \<Rightarrow>
     ('w, exn, user_schema) prog" where
  "staff_user_lookup_route rt settings uow credentials user_id =
     with_authentication rt settings credentials (\<lambda>state.
     staff_user_lookup_endpoint uow state user_id)"

section \<open>Health\<close>

text \<open>\<open>async with session_factory() as session\<close>: the session is closed in any case.\<close>

definition check_database :: "('db world, exn, unit) prog" where
  "check_database =
     bind_p open_session (\<lambda>session w.
       case stmt e_ping w of
         (Inr x, w1) \<Rightarrow> stmt e_close w1
       | (Inl e, w1) \<Rightarrow> bind_p (stmt e_close) (\<lambda>closed. raise e) w1)"

definition system_health :: "('w, exn, unit) prog \<Rightarrow> ('w, exn, unit) prog" where
  "system_health check =
     try_except check (\<lambda>e.
       if isinstance e Exception_class then raise HealthCheckError else raise e)"

definition health_check_endpoint :: "('w, exn, unit) prog \<Rightarrow> ('w, exn, string) prog" where
  "health_check_endpoint check =
     add_exception_handler base_handle_exception
       (bind_p
         (try_except (system_health check) (\<lambda>exception.
            if isinstance exception HealthCheckError_class
            then raise (http_error 503 ''Service is unavailable'') else raise exception))
         (\<lambda>healthy. ret ''ok''))"

datatype ws_event = WsAccept | WsSendStatus string | WsClose int

definition health_check_websocket_endpoint ::
    "(ws_event \<Rightarrow> ('w, exn, unit) prog) \<Rightarrow> ('w, exn, unit) prog \<Rightarrow> ('w, exn, unit) prog" where
  "health_check_websocket_endpoint websocket check =
     add_exception_handler base_handle_exception
       (bind_p (websocket WsAccept) (\<lambda>accepted.
        bind_p
          (try_except (bind_p (system_health check) (\<lambda>healthy. ret True)) (\<lambda>exception.
             if isinstance exception HealthCheckError_class then ret False else raise exception))
          (\<lambda>healthy.
        if \<not> healthy
        then bind_p (websocket (WsSendStatus ''unavailable'')) (\<lambda>sent. websocket (WsClose 1011))
        else bind_p (websocket (WsSendStatus ''ok'')) (\<lambda>sent. websocket (WsClose 1000)))))"

section \<open>Lemmas\<close>

text \<open>A controller that can be created has each of its endpoints wrapped and nothing else, and its
  endpoints are coroutine functions.\<close>

lemma wrap_methods_ok:
  "wrap_methods base_attributes ms = Inr names \<longleftrightarrow>
     names = map cm_name (filter (is_endpoint base_attributes) ms)
     \<and> list_all (\<lambda>m. is_endpoint base_attributes m \<longrightarrow> cm_coroutine m) ms"
  by (induction ms arbitrary: names) (force split: sum.splits)+

lemma add_exception_handler_run:
  assumes "\<And>e. handle e = raise (translate e)"
  shows "add_exception_handler handle m w =
     (case m w of
        (Inr x, w') \<Rightarrow> (Inr x, w')
      | (Inl e, w') \<Rightarrow> (Inl (if e = Cancelled then Cancelled else translate e), w'))"
  by (auto simp: add_exception_handler_def try_except_def raise_def exception_iff_not_cancelled assms
      simp del: isinstance_simps split: prod.splits sum.splits)

text \<open>What each controller makes of an exception: every handler raises in every case.\<close>

lemma issue_token_translation:
  "issue_token_handle_exception e =
     raise (if e = InvalidCredentialsError then http_error 401 ''Invalid username or password'' else e)"
  by (cases e) (simp_all add: issue_token_handle_exception_def base_handle_exception_def)

lemma refresh_token_translation:
  "refresh_token_handle_exception e =
     raise (if e = InvalidRefreshTokenError then http_error 401 ''Invalid refresh token''
            else if e = ExpiredRefreshTokenError
            then http_error 401 ''Refresh token expired or revoked'' else e)"
  by (cases e) (simp_all add: refresh_token_handle_exception_def base_handle_exception_def)

lemma revoke_token_translation:
  "revoke_token_handle_exception e =
     raise (if e = InvalidRefreshTokenError then http_error 401 ''Invalid refresh token''
            else if e = ExpiredRefreshTokenError
            then http_error 401 ''Refresh token expired or revoked''
            else if e = AuthenticatedUserNotFoundError
            then bearer_authentication_error ''User not found'' else e)"
  by (cases e) (simp_all add: revoke_token_handle_exception_def base_handle_exception_def)

lemma create_user_translation:
  "create_user_handle_exception e =
     raise (if e = WeakPasswordError
            then http_error 400 ''Password does not meet the strength requirements''
            else if e = UserAlreadyExistsError
            then http_error 409 ''A user with the given username or email already exists'' else e)"
  by (cases e) (simp_all add: create_user_handle_exception_def base_handle_exception_def)

lemma staff_user_lookup_translation:
  "staff_user_lookup_handle_exception e =
     raise (if e = AuthenticatedUserNotFoundError then bearer_authentication_error ''User not found''
            else if e = UserPermissionDeniedError then http_error 403 ''Permission denied'' else e)"
  by (cases e) (simp_all add: staff_user_lookup_handle_exception_def base_handle_exception_def)

lemma base_translation: "base_handle_exception e = raise e"
  by (simp add: base_handle_exception_def)

lemmas handler_runs =
  add_exception_handler_run [OF issue_token_translation]
  add_exception_handler_run [OF refresh_token_translation]
  add_exception_handler_run [OF revoke_token_translation]
  add_exception_handler_run [OF create_user_translation]
  add_exception_handler_run [OF staff_user_lookup_translation]
  add_exception_handler_run [OF base_translation]

text \<open>A storage failure keeps its exception in every controller.\<close>

lemma storage_error_not_domain:
  "storage_error e \<Longrightarrow> e \<notin> {InvalidCredentialsError, InvalidRefreshTokenError,
     ExpiredRefreshTokenError, AuthenticatedUserNotFoundError, WeakPasswordError,
     UserAlreadyExistsError, UserPermissionDeniedError}"
  by (cases e) auto

lemma http_error_not_storage [simp]:
  "\<not> storage_error (http_error status detail)"
  "\<not> storage_error (bearer_authentication_error detail)"
  by (simp_all add: http_error_def bearer_authentication_error_def)

text \<open>The bearer dependency leaves the database alone and lets through verified tokens only.\<close>

definition subject_of_token :: "lib \<Rightarrow> jwt_service_settings \<Rightarrow> string \<Rightarrow> int \<Rightarrow> bool" where
  "subject_of_token L settings token user_id =
     (\<exists>now \<in> readings_of L. \<exists>payload.
        lib_jwt_decode L now token (jss_secret_key settings) [jss_algorithm settings] required_claims
          = Inr payload \<and>
        map_of payload ''typ'' = Some (ClaimStr (jss_typ settings)) \<and>
        get_subject_user_id payload = Inr user_id)"

lemma decode_token_run:
  "decode_token (world_runtime L) settings token w =
     (let now = lib_clock L (w_draws w) in
      (case lib_jwt_decode L now token (jss_secret_key settings) [jss_algorithm settings] required_claims of
         Inl e \<Rightarrow> Inl e
       | Inr payload \<Rightarrow>
           if map_of payload ''typ'' \<noteq> Some (ClaimStr (jss_typ settings))
           then Inl JWTInvalidTokenError else Inr payload,
       w\<lparr>w_draws := Suc (w_draws w)\<rparr>))"
proof -
  have now: "rt_now (world_runtime L) w =
      (Inr (dt_utc (lib_clock L (w_draws w))), w\<lparr>w_draws := Suc (w_draws w)\<rparr>)"
    by (simp add: world_runtime_def draw_def)
  show ?thesis
    by (auto simp: decode_token_def bind_p_def now of_result_def raise_def ret_def Let_def
        split: sum.splits)
qed

lemma jwt_auth_factory_run:
  "jwt_auth_factory (world_runtime L) settings credentials w =
     (case credentials of
        None \<Rightarrow> (Inl (bearer_authentication_error ''Not authenticated''), w)
      | Some token \<Rightarrow>
          (case decode_token (world_runtime L) settings token w of
             (Inl e, w') \<Rightarrow>
               (Inl (if e = JWTExpiredSignatureError then bearer_authentication_error ''Token has expired''
                     else if e = JWTInvalidTokenError then bearer_authentication_error ''Invalid token''
                     else e), w')
           | (Inr payload, w') \<Rightarrow>
               (case get_subject_user_id payload of
                  Inl e \<Rightarrow> (Inl e, w')
                | Inr i \<Rightarrow> (Inr (Some \<lparr>ars_jwt_payload = payload, ars_user_id = i\<rparr>), w'))))"
proof -
  have tr: "(if isinstance e ExpiredSignatureError_class
        then raise (bearer_authentication_error ''Token has expired'')
        else if isinstance e InvalidTokenError_class
        then raise (bearer_authentication_error ''Invalid token'')
        else raise e) w1
      = (Inl (if e = JWTExpiredSignatureError then bearer_authentication_error ''Token has expired''
              else if e = JWTInvalidTokenError then bearer_authentication_error ''Invalid token''
              else e), w1)" for e w1
    by (cases e) (simp_all add: raise_def)
  show ?thesis
    by (auto simp: jwt_auth_factory_def jwt_auth_def get_token_payload_def bind_p_def try_except_def tr
        of_result_def ret_def raise_def simp del: isinstance_simps
        split: option.splits prod.splits sum.splits)
qed

lemma with_authentication_run:
  assumes "with_authentication (world_runtime L) settings credentials rest w = (r, w')"
  obtains (passed) token payload i where "credentials = Some token"
      "subject_of_token L settings token i"
      "rest \<lparr>ars_jwt_payload = payload, ars_user_id = i\<rparr> (w\<lparr>w_draws := Suc (w_draws w)\<rparr>) = (r, w')"
    | (refused) e where "r = Inl e" "w_db w' = w_db w" "w_engine w' = w_engine w"
        "w_scope w' = w_scope w"
        "\<forall>token i. credentials = Some token \<longrightarrow>
           \<not> (lib_jwt_decode L (lib_clock L (w_draws w)) token (jss_secret_key settings)
                [jss_algorithm settings] required_claims = Inr i \<and>
              map_of i ''typ'' = Some (ClaimStr (jss_typ settings)) \<and>
              (\<exists>k. get_subject_user_id i = Inr k))"
proof (cases credentials)
  case None
  with assms show thesis
    by (intro refused) (auto simp: with_authentication_def bind_p_def jwt_auth_factory_run)
next
  case (Some token)
  let ?now = "lib_clock L (w_draws w)"
  let ?dec = "lib_jwt_decode L ?now token (jss_secret_key settings) [jss_algorithm settings] required_claims"
  show thesis
  proof (cases "\<exists>payload i. ?dec = Inr payload \<and>
      map_of payload ''typ'' = Some (ClaimStr (jss_typ settings)) \<and> get_subject_user_id payload = Inr i")
    case True
    then obtain payload i where p: "?dec = Inr payload"
      "map_of payload ''typ'' = Some (ClaimStr (jss_typ settings))" "get_subject_user_id payload = Inr i"
      by blast
    then have "subject_of_token L settings token i"
      by (auto simp: subject_of_token_def readings_of_def)
    with Some p assms show thesis
      by (intro passed [of token i payload])
        (auto simp: with_authentication_def bind_p_def jwt_auth_factory_run decode_token_run Let_def)
  next
    case False
    with Some assms have "(\<exists>e. r = Inl e) \<and> w' = w\<lparr>w_draws := Suc (w_draws w)\<rparr>"
      by (auto simp: with_authentication_def bind_p_def jwt_auth_factory_run decode_token_run Let_def
          split: sum.splits if_splits)
    then obtain e where "r = Inl e" "w' = w\<lparr>w_draws := Suc (w_draws w)\<rparr>" by blast
    with False Some show thesis by (intro refused [of e]) auto
  qed
qed

end
