(* ===== verification/Memory_Engine.thy ===== *)
theory Memory_Engine
  imports Unit_Of_Work Py_Int
begin

text \<open>
  A concrete instance of the database parameter: the committed rows and the rows of the
  open transaction as lists. It keeps every law of \<open>engine_ok\<close>, so the hypotheses of the
  theorems about the adapters can hold, and it is executable, so they can be run on
  concrete requests. Like SQLite it hands datetimes back without an offset.
\<close>

record memory =
  mem_committed :: tables
  mem_view :: tables

definition naive :: "int \<Rightarrow> datetime" where
  "naive t = \<lparr>dt_wall = t, dt_tz = None\<rparr>"

definition model_of_row :: "session_row \<Rightarrow> refresh_session_model" where
  "model_of_row r =
     \<lparr>rsm_id = sr_id r, rsm_refresh_token_hash = sr_refresh_token_hash r,
      rsm_user_id = sr_user_id r, rsm_user_agent = sr_user_agent r,
      rsm_ip_address_trace = sr_ip_address_trace r,
      rsm_created_at = naive (sr_created_at r),
      rsm_last_used_at = map_option naive (sr_last_used_at r),
      rsm_expires_at = naive (sr_expires_at r),
      rsm_revoked_at = map_option naive (sr_revoked_at r),
      rsm_rotation_counter = sr_rotation_counter r\<rparr>"

definition next_user_id :: "user_model list \<Rightarrow> int" where
  "next_user_id us = 1 + foldr (\<lambda>u m. max (um_id u) m) us 0"

definition user_row :: "int \<Rightarrow> user_values \<Rightarrow> user_model" where
  "user_row i v =
     \<lparr>um_id = i, um_username = uv_username v, um_email = uv_email v,
      um_first_name = uv_first_name v, um_last_name = uv_last_name v,
      um_password_hash = uv_password_hash v, um_is_active = uv_is_active v,
      um_is_staff = uv_is_staff v, um_is_superuser = uv_is_superuser v\<rparr>"

text \<open>A change that would break a constraint is refused with an \<open>IntegrityError\<close>.\<close>

definition change :: "'a \<Rightarrow> tables \<Rightarrow> string \<Rightarrow> memory \<Rightarrow> (exn + 'a) \<times> memory" where
  "change x t message d =
     (if schema_ok t then (Inr x, d\<lparr>mem_view := t\<rparr>)
      else (Inl (IntegrityError \<lparr>de_diag = None, de_str = message\<rparr>), d))"

definition unique_users :: string where
  "unique_users = ''UNIQUE constraint failed: users.username''"

definition unique_sessions :: string where
  "unique_sessions = ''UNIQUE constraint failed: refresh_sessions.refresh_token_hash''"

definition memory_engine :: "memory engine" where
  "memory_engine =
     \<lparr>e_view = mem_view,
      e_committed = mem_committed,
      e_begin = (\<lambda>d. (Inr (), d\<lparr>mem_view := mem_committed d\<rparr>)),
      e_commit = (\<lambda>d. (Inr (), d\<lparr>mem_committed := mem_view d\<rparr>)),
      e_rollback = (\<lambda>d. (Inr (), d\<lparr>mem_view := mem_committed d\<rparr>)),
      e_close = (\<lambda>d. (Inr (), d)),
      e_ping = (\<lambda>d. (Inr (), d)),
      e_select_users = (\<lambda>p d. (Inr (filter p (t_users (mem_view d))), d)),
      e_select_sessions = (\<lambda>p d. (Inr (map (\<lambda>r. (model_of_row r, related_user (mem_view d) r))
        (filter p (t_sessions (mem_view d)))), d)),
      e_insert_user = (\<lambda>v d.
        let m = user_row (next_user_id (t_users (mem_view d))) v
        in change m ((mem_view d)\<lparr>t_users := t_users (mem_view d) @ [m]\<rparr>) unique_users d),
      e_update_users = (\<lambda>p f d.
        change (length (filter p (t_users (mem_view d))))
          ((mem_view d)\<lparr>t_users := map (\<lambda>r. if p r then f r else r) (t_users (mem_view d))\<rparr>)
          unique_users d),
      e_insert_session = (\<lambda>m d.
        change () ((mem_view d)\<lparr>t_sessions := t_sessions (mem_view d) @ [row_of m]\<rparr>)
          unique_sessions d),
      e_update_sessions = (\<lambda>p f d.
        change (length (filter p (t_sessions (mem_view d))))
          ((mem_view d)\<lparr>t_sessions := map (\<lambda>r. if p r then f r else r) (t_sessions (mem_view d))\<rparr>)
          unique_sessions d)\<rparr>"

lemma row_of_model_of_row [simp]: "row_of (model_of_row r) = r"
  by (cases r) (simp add: row_of_def model_of_row_def naive_def dt_instant_def option.map_comp o_def
      option.map_ident)

lemma memory_engine_ok: "engine_ok memory_engine"
  unfolding engine_ok_def
proof (intro conjI allI)
  show "transaction_ok memory_engine"
    by (simp add: transaction_ok_def memory_engine_def)
  show "ping_ok memory_engine"
    by (simp add: ping_ok_def memory_engine_def)
  show "stmt_ok memory_engine (select_sessions_law p) (e_select_sessions memory_engine p)" for p
    by (simp add: stmt_ok_def memory_engine_def select_sessions_law_def o_def)
qed (auto simp: stmt_ok_def memory_engine_def select_users_law_def insert_user_law_def
    update_users_law_def insert_session_law_def update_sessions_law_def change_def Let_def
    values_of_def user_row_def)

section \<open>Concrete requests\<close>

text \<open>A library with visible hashes: every draw is told apart by its number.\<close>

definition sample_lib :: lib where
  "sample_lib =
     \<lparr>lib_clock = (\<lambda>k. 1000 + int k),
      lib_token = (\<lambda>k n. ''token-'' @ str_of_nat k),
      lib_uuid7 = (\<lambda>k. int k),
      lib_password_hash = (\<lambda>k p. ''hash:'' @ p),
      lib_password_verify = (\<lambda>p h. Inr (h = ''hash:'' @ p)),
      lib_sha256_hexdigest = (\<lambda>s. ''sha:'' @ s),
      lib_nfkc = (\<lambda>s. s),
      lib_casefold = str_lower,
      lib_validate_email = (\<lambda>s. if CHR ''@'' \<in> set s then Some s else None),
      lib_jwt_encode = (\<lambda>c key alg. Inr (case map_of c ''sub'' of Some (ClaimStr s) \<Rightarrow> s | _ \<Rightarrow> '''')),
      lib_jwt_decode = (\<lambda>now token key algs required.
        Inr [(''sub'', ClaimStr token), (''exp'', ClaimInt 0), (''typ'', ClaimStr ''at+jwt'')])\<rparr>"

definition alice :: user_model where
  "alice = \<lparr>um_id = 1, um_username = ''alice'', um_email = ''a@x.org'', um_first_name = ''A'',
     um_last_name = ''L'', um_password_hash = ''hash:correct horse'', um_is_active = True,
     um_is_staff = False, um_is_superuser = False\<rparr>"

definition session_1 :: session_row where
  "session_1 = \<lparr>sr_id = 7, sr_refresh_token_hash = ''sha:old'', sr_user_id = 1,
     sr_user_agent = ''curl'', sr_ip_address_trace = '''', sr_created_at = 10,
     sr_last_used_at = None, sr_expires_at = 5000, sr_revoked_at = None, sr_rotation_counter = 0\<rparr>"

definition sample_tables :: tables where
  "sample_tables = \<lparr>t_users = [alice], t_sessions = [session_1]\<rparr>"

definition world_of :: "tables \<Rightarrow> memory world" where
  "world_of t =
     \<lparr>w_engine = memory_engine, w_db = \<lparr>mem_committed = t, mem_view = t\<rparr>, w_scope = None,
      w_factory = \<lparr>sf_engine = None, sf_session_factory = None, sf_engines_created = 0,
        sf_disposed = []\<rparr>,
      w_draws = 0\<rparr>"

lemma sample_schema: "schema_ok sample_tables"
  by (simp add: schema_ok_def users_schema_def refresh_sessions_schema_def sample_tables_def
      alice_def session_1_def)

lemma world_of_idle: "schema_ok t \<Longrightarrow> v_idle sql_view (world_of t)"
  by (simp add: sql_idle_iff world_of_def committed_of_def memory_engine_def
      memory_engine_ok [unfolded memory_engine_def])

lemma committed_world_of [simp]: "committed_of (world_of t) = t"
  by (simp add: world_of_def committed_of_def memory_engine_def)

end
