(* ===== verification/Token_Properties.thy ===== *)
theory Token_Properties
  imports Use_Cases Memory_Engine
begin

text \<open>
  The properties of the token use cases over the SQLAlchemy adapters: what issuing,
  refreshing and revoking commit, which exceptions they raise and why, and that a refresh
  token is good for one rotation and for none once it is revoked. Each follows from the
  lemmas of the use cases through the interpretation \<open>app\<close>.
\<close>

section \<open>The tables after a rotation or a revocation\<close>

text \<open>A row by its token once the row of that token was changed.\<close>

lemma session_of_token_update:
  assumes "schema_ok t" and "session_of_token hash t token = Some r"
  shows "session_of_token hash (update_session_row (sr_id r) f t) token =
     (if sr_refresh_token_hash (f r) = hash token then Some (f r) else None)"
proof -
  let ?p = "\<lambda>r. sr_refresh_token_hash r = hash token"
  from find_SomeD [OF assms(2) [unfolded session_of_token_def]]
  have r: "r \<in> set (t_sessions t)" "?p r" by auto
  let ?u = "update_session_row (sr_id r) f t"
  have other: "x = f r" if "x \<in> set (t_sessions ?u)" "?p x" for x
    using that(1)
  proof (cases rule: update_session_row_cases)
    case old
    with session_by_hash_unique [OF assms(1) old(1) r(1)] r(2) that(2) have "x = r" by simp
    with old show ?thesis by simp
  next
    case (new y)
    with session_by_id_unique [OF assms(1) new(1) r(1)] show ?thesis by simp
  qed
  have mem: "f r \<in> set (t_sessions ?u)"
    by (rule update_session_row_in) (use r in auto)
  show ?thesis
  proof (cases "find ?p (t_sessions ?u)")
    case None
    with find_NoneD [OF None mem] show ?thesis by (simp add: session_of_token_def)
  next
    case (Some x)
    with find_SomeD [OF Some] other show ?thesis by (auto simp: session_of_token_def)
  qed
qed

lemma rotated_away:
  assumes "schema_ok t" and "session_of_token hash t token = Some r"
    and "rotates hash readings tokens r t y t'" and "hash (rsr_refresh_token y) \<noteq> hash token"
  shows "session_of_token hash t' token = None"
  using assms(3,4) session_of_token_update [OF assms(1,2)]
  by (auto simp: rotates_def next_row_def)

lemma revoked_row_spent [simp]:
  "spent_at readings (revoked_row at r)" "\<not> usable_at readings (revoked_row at r)"
  by (simp_all add: spent_at_def usable_at_def revoked_row_def)

lemma idle_schema: "v_idle sql_view w \<Longrightarrow> schema_ok (committed_of w)"
  by (simp add: sql_idle_iff)

section \<open>A concrete deployment\<close>

definition sample_settings :: token_settings where
  "sample_settings =
     \<lparr>ts_sessions = \<lparr>rss_refresh_token_nbytes = 32, rss_refresh_token_ttl_days = 30\<rparr>,
      ts_jwt = \<lparr>jss_secret_key = ''key'', jss_algorithm = ''HS256'', jss_typ = ''at+jwt'',
        jss_access_token_expire_minutes = 15\<rparr>\<rparr>"

definition sample_refresh :: "string \<Rightarrow> tables \<Rightarrow> (exn + token_dto) \<times> memory world" where
  "sample_refresh token t =
     refresh_token (world_runtime sample_lib) sample_settings sqlalchemy_unit_of_work
       \<lparr>rt_refresh_token = token\<rparr> (world_of t)"

definition sample_revoke :: "string \<Rightarrow> int \<Rightarrow> tables \<Rightarrow> (exn + unit) \<times> memory world" where
  "sample_revoke token i t =
     revoke_token (world_runtime sample_lib) sqlalchemy_unit_of_work
       \<lparr>rt_refresh_token = token\<rparr> i (world_of t)"

definition sample_issue :: "string \<Rightarrow> string \<Rightarrow> tables \<Rightarrow> (exn + token_dto) \<times> memory world" where
  "sample_issue username password t =
     issue_token (world_runtime sample_lib) sample_settings sqlalchemy_unit_of_work
       \<lparr>it_username = username, it_password = password\<rparr>
       \<lparr>tc_user_agent = ''curl'', tc_ip_address_trace = None\<rparr> (world_of t)"

lemma sample_refresh_run: "fst (sample_refresh ''old'' sample_tables) =
    Inr \<lparr>tk_access_token = ''1'', tk_refresh_token = ''token-1''\<rparr>"
  by code_simp

lemma sample_idle: "v_idle sql_view (world_of sample_tables)"
  by (rule world_of_idle) (rule sample_schema)

section \<open>Refreshing\<close>

text \<open>
  C6. A refresh that returns a token pair has rotated the session of the submitted token and
  nothing else: the session was neither revoked nor expired, its user exists and is
  active, its row now holds the hash of the new refresh token, the next rotation count
  and the time of use, every other row is as before, and the access token is signed for
  the session's user. The unit of work is closed again.
\<close>

theorem refresh_token_rotates:
  assumes "v_idle sql_view w"
    and "refresh_token (world_runtime L) settings sqlalchemy_unit_of_work data w = (Inr x, w')"
  shows "v_idle sql_view w' \<and>
    (\<exists>r y. session_of_token (lib_sha256_hexdigest L) (committed_of w) (rt_refresh_token data) = Some r \<and>
       usable_at (readings_of L) r \<and>
       rotates (lib_sha256_hexdigest L) (readings_of L) (tokens_of L) r (committed_of w) y
         (committed_of w') \<and>
       tk_refresh_token x = rsr_refresh_token y \<and>
       active_user_in (committed_of w) (sr_user_id r) = Some (rs_user (rsr_session y)) \<and>
       access_token_for (lib_jwt_encode L) (readings_of L) (ts_jwt settings) (sr_user_id r)
         (tk_access_token x))"
  using transacts_ok [OF app.refresh_token_transacts assms] by simp

theorem refresh_token_rotates_witness:
  "map sr_refresh_token_hash (t_sessions (committed_of (snd (sample_refresh ''old'' sample_tables))))
     = [''sha:token-1''] \<and>
   v_idle sql_view (snd (sample_refresh ''old'' sample_tables))"
proof
  show "map sr_refresh_token_hash (t_sessions (committed_of (snd (sample_refresh ''old'' sample_tables))))
     = [''sha:token-1'']" by code_simp
  have "refresh_token (world_runtime sample_lib) sample_settings sqlalchemy_unit_of_work
      \<lparr>rt_refresh_token = ''old''\<rparr> (world_of sample_tables)
    = (Inr \<lparr>tk_access_token = ''1'', tk_refresh_token = ''token-1''\<rparr>,
       snd (sample_refresh ''old'' sample_tables))"
    using sample_refresh_run by (simp add: sample_refresh_def prod_eq_iff)
  from refresh_token_rotates [OF sample_idle this]
  show "v_idle sql_view (snd (sample_refresh ''old'' sample_tables))" by simp
qed

section \<open>A rotated token is spent\<close>

lemma refresh_rejects_unknown:
  assumes "v_idle sql_view w"
    and "session_of_token (lib_sha256_hexdigest L) (committed_of w) (rt_refresh_token data) = None"
    and "refresh_token (world_runtime L) settings sqlalchemy_unit_of_work data w = (r, w')"
  obtains e where "r = Inl e"
    and "storage_error e \<or> signing_error (lib_jwt_encode L) (ts_jwt settings) e \<or>
      e = InvalidRefreshTokenError"
    and "\<not> storage_error e \<Longrightarrow> committed_of w' = committed_of w"
proof (cases r)
  case (Inl e)
  show thesis
  proof (cases "storage_error e")
    case True
    with Inl that show thesis by blast
  next
    case False
    from transacts_err [OF app.refresh_token_transacts assms(1) assms(3) [unfolded Inl] False] assms(2) False
    show thesis by (intro that [OF Inl]) (auto simp: token_rejected_def)
  qed
next
  case (Inr x)
  from transacts_ok [OF app.refresh_token_transacts assms(1) assms(3) [unfolded Inr]] assms(2)
  show thesis by simp
qed

text \<open>
  A refresh token is good for one rotation: once a refresh with it has returned, every
  later refresh with the same token, from any process that sees the committed rows and
  under any settings, raises and commits nothing, and the error is
  \<open>InvalidRefreshTokenError\<close> unless the database or the signing library fails first. The
  hypothesis on the hashes says that the new token does not collide with the old one.
\<close>

theorem rotated_token_is_single_use:
  assumes "v_idle sql_view w"
    and "refresh_token (world_runtime L) settings sqlalchemy_unit_of_work data w = (Inr x, w1)"
    and "lib_sha256_hexdigest L (tk_refresh_token x) \<noteq> lib_sha256_hexdigest L (rt_refresh_token data)"
    and "v_idle sql_view w2" and "committed_of w2 = committed_of w1"
    and "refresh_token (world_runtime L) settings' sqlalchemy_unit_of_work data w2 = (r, w3)"
  shows "\<exists>e. r = Inl e \<and>
    (storage_error e \<or>
     (e = InvalidRefreshTokenError \<or> signing_error (lib_jwt_encode L) (ts_jwt settings') e) \<and>
     committed_of w3 = committed_of w2)"
proof -
  from transacts_ok [OF app.refresh_token_transacts assms(1,2)] obtain s y where
    "session_of_token (lib_sha256_hexdigest L) (committed_of w) (rt_refresh_token data) = Some s"
    and "rotates (lib_sha256_hexdigest L) (readings_of L) (tokens_of L) s (committed_of w) y
      (committed_of w1)"
    and "tk_refresh_token x = rsr_refresh_token y" by auto
  with rotated_away [OF idle_schema [OF assms(1)]] assms(3,5)
  have "session_of_token (lib_sha256_hexdigest L) (committed_of w2) (rt_refresh_token data) = None"
    by metis
  from refresh_rejects_unknown [OF assms(4) this assms(6)] show ?thesis by metis
qed

theorem rotated_token_is_single_use_witness:
  "let first = sample_refresh ''old'' sample_tables;
       again = refresh_token (world_runtime sample_lib) sample_settings sqlalchemy_unit_of_work
         \<lparr>rt_refresh_token = ''old''\<rparr> (snd first)
   in \<exists>e. fst again = Inl e \<and> (storage_error e \<or>
     (e = InvalidRefreshTokenError \<or> signing_error (lib_jwt_encode sample_lib) (ts_jwt sample_settings) e) \<and>
     committed_of (snd again) = committed_of (snd first))"
proof -
  let ?w1 = "snd (sample_refresh ''old'' sample_tables)"
  have run: "refresh_token (world_runtime sample_lib) sample_settings sqlalchemy_unit_of_work
      \<lparr>rt_refresh_token = ''old''\<rparr> (world_of sample_tables)
    = (Inr \<lparr>tk_access_token = ''1'', tk_refresh_token = ''token-1''\<rparr>, ?w1)"
    using sample_refresh_run by (simp add: sample_refresh_def prod_eq_iff)
  have idle: "v_idle sql_view ?w1"
    using transacts_ok [OF app.refresh_token_transacts sample_idle run] by simp
  show ?thesis
    using rotated_token_is_single_use [OF sample_idle run _ idle refl prod.collapse [symmetric]]
    by (simp add: Let_def sample_lib_def)
qed

text \<open>
  C7. Why a refresh fails: the database failed, the access token could not be signed, the
  token belongs to no session, its session is revoked or expired, or its user is missing
  or inactive. Except for a database failure nothing is committed, so a refresh that is
  refused after the rotation step leaves the old token as it was, and the unit of work is
  closed.
\<close>

theorem refresh_token_refused:
  assumes "v_idle sql_view w"
    and "refresh_token (world_runtime L) settings sqlalchemy_unit_of_work data w = (Inl e, w')"
    and "\<not> storage_error e" and "\<not> signing_error (lib_jwt_encode L) (ts_jwt settings) e"
  shows "v_idle sql_view w' \<and> committed_of w' = committed_of w \<and>
    (case session_of_token (lib_sha256_hexdigest L) (committed_of w) (rt_refresh_token data) of
       None \<Rightarrow> e = InvalidRefreshTokenError
     | Some r \<Rightarrow>
         e = ExpiredRefreshTokenError \<and> spent_at (readings_of L) r \<or>
         e = InvalidRefreshTokenError \<and> usable_at (readings_of L) r \<and>
           active_user_in (committed_of w) (sr_user_id r) = None)"
  using transacts_err [OF app.refresh_token_transacts assms(1,2,3)] assms(3,4)
  by (auto simp: token_rejected_def split: option.splits)

definition bob :: user_model where
  "bob = alice\<lparr>um_is_active := False\<rparr>"

definition inactive_tables :: tables where
  "inactive_tables = \<lparr>t_users = [bob], t_sessions = [session_1]\<rparr>"

lemma inactive_idle: "v_idle sql_view (world_of inactive_tables)"
  by (rule world_of_idle) (simp add: schema_ok_def users_schema_def refresh_sessions_schema_def
      inactive_tables_def bob_def alice_def session_1_def)

theorem refresh_token_refused_witness:
  "fst (sample_refresh ''old'' inactive_tables) = Inl InvalidRefreshTokenError \<and>
   committed_of (snd (sample_refresh ''old'' inactive_tables)) = inactive_tables"
proof
  show run: "fst (sample_refresh ''old'' inactive_tables) = Inl InvalidRefreshTokenError"
    by code_simp
  have no_signing: "\<not> signing_error (lib_jwt_encode sample_lib) (ts_jwt sample_settings)
      InvalidRefreshTokenError"
    by (simp add: signing_error_def sample_lib_def)
  have "refresh_token (world_runtime sample_lib) sample_settings sqlalchemy_unit_of_work
      \<lparr>rt_refresh_token = ''old''\<rparr> (world_of inactive_tables)
    = (Inl InvalidRefreshTokenError, snd (sample_refresh ''old'' inactive_tables))"
    using run by (simp add: sample_refresh_def prod_eq_iff)
  from refresh_token_refused [OF inactive_idle this _ no_signing]
  show "committed_of (snd (sample_refresh ''old'' inactive_tables)) = inactive_tables" by simp
qed

section \<open>Revoking\<close>

text \<open>
  C8. A revocation that returns has marked the session of the submitted token as revoked, at
  an instant the clock showed, and changed no other row; the session was usable and
  belongs to the user who asked, who exists and is active.
\<close>

theorem revoke_token_revokes:
  assumes "v_idle sql_view w"
    and "revoke_token (world_runtime L) sqlalchemy_unit_of_work data user_id w = (Inr x, w')"
  shows "v_idle sql_view w' \<and>
    (\<exists>r. session_of_token (lib_sha256_hexdigest L) (committed_of w) (rt_refresh_token data) = Some r \<and>
       usable_at (readings_of L) r \<and> sr_user_id r = user_id \<and>
       active_user_in (committed_of w) user_id \<noteq> None \<and>
       (\<exists>n \<in> readings_of L. committed_of w' =
          update_session_row (sr_id r) (revoked_row (dt_utc n)) (committed_of w)))"
  using transacts_ok [OF app.revoke_token_transacts assms] by auto

lemma sample_revoke_run: "fst (sample_revoke ''old'' 1 sample_tables) = Inr ()"
  by code_simp

lemma sample_revoke_step:
  "revoke_token (world_runtime sample_lib) sqlalchemy_unit_of_work \<lparr>rt_refresh_token = ''old''\<rparr> 1
     (world_of sample_tables) = (Inr (), snd (sample_revoke ''old'' 1 sample_tables))"
  using sample_revoke_run by (simp add: sample_revoke_def prod_eq_iff)

theorem revoke_token_revokes_witness:
  "v_idle sql_view (snd (sample_revoke ''old'' 1 sample_tables)) \<and>
   map sr_revoked_at (t_sessions (committed_of (snd (sample_revoke ''old'' 1 sample_tables))))
     \<noteq> [None]"
proof
  show "v_idle sql_view (snd (sample_revoke ''old'' 1 sample_tables))"
    using revoke_token_revokes [OF sample_idle sample_revoke_step] by simp
qed code_simp

text \<open>
  A revoked refresh token is dead: after a revocation that returned, a refresh with the
  token never returns a token pair, whoever asks and under any settings; unless the database
  or the signing library fails it raises \<open>ExpiredRefreshTokenError\<close>, and nothing is committed.
\<close>

theorem revoked_token_is_dead:
  assumes "v_idle sql_view w"
    and "revoke_token (world_runtime L) sqlalchemy_unit_of_work data user_id w = (Inr u, w1)"
    and "v_idle sql_view w2" and "committed_of w2 = committed_of w1"
    and "refresh_token (world_runtime L) settings sqlalchemy_unit_of_work data w2 = (r, w3)"
  shows "\<exists>e. r = Inl e \<and>
    (storage_error e \<or>
     (e = ExpiredRefreshTokenError \<or> signing_error (lib_jwt_encode L) (ts_jwt settings) e) \<and>
     committed_of w3 = committed_of w2)"
proof -
  let ?hash = "lib_sha256_hexdigest L" and ?token = "rt_refresh_token data"
  from transacts_ok [OF app.revoke_token_transacts assms(1,2)] obtain s n where
    s: "session_of_token ?hash (committed_of w) ?token = Some s"
    and w1: "committed_of w1 = update_session_row (sr_id s) (revoked_row (dt_utc n)) (committed_of w)"
    by auto
  from find_SomeD [OF s [unfolded session_of_token_def]]
  have "sr_refresh_token_hash (revoked_row (dt_utc n) s) = ?hash ?token"
    by (simp add: revoked_row_def)
  with session_of_token_update [OF idle_schema [OF assms(1)] s] w1 assms(4)
  have s2: "session_of_token ?hash (committed_of w2) ?token = Some (revoked_row (dt_utc n) s)"
    by simp
  show ?thesis
  proof (cases r)
    case (Inl e)
    with transacts_err [OF app.refresh_token_transacts assms(3) assms(5) [unfolded Inl]] s2
    show ?thesis by (cases "storage_error e") (auto simp: token_rejected_def)
  next
    case (Inr x)
    with transacts_ok [OF app.refresh_token_transacts assms(3) assms(5) [unfolded Inr]] s2
    show ?thesis by auto
  qed
qed

theorem revoked_token_is_dead_witness:
  "let revoked = sample_revoke ''old'' 1 sample_tables;
       after = refresh_token (world_runtime sample_lib) sample_settings sqlalchemy_unit_of_work
         \<lparr>rt_refresh_token = ''old''\<rparr> (snd revoked)
   in \<exists>e. fst after = Inl e \<and> (storage_error e \<or>
     (e = ExpiredRefreshTokenError \<or> signing_error (lib_jwt_encode sample_lib) (ts_jwt sample_settings) e) \<and>
     committed_of (snd after) = committed_of (snd revoked))"
proof -
  let ?w1 = "snd (sample_revoke ''old'' 1 sample_tables)"
  have idle: "v_idle sql_view ?w1"
    using transacts_ok [OF app.revoke_token_transacts sample_idle sample_revoke_step] by simp
  show ?thesis
    using revoked_token_is_dead [OF sample_idle sample_revoke_step idle refl prod.collapse [symmetric]]
    by (simp add: Let_def)
qed

text \<open>
  C9. Why a revocation is refused: the user is missing or inactive, the token leads to no
  session, its session is spent, or it belongs to another user, whose session is left
  alone. Nothing is committed.
\<close>

theorem revoke_token_refused:
  assumes "v_idle sql_view w"
    and "revoke_token (world_runtime L) sqlalchemy_unit_of_work data user_id w = (Inl e, w')"
    and "\<not> storage_error e"
  shows "v_idle sql_view w' \<and> committed_of w' = committed_of w \<and>
    (e = AuthenticatedUserNotFoundError \<and> active_user_in (committed_of w) user_id = None \<or>
     (case session_of_token (lib_sha256_hexdigest L) (committed_of w) (rt_refresh_token data) of
        None \<Rightarrow> e = InvalidRefreshTokenError
      | Some r \<Rightarrow>
          e = ExpiredRefreshTokenError \<and> spent_at (readings_of L) r \<or>
          e = InvalidRefreshTokenError \<and> usable_at (readings_of L) r \<and> sr_user_id r \<noteq> user_id))"
  using transacts_err [OF app.revoke_token_transacts assms] assms(3)
  by (auto simp: token_rejected_def split: option.splits)

theorem revoke_token_refused_witness:
  "fst (sample_revoke ''other'' 1 sample_tables) = Inl InvalidRefreshTokenError \<and>
   committed_of (snd (sample_revoke ''other'' 1 sample_tables)) = sample_tables"
proof
  show run: "fst (sample_revoke ''other'' 1 sample_tables) = Inl InvalidRefreshTokenError"
    by code_simp
  have "revoke_token (world_runtime sample_lib) sqlalchemy_unit_of_work
      \<lparr>rt_refresh_token = ''other''\<rparr> 1 (world_of sample_tables)
    = (Inl InvalidRefreshTokenError, snd (sample_revoke ''other'' 1 sample_tables))"
    using run by (simp add: sample_revoke_def prod_eq_iff)
  from revoke_token_refused [OF sample_idle this]
  show "committed_of (snd (sample_revoke ''other'' 1 sample_tables)) = sample_tables" by simp
qed

section \<open>Issuing\<close>

text \<open>
  C10. A token pair is issued only for the right username and password of an active user, and
  then exactly one session row is added: its hash is that of the returned refresh token,
  its user the authenticated one, its lifetime the configured number of days from an
  instant the clock showed, not revoked, not used, rotation count 0. The access token is
  signed for the same user.
\<close>

theorem issue_token_creates_session:
  fixes w :: "'db world"
  assumes "v_idle sql_view w"
    and "issue_token (world_runtime L) settings sqlalchemy_unit_of_work data request_context w
      = (Inr x, w')"
  shows "v_idle sql_view w' \<and>
    (\<exists>usr r. credentials_in (world_runtime L :: 'db world runtime) (committed_of w)
         (it_username data) (it_password data) = Inr (Some usr) \<and>
       committed_of w' = (committed_of w)\<lparr>t_sessions := t_sessions (committed_of w) @ [r]\<rparr> \<and>
       fresh_session (lib_sha256_hexdigest L) (readings_of L) (tokens_of L) (ts_sessions settings) usr
         (tc_user_agent request_context) (tc_ip_address_trace request_context)
         (tk_refresh_token x) r \<and>
       access_token_for (lib_jwt_encode L) (readings_of L) (ts_jwt settings) (u_id usr)
         (tk_access_token x))"
  using transacts_ok [OF app.issue_token_transacts assms] by simp

lemma sample_issue_run: "fst (sample_issue ''alice'' ''correct horse'' sample_tables) =
    Inr \<lparr>tk_access_token = ''1'', tk_refresh_token = ''token-0''\<rparr>"
  by code_simp

theorem issue_token_creates_session_witness:
  "v_idle sql_view (snd (sample_issue ''alice'' ''correct horse'' sample_tables)) \<and>
   map sr_refresh_token_hash (t_sessions (committed_of
     (snd (sample_issue ''alice'' ''correct horse'' sample_tables)))) = [''sha:old'', ''sha:token-0'']"
proof
  have "issue_token (world_runtime sample_lib) sample_settings sqlalchemy_unit_of_work
      \<lparr>it_username = ''alice'', it_password = ''correct horse''\<rparr>
      \<lparr>tc_user_agent = ''curl'', tc_ip_address_trace = None\<rparr> (world_of sample_tables)
    = (Inr \<lparr>tk_access_token = ''1'', tk_refresh_token = ''token-0''\<rparr>,
       snd (sample_issue ''alice'' ''correct horse'' sample_tables))"
    using sample_issue_run by (simp add: sample_issue_def prod_eq_iff)
  from issue_token_creates_session [OF sample_idle this]
  show "v_idle sql_view (snd (sample_issue ''alice'' ''correct horse'' sample_tables))" by simp
qed code_simp

text \<open>
  Refused credentials leave no trace: an issue request that raises commits nothing
  unless the database fails, and \<open>InvalidCredentialsError\<close> is raised when the username is
  unknown, the user inactive or the password wrong; the caller cannot tell which.
\<close>

theorem issue_token_refused:
  fixes w :: "'db world"
  assumes "v_idle sql_view w"
    and "issue_token (world_runtime L) settings sqlalchemy_unit_of_work data request_context w
      = (Inl e, w')"
    and "\<not> storage_error e" and "\<not> signing_error (lib_jwt_encode L) (ts_jwt settings) e"
  shows "v_idle sql_view w' \<and> committed_of w' = committed_of w \<and>
    (case credentials_in (world_runtime L :: 'db world runtime) (committed_of w)
         (it_username data) (it_password data) of
       Inl e' \<Rightarrow> e = e'
     | Inr None \<Rightarrow> e = InvalidCredentialsError
     | Inr (Some usr) \<Rightarrow> False)"
  using transacts_err [OF app.issue_token_transacts assms(1,2,3)] assms(3,4)
  by (auto split: sum.splits option.splits)

theorem issue_token_refused_witness:
  "fst (sample_issue ''alice'' ''wrong'' sample_tables) = Inl InvalidCredentialsError \<and>
   committed_of (snd (sample_issue ''alice'' ''wrong'' sample_tables)) = sample_tables"
proof
  show run: "fst (sample_issue ''alice'' ''wrong'' sample_tables) = Inl InvalidCredentialsError"
    by code_simp
  have no_signing: "\<not> signing_error (lib_jwt_encode sample_lib) (ts_jwt sample_settings)
      InvalidCredentialsError"
    by (simp add: signing_error_def sample_lib_def)
  have "issue_token (world_runtime sample_lib) sample_settings sqlalchemy_unit_of_work
      \<lparr>it_username = ''alice'', it_password = ''wrong''\<rparr>
      \<lparr>tc_user_agent = ''curl'', tc_ip_address_trace = None\<rparr> (world_of sample_tables)
    = (Inl InvalidCredentialsError, snd (sample_issue ''alice'' ''wrong'' sample_tables))"
    using run by (simp add: sample_issue_def prod_eq_iff)
  from issue_token_refused [OF sample_idle this _ no_signing]
  show "committed_of (snd (sample_issue ''alice'' ''wrong'' sample_tables)) = sample_tables" by simp
qed

end
