(* ===== verification/User_Properties.thy ===== *)
theory User_Properties
  imports Token_Properties
begin

text \<open>
  The properties of registration and lookup over the SQLAlchemy adapters: what a
  registration stores and refuses, that a registered user can log in, who may look up
  users, and how identities are normalized.
\<close>

section \<open>Concrete registrations\<close>

definition sample_policy :: password_service_settings where
  "sample_policy = \<lparr>pss_min_length = 8, pss_max_length = 128\<rparr>"

definition carol :: register_user_dto where
  "carol = \<lparr>ru_email = ''carol@Example.ORG'', ru_username = '' carol '', ru_first_name = ''C'',
     ru_last_name = ''D'', ru_password = ''correct horse''\<rparr>"

definition sample_register ::
    "password_service_settings \<Rightarrow> register_user_dto \<Rightarrow> tables \<Rightarrow> (exn + user) \<times> memory world" where
  "sample_register policy data t =
     register_user (world_runtime sample_lib) policy sqlalchemy_unit_of_work data (world_of t)"

definition carol_user :: user where
  "carol_user = \<lparr>u_id = 2, u_username = ''carol'', u_email = ''carol@example.org'',
     u_first_name = ''C'', u_last_name = ''D'', u_password_hash = ''hash:correct horse'',
     u_is_active = True, u_is_staff = False, u_is_superuser = False\<rparr>"

lemma sample_register_run: "fst (sample_register sample_policy carol sample_tables) = Inr carol_user"
  by code_simp

lemma sample_register_step:
  "register_user (world_runtime sample_lib) sample_policy sqlalchemy_unit_of_work carol
     (world_of sample_tables)
   = (Inr carol_user, snd (sample_register sample_policy carol sample_tables))"
  using sample_register_run by (simp add: sample_register_def prod_eq_iff)

section \<open>Registration\<close>

text \<open>The stored values of a registration.\<close>

lemma persisted_values:
  "persist_user_data rt d = Inr p \<Longrightarrow> values_of m = new_user_values p h \<Longrightarrow>
     um_username m = ru_username d \<and> um_first_name m = ru_first_name d \<and>
     um_last_name m = ru_last_name d \<and> rt_validate_email rt (ru_email d) = Some (um_email m) \<and>
     um_password_hash m = h \<and> um_is_active m \<and> \<not> um_is_staff m \<and> \<not> um_is_superuser m"
  by (auto simp: persist_user_data_def make_persist_user_dto_def new_user_values_def values_of_def
      split: option.splits if_splits)

lemma normalized_values:
  "normalize_register_user_data rt data = Inr d \<Longrightarrow>
     ru_username d = normalize_username rt (ru_username data) \<and>
     rt_validate_email rt (normalize_email rt (ru_email data)) = Some (ru_email d) \<and>
     ru_first_name d = ru_first_name data \<and> ru_last_name d = ru_last_name data \<and>
     ru_password d = ru_password data"
  by (auto simp: normalize_register_user_data_def make_register_user_dto_def
      split: option.splits if_splits)

text \<open>
  C12. A registration that returns has added one user row and nothing else. The row holds the
  normalized username, a hash of the submitted password, which the password policy accepts;
  the account is active and has neither the staff nor the superuser flag,
  whatever the request contained; no stored user had that username or e-mail before.
\<close>

theorem register_user_creates:
  fixes w :: "'db world"
  assumes "v_idle sql_view w"
    and "register_user (world_runtime L) settings sqlalchemy_unit_of_work data w = (Inr x, w')"
  shows "v_idle sql_view w' \<and>
    (\<exists>d m. normalize_register_user_data (world_runtime L :: 'db world runtime) data = Inr d \<and>
       \<not> is_weak_password (world_runtime L :: 'db world runtime) settings d \<and>
       committed_of w' = (committed_of w)\<lparr>t_users := t_users (committed_of w) @ [m]\<rparr> \<and>
       x = user_from_model m \<and>
       um_username m = normalize_username (world_runtime L :: 'db world runtime) (ru_username data) \<and>
       um_password_hash m \<in> hashes_of L (ru_password data) \<and>
       um_is_active m \<and> \<not> um_is_staff m \<and> \<not> um_is_superuser m \<and>
       (\<forall>u \<in> set (t_users (committed_of w)).
          um_username u \<noteq> ru_username d \<and> um_email u \<noteq> ru_email d))"
  using transacts_ok [OF app.register_user_transacts assms]
  by (fastforce dest: persisted_values normalized_values)

theorem register_user_creates_witness:
  "v_idle sql_view (snd (sample_register sample_policy carol sample_tables)) \<and>
   map um_username (t_users (committed_of (snd (sample_register sample_policy carol sample_tables))))
     = [''alice'', ''carol'']"
proof
  show "v_idle sql_view (snd (sample_register sample_policy carol sample_tables))"
    using register_user_creates [OF sample_idle sample_register_step] by simp
qed code_simp

text \<open>
  Why a registration is refused, written out: from the request alone, and, for a request that
  passes, from the stored users.
\<close>

definition request_refusal ::
    "'w runtime \<Rightarrow> password_service_settings \<Rightarrow> register_user_dto \<Rightarrow> exn option" where
  "request_refusal rt settings data =
     (let name = rt_nfkc rt (strip (ru_username data)); password = ru_password data in
      case rt_validate_email rt (normalize_email rt (ru_email data)) of
        None \<Rightarrow> Some ValidationError
      | Some mail \<Rightarrow>
          if 150 < length name \<or> 150 < length (ru_first_name data) \<or> 150 < length (ru_last_name data)
             \<or> 128 < length password
          then Some ValidationError
          else if int (length password) < pss_min_length settings
             \<or> pss_max_length settings < int (length password) \<or> str_isnumeric password
             \<or> rt_casefold rt password = rt_casefold rt name
             \<or> rt_casefold rt password = rt_casefold rt mail
          then Some WeakPasswordError else None)"

definition stored_refusal :: "'w runtime \<Rightarrow> tables \<Rightarrow> register_user_dto \<Rightarrow> exn option" where
  "stored_refusal rt t data =
     Option.bind (rt_validate_email rt (normalize_email rt (ru_email data))) (\<lambda>mail.
       if \<exists>u \<in> set (t_users t). um_username u = rt_nfkc rt (strip (ru_username data)) \<or> um_email u = mail
       then Some UserAlreadyExistsError
       else if rt_validate_email rt mail = None then Some ValidationError else None)"

lemma request_refusal_Some:
  "request_refusal rt settings data = Some e \<longleftrightarrow>
     normalize_register_user_data rt data = Inl ValidationError \<and> e = ValidationError \<or>
     (\<exists>d. normalize_register_user_data rt data = Inr d \<and> is_weak_password rt settings d \<and> e = WeakPasswordError)"
  by (auto simp: request_refusal_def normalize_register_user_data_def make_register_user_dto_def
      normalize_username_def is_weak_password_def user_name_max_length_def password_max_length_def Let_def
      split: option.splits if_splits)

lemma request_refusal_None:
  "request_refusal rt settings data = None \<longleftrightarrow>
     (\<exists>d. normalize_register_user_data rt data = Inr d \<and> \<not> is_weak_password rt settings d)"
  by (auto simp: request_refusal_def normalize_register_user_data_def make_register_user_dto_def
      normalize_username_def is_weak_password_def user_name_max_length_def password_max_length_def Let_def
      split: option.splits if_splits)

lemma stored_refusal_cases:
  assumes "normalize_register_user_data rt data = Inr d"
  shows "stored_refusal rt t data =
    (if identity_taken t d then Some UserAlreadyExistsError
     else case persist_user_data rt d of Inl e \<Rightarrow> Some ValidationError | Inr p \<Rightarrow> None)"
  using assms
  by (auto simp: stored_refusal_def identity_taken_def list_ex_iff normalize_register_user_data_def
      make_register_user_dto_def persist_user_data_def make_persist_user_dto_def normalize_username_def
      split: option.splits if_splits)

text \<open>
  How the two databases report that the username or the e-mail of a new row is taken: PostgreSQL by
  the name of the constraint, SQLite by its message. The law says that an INSERT into \<open>users\<close> breaks
  no other constraint and that no other statement of a registration breaks one.
\<close>

definition unique_violation :: "dbapi_error \<Rightarrow> bool" where
  "unique_violation orig =
     ((\<exists>name \<in> {''uq_users_email'', ''uq_users_username''}.
         Option.bind (de_diag orig) dg_constraint_name = Some (PyStr name)) \<or>
      (\<exists>column \<in> {''email'', ''username''}. \<exists>before after.
         str_lower (de_str orig) = before @ ''unique constraint failed: users.'' @ column @ after))"

definition reports_duplicates :: "'db engine \<Rightarrow> bool" where
  "reports_duplicates E =
     ((\<forall>v d orig d'. e_insert_user E v d = (Inl (IntegrityError orig), d') \<longrightarrow> unique_violation orig) \<and>
      (\<forall>p d orig d'. e_select_users E p d \<noteq> (Inl (IntegrityError orig), d')) \<and>
      (\<forall>d orig d'. e_begin E d \<noteq> (Inl (IntegrityError orig), d') \<and>
         e_commit E d \<noteq> (Inl (IntegrityError orig), d') \<and>
         e_rollback E d \<noteq> (Inl (IntegrityError orig), d') \<and>
         e_close E d \<noteq> (Inl (IntegrityError orig), d')))"

lemma contains_iff: "contains p s \<longleftrightarrow> (\<exists>before after. s = before @ p @ after)"
proof (induction s)
  case (Cons c s)
  have "(\<exists>before after. c # s = before @ p @ after) \<longleftrightarrow>
      (\<exists>after. c # s = p @ after) \<or> (\<exists>before after. s = before @ p @ after)"
    by (metis append_Cons append_Nil list.exhaust list.inject)
  with Cons show ?case by (simp add: startswith_iff)
qed simp

lemma is_duplicate_iff: "is_duplicate_user_integrity_error orig = unique_violation orig"
  by (auto simp: is_duplicate_user_integrity_error_def postgres_constraint_name_def unique_violation_def
      postgres_user_unique_constraint_names_def sqlite_user_unique_messages_def contains_iff
      split: option.splits py_obj.splits)

text \<open>The one way to the conflict error of the repository: the INSERT of the row was refused.\<close>

lemma create_conflict:
  assumes "create p h w = (Inl UserRepositoryConflictError, w')" and "engine_ok (w_engine w)"
  shows "\<exists>orig d'. e_insert_user (w_engine w) (new_user_values p h) (w_db w) = (Inl (IntegrityError orig), d') \<and>
    unique_violation orig"
proof -
  obtain r d' where ins: "e_insert_user (w_engine w) (new_user_values p h) (w_db w) = (r, d')" by fastforce
  have "storage_error e" if "r = Inl e" for e
    using stmt_ok_Inl [OF engine_ok_statements(3) [OF assms(2)]] ins that by blast
  with assms(1) ins show ?thesis
    by (cases r) (auto simp: create_def new_user_values_def [symmetric] bind_err_iff try_except_def stmt_def
        is_duplicate_iff split: exn.splits if_splits)
qed

lemma aenter_engine: "aenter w = (r, w') \<Longrightarrow> w_engine w' = w_engine w"
  by (cases r) (auto simp: aenter_def run_iffs stmt_run dest!: open_session_run split: if_splits)

lemma repository_run:
  "v_ready sql_view w \<Longrightarrow> bind_p (uow_user_repository sqlalchemy_unit_of_work) k w = k sqlalchemy_user_repository w"
  by (simp add: bind_p_def sql_uow.user_repository [OF sql.ready_live])

lemma isinstance_conflict:
  "isinstance e UserRepositoryConflictError_class \<longleftrightarrow> e = UserRepositoryConflictError"
  by (cases e) simp_all

text \<open>Inside the transaction: the name is free, and the creation ends in the duplicate error.\<close>

lemma creation_conflict:
  assumes "v_ready sql_view w" and "\<not> identity_taken (view_of w) d"
    and "registration_block rt sqlalchemy_unit_of_work d h w = (Inl UserAlreadyExistsError, w')"
  shows "\<exists>p db orig db'. persist_user_data rt d = Inr p \<and>
    e_insert_user (w_engine w) (new_user_values p h) db = (Inl (IntegrityError orig), db') \<and> unique_violation orig"
proof -
  let ?get = "ur_get_by_username_or_email sqlalchemy_user_repository (ru_username d) (ru_email d)"
  note run = assms(3) [unfolded repository_run [OF assms(1)]]
  note get = sql_users.get_by_username_or_email [of "ru_username d" "ru_email d"]
  from run obtain existing w1 where g: "?get w = (Inr existing, w1)"
    using meets_err [OF get assms(1)] by (fastforce simp: bind_err_iff)
  from meets_ok [OF get assms(1) g] have w1: "v_ready sql_view w1" "w_engine w1 = w_engine w"
    and none: "existing = None"
    using assms(2) by (auto simp: sql_frame_def identity_taken_def list_ex_iff split: option.splits)
  let ?create = "\<lambda>repository. bind_p (of_result (persist_user_data rt d)) (\<lambda>p. ur_create repository p h)"
  let ?m = "bind_p (uow_user_repository sqlalchemy_unit_of_work) ?create"
  obtain r w2 where m: "?m w1 = (r, w2)" by fastforce
  with run g none have "r = Inl UserRepositoryConflictError \<or> r = Inl UserAlreadyExistsError"
    by (cases r) (auto simp: bind_err_iff try_except_def raise_def isinstance_conflict simp del: isinstance_simps
        split: if_splits)
  with m obtain e1 where created: "?create sqlalchemy_user_repository w1 = (Inl e1, w2)"
    and e1: "e1 = UserRepositoryConflictError \<or> e1 = UserAlreadyExistsError"
    by (auto simp: repository_run [OF w1(1)])
  show ?thesis
  proof (cases "persist_user_data rt d")
    case (Inl e)
    with created e1 persist_user_data_error [OF Inl] show ?thesis by auto
  next
    case (Inr p)
    with created have c: "ur_create sqlalchemy_user_repository p h w1 = (Inl e1, w2)" by simp
    from meets_err [OF sql_users.create w1(1) c] e1 have "e1 = UserRepositoryConflictError" by auto
    with c w1 have "create p h w1 = (Inl UserRepositoryConflictError, w2)"
      by (simp add: sqlalchemy_user_repository_def)
    from create_conflict [OF this] w1 Inr show ?thesis by (auto simp: sql_ready_iff)
  qed
qed

lemma registration_conflict:
  fixes w :: "'db world"
  assumes idle: "v_idle sql_view w"
    and run: "register_user (world_runtime L) settings sqlalchemy_unit_of_work data w = (Inl UserAlreadyExistsError, w')"
    and d: "normalize_register_user_data (world_runtime L :: 'db world runtime) data = Inr d"
    and free: "\<not> identity_taken (committed_of w) d"
  shows "\<exists>p h db orig db'. persist_user_data (world_runtime L :: 'db world runtime) d = Inr p \<and>
    e_insert_user (w_engine w) (new_user_values p h) db = (Inl (IntegrityError orig), db') \<and> unique_violation orig"
proof -
  from transacts_err [OF app.register_user_transacts idle run] d
  have "\<not> is_weak_password (world_runtime L :: 'db world runtime) settings d"
    by (auto split: if_splits)
  then have strong: "validate_password (world_runtime L :: 'db world runtime) settings d = Inr ()"
    by (simp add: validate_password_def)
  define w1 where "w1 = w\<lparr>w_draws := Suc (w_draws w)\<rparr>"
  obtain h where hash: "hash_password (world_runtime L) (ru_password d) w = (Inr h, w1)"
    by (simp add: hash_password_def world_runtime_def draw_def w1_def)
  have w1: "v_idle sql_view w1" "committed_of w1 = committed_of w" "w_engine w1 = w_engine w"
    using idle by (simp_all add: w1_def sql_idle_iff committed_of_def)
  note block = run [unfolded register_user_def d strong bind_of_result bind_p_def [of "hash_password _ _"]
      hash prod.case sum.case]
  from block show ?thesis
  proof (cases rule: async_with_err)
    case enter
    then have "storage_error UserAlreadyExistsError"
      using sql_uow.aenter_err [OF w1(1)] by blast
    then show ?thesis by simp
  next
    case (commit w2 w3 x)
    from sql_uow.aenter_ok [OF w1(1) commit(1)] have "v_ready sql_view w2" by blast
    from meets_ok [OF app.registration_block_meets this commit(2)]
    have "v_ready sql_view w3" by blast
    from sql_uow.commit_err [OF this commit(3)] show ?thesis by simp
  next
    case (rollback w2 w3 b)
    from sql_uow.aenter_ok [OF w1(1) rollback(1)] have w2: "v_ready sql_view w2" "view_of w2 = committed_of w1"
      by simp_all
    have engine: "w_engine w2 = w_engine w"
      using aenter_engine [OF rollback(1) [unfolded sqlalchemy_unit_of_work_def unit_of_work.simps]] w1(3)
      by (rule trans)
    have "\<not> identity_taken (view_of w2) d" using free unfolding w2(2) w1(2) .
    from creation_conflict [OF w2(1) this rollback(2)] show ?thesis unfolding engine by blast
  next
    case (rollback_err w2 w3 e)
    from sql_uow.aenter_ok [OF w1(1) rollback_err(1)] have w2: "v_ready sql_view w2" by blast
    from meets_err [OF app.registration_block_meets w2 rollback_err(2)]
    have "v_live sql_view w3" using sql.frame_live sql.ready_live w2 by blast
    from sql_uow.abort_err [OF this rollback_err(3)] show ?thesis by simp
  qed
qed

text \<open>
  Under the law no violated constraint reaches the caller: \<open>spares m\<close> says that \<open>m\<close> stays on its
  engine and raises no \<open>IntegrityError\<close>.
\<close>

definition spares :: "('db world, exn, 'a) prog \<Rightarrow> bool" where
  "spares m = (\<forall>w r w'. reports_duplicates (w_engine w) \<longrightarrow> m w = (r, w') \<longrightarrow>
     w_engine w' = w_engine w \<and> (\<forall>orig. r \<noteq> Inl (IntegrityError orig)))"

named_theorems spares_rules

lemma sparesI:
  "(\<And>w r w'. reports_duplicates (w_engine w) \<Longrightarrow> m w = (r, w') \<Longrightarrow>
      w_engine w' = w_engine w \<and> (\<forall>orig. r \<noteq> Inl (IntegrityError orig))) \<Longrightarrow> spares m"
  unfolding spares_def by blast

lemma sparesD:
  "spares m \<Longrightarrow> reports_duplicates (w_engine w) \<Longrightarrow> m w = (r, w') \<Longrightarrow>
     w_engine w' = w_engine w \<and> r \<noteq> Inl (IntegrityError orig)"
  unfolding spares_def by blast

lemma spares_pure [spares_rules]:
  "spares (ret x)" "spares (gets f)" "spares (draw g)" "spares open_session" "spares (set_scope s)"
  by (auto intro!: sparesI simp: draw_def dest: open_session_run)

lemma spares_raise [spares_rules]: "(\<And>orig. e \<noteq> IntegrityError orig) \<Longrightarrow> spares (raise e)"
  by (rule sparesI) auto

lemma spares_of_result [spares_rules]:
  "(\<And>orig. r \<noteq> Inl (IntegrityError orig)) \<Longrightarrow> spares (of_result r)"
  by (rule sparesI) auto

lemma spares_stmt [spares_rules]:
  "spares (stmt e_begin)" "spares (stmt e_commit)" "spares (stmt e_rollback)" "spares (stmt e_close)"
  "spares (stmt (\<lambda>E. e_select_users E p))"
  by (auto intro!: sparesI simp: stmt_run reports_duplicates_def)

lemma spares_bind [spares_rules]:
  assumes "spares m" and "\<And>x. spares (k x)"
  shows "spares (bind_p m k)"
proof (rule sparesI)
  fix w r w'
  assume law: "reports_duplicates (w_engine w)" and run: "bind_p m k w = (r, w')"
  obtain r1 w1 where m: "m w = (r1, w1)" by fastforce
  from sparesD [OF assms(1) law m] have w1: "w_engine w1 = w_engine w" "\<And>orig. r1 \<noteq> Inl (IntegrityError orig)"
    by blast+
  show "w_engine w' = w_engine w \<and> (\<forall>orig. r \<noteq> Inl (IntegrityError orig))"
  proof (cases r1)
    case (Inl e)
    with run m w1 show ?thesis by (auto simp: bind_p_def)
  next
    case (Inr x)
    with run m have "k x w1 = (r, w')" by (simp add: bind_p_def)
    with sparesD [OF assms(2), of w1] w1(1) law show ?thesis by simp
  qed
qed

lemma spares_try [spares_rules]:
  assumes "spares m" and "\<And>e. (\<And>orig. e \<noteq> IntegrityError orig) \<Longrightarrow> spares (h e)"
  shows "spares (try_except m h)"
proof (rule sparesI)
  fix w r w'
  assume law: "reports_duplicates (w_engine w)" and run: "try_except m h w = (r, w')"
  obtain r1 w1 where m: "m w = (r1, w1)" by fastforce
  from sparesD [OF assms(1) law m] have w1: "w_engine w1 = w_engine w" "\<And>orig. r1 \<noteq> Inl (IntegrityError orig)"
    by blast+
  show "w_engine w' = w_engine w \<and> (\<forall>orig. r \<noteq> Inl (IntegrityError orig))"
  proof (cases r1)
    case (Inl e)
    with w1(2) have "spares (h e)" by (intro assms(2)) blast
    moreover from Inl run m have "h e w1 = (r, w')" by (simp add: try_except_def)
    ultimately show ?thesis using sparesD [of "h e" w1] w1(1) law by simp
  next
    case (Inr x)
    with run m w1 show ?thesis by (auto simp: try_except_def)
  qed
qed

lemma spares_create: "spares (create p h)"
proof -
  let ?handler = "\<lambda>exception. case exception of
      IntegrityError orig \<Rightarrow> if \<not> is_duplicate_user_integrity_error orig then raise exception
        else raise UserRepositoryConflictError
    | _ \<Rightarrow> raise exception"
  have "spares (try_except (stmt (\<lambda>E. e_insert_user E v)) ?handler)" for v
  proof (rule sparesI)
    fix w r w'
    assume law: "reports_duplicates (w_engine w)"
      and run: "try_except (stmt (\<lambda>E. e_insert_user E v)) ?handler w = (r, w')"
    obtain r1 d where ins: "e_insert_user (w_engine w) v (w_db w) = (r1, d)" by fastforce
    with law have dup: "unique_violation orig" if "r1 = Inl (IntegrityError orig)" for orig
      using that unfolding reports_duplicates_def by blast
    from run ins dup show "w_engine w' = w_engine w \<and> (\<forall>orig. r \<noteq> Inl (IntegrityError orig))"
      by (cases r1) (auto simp: try_except_def stmt_def is_duplicate_iff split: exn.splits)
  qed
  from this spares_pure(1) show ?thesis unfolding create_def by (rule spares_bind)
qed

lemma spares_async_with:
  assumes "spares body"
  shows "spares (async_with sqlalchemy_unit_of_work body)"
proof -
  have enter: "spares aenter"
    unfolding aenter_def by (auto simp: nested_uow_error_def intro!: spares_rules)
  have exit: "spares (aexit exc)" for exc
    by (auto simp: aexit_def finish_transaction_def close_scope_def inactive_uow_error_def
        intro!: spares_rules split: option.split)
  have "spares (\<lambda>w. case body w of
      (Inr x, w1) \<Rightarrow> bind_p (aexit None) (\<lambda>suppressed. ret x) w1
    | (Inl e, w1) \<Rightarrow> bind_p (aexit (Some e)) (\<lambda>suppressed. raise e) w1)"
  proof (rule sparesI)
    fix w r w'
    assume law: "reports_duplicates (w_engine w)" and run: "(case body w of
      (Inr x, w1) \<Rightarrow> bind_p (aexit None) (\<lambda>suppressed. ret x) w1
    | (Inl e, w1) \<Rightarrow> bind_p (aexit (Some e)) (\<lambda>suppressed. raise e) w1) = (r, w')"
    obtain r1 w1 where b: "body w = (r1, w1)" by fastforce
    from sparesD [OF assms law b] have w1: "w_engine w1 = w_engine w" "\<And>orig. r1 \<noteq> Inl (IntegrityError orig)"
      by blast+
    have "spares (bind_p (aexit exc) (\<lambda>suppressed. of_result r1))" for exc
      using w1(2) by (intro spares_rules exit)
    moreover from run b have "bind_p (aexit (case r1 of Inl e \<Rightarrow> Some e | Inr x \<Rightarrow> None))
        (\<lambda>suppressed. of_result r1) w1 = (r, w')"
      by (cases r1) (simp_all add: of_result_def raise_def ret_def cong: if_cong)
    ultimately show "w_engine w' = w_engine w \<and> (\<forall>orig. r \<noteq> Inl (IntegrityError orig))"
      using sparesD [of _ w1] w1(1) law by metis
  qed
  with enter show ?thesis
    unfolding async_with_def sqlalchemy_unit_of_work_def unit_of_work.simps by (rule spares_bind)
qed

lemma spares_register_user:
  "spares (register_user (world_runtime L) settings sqlalchemy_unit_of_work data ::
     ('w world, exn, user) prog)"
proof -
  have repository: "spares (bind_p (uow_user_repository sqlalchemy_unit_of_work) k)"
    if "spares (k sqlalchemy_user_repository)" for k :: "'w world user_repository \<Rightarrow> ('w world, exn, user) prog"
    using that
    by (auto simp: sqlalchemy_unit_of_work_def user_repository_property_def current_scope_def bind_assoc
        inactive_uow_error_def intro!: spares_rules split: option.split)
  have lookup: "spares (get_by_username_or_email name mail :: ('w world, exn, user option) prog)" for name mail
    by (auto simp: get_by_username_or_email_def select_users_def Let_def intro!: spares_rules split: option.split)
  have validated: "validate_password rt settings d \<noteq> Inl (IntegrityError orig)" for rt :: "'w world runtime" and d orig
    by (simp add: validate_password_def)
  have persisted: "persist_user_data rt d \<noteq> Inl (IntegrityError orig)" for rt :: "'w world runtime" and d orig
    using persist_user_data_error by blast
  have block: "spares (registration_block (world_runtime L) sqlalchemy_unit_of_work d h :: ('w world, exn, user) prog)"
    for d h
    by (auto simp: sqlalchemy_user_repository_def isinstance_conflict persisted simp del: isinstance_simps
        intro!: repository lookup spares_create spares_rules)
  have hash: "spares (hash_password (world_runtime L) pw :: ('w world, exn, string) prog)" for pw
    by (simp add: hash_password_def world_runtime_def spares_rules)
  show ?thesis
    unfolding register_user_def
    by (intro spares_rules spares_async_with block hash) (auto dest: normalize_register_user_data_error simp: validated)
qed

lemma request_refused:
  assumes "request_refusal rt settings data = Some e"
  shows "register_user rt settings uow data w = (Inl e, w)"
  using assms by (auto simp: request_refusal_Some register_user_def raise_def validate_password_def)

lemma registration_outcome:
  fixes w :: "'db world"
  assumes idle: "v_idle sql_view w"
    and run: "register_user (world_runtime L) settings sqlalchemy_unit_of_work data w = (r, w')"
    and passes: "request_refusal (world_runtime L :: 'db world runtime) settings data = None"
  shows "case stored_refusal (world_runtime L :: 'db world runtime) (committed_of w) data of
      Some e \<Rightarrow> committed_of w' = committed_of w \<and>
        (r = Inl e \<and> v_idle sql_view w' \<or> (\<exists>e'. r = Inl e' \<and> storage_error e'))
    | None \<Rightarrow> \<forall>e. r = Inl e \<longrightarrow> storage_error e \<or>
        e = UserAlreadyExistsError \<and> v_idle sql_view w' \<and> committed_of w' = committed_of w \<and>
        (\<exists>v db orig db'. uv_username v = lib_nfkc L (strip (ru_username data)) \<and>
           e_insert_user (w_engine w) v db = (Inl (IntegrityError orig), db') \<and> unique_violation orig)"
proof -
  let ?rt = "world_runtime L :: 'db world runtime" and ?t = "committed_of w"
  from passes obtain d where d: "normalize_register_user_data ?rt data = Inr d"
    and strong: "\<not> is_weak_password ?rt settings d"
    by (auto simp: request_refusal_None)
  show ?thesis
  proof (cases "stored_refusal ?rt ?t data")
    case (Some e)
    then have e: "if identity_taken ?t d then e = UserAlreadyExistsError
        else persist_user_data ?rt d = Inl ValidationError \<and> e = ValidationError"
      by (auto simp: stored_refusal_cases [OF d] dest: persist_user_data_error split: if_splits sum.splits)
    then have stuck: "identity_taken ?t d \<or> (\<forall>p. persist_user_data ?rt d \<noteq> Inr p)" by auto
    have same: "committed_of w' = ?t"
      using transacts_always [OF app.register_user_transacts idle run] stuck d
      by (auto simp: identity_taken_def list_ex_iff)
    have "\<exists>e'. r = Inl e' \<and> (storage_error e' \<or> e' = e \<and> v_idle sql_view w')"
    proof (cases r)
      case (Inr x)
      with transacts_ok [OF app.register_user_transacts idle run [unfolded Inr]] stuck d show ?thesis
        by (auto simp: identity_taken_def list_ex_iff)
    next
      case (Inl e')
      show ?thesis
      proof (cases "storage_error e'")
        case False
        from transacts_err [OF app.register_user_transacts idle run [unfolded Inl] False] Inl d strong e False
        show ?thesis by (auto split: if_splits)
      qed (simp add: Inl)
    qed
    with Some same show ?thesis by auto
  next
    case None
    then have free: "\<not> identity_taken ?t d" and p: "\<exists>p. persist_user_data ?rt d = Inr p"
      by (auto simp: stored_refusal_cases [OF d] split: if_splits sum.splits)
    have "e = UserAlreadyExistsError \<and> v_idle sql_view w' \<and> committed_of w' = ?t"
      if "r = Inl e" "\<not> storage_error e" for e
      using transacts_err [OF app.register_user_transacts idle run [unfolded that(1)] that(2)] that d strong free p
      by auto
    moreover have "\<exists>v db orig db'. uv_username v = lib_nfkc L (strip (ru_username data)) \<and>
        e_insert_user (w_engine w) v db = (Inl (IntegrityError orig), db') \<and> unique_violation orig"
      if "r = Inl UserAlreadyExistsError"
    proof -
      from registration_conflict [OF idle run [unfolded that] d free] obtain p h db orig db' where
        p: "persist_user_data ?rt d = Inr p" and refused: "e_insert_user (w_engine w) (new_user_values p h) db
          = (Inl (IntegrityError orig), db')" "unique_violation orig" by blast
      have "uv_username (new_user_values p h) = lib_nfkc L (strip (ru_username data))"
        using p normalized_values [OF d]
        by (auto simp: new_user_values_def persist_user_data_def make_persist_user_dto_def normalize_username_def
            split: option.splits if_splits)
      with refused show ?thesis by blast
    qed
    ultimately show ?thesis using None by auto
  qed
qed

text \<open>
  C13. Why a registration is refused, case by case. A request that does not validate or has a
  weak password is refused with exactly that error, before anything runs. When a stored user has
  the normalized username or e-mail, the answer is \<open>UserAlreadyExistsError\<close> (or a failure of the
  database), never a success. Otherwise that answer means that the database itself refused the
  row of that username as a duplicate, as it does when another registration came first. Nothing
  is stored by a refusal; and a database that reports duplicates as PostgreSQL or SQLite do never
  has one reach the caller as an \<open>IntegrityError\<close>.
\<close>

theorem register_user_refused:
  fixes w :: "'db world"
  assumes "v_idle sql_view w"
    and "register_user (world_runtime L) settings sqlalchemy_unit_of_work data w = (r, w')"
  shows "(case request_refusal (world_runtime L :: 'db world runtime) settings data of
      Some e \<Rightarrow> r = Inl e \<and> w' = w
    | None \<Rightarrow>
        (case stored_refusal (world_runtime L :: 'db world runtime) (committed_of w) data of
          Some e \<Rightarrow> committed_of w' = committed_of w \<and>
            (r = Inl e \<and> v_idle sql_view w' \<or> (\<exists>e'. r = Inl e' \<and> storage_error e'))
        | None \<Rightarrow> \<forall>e. r = Inl e \<longrightarrow> storage_error e \<or>
            e = UserAlreadyExistsError \<and> v_idle sql_view w' \<and> committed_of w' = committed_of w \<and>
            (\<exists>v db orig db'. uv_username v = lib_nfkc L (strip (ru_username data)) \<and>
               e_insert_user (w_engine w) v db = (Inl (IntegrityError orig), db') \<and> unique_violation orig)))
    \<and> (reports_duplicates (w_engine w) \<longrightarrow> (\<forall>orig. r \<noteq> Inl (IntegrityError orig)))"
  using request_refused [where data = data and w = w and uow = sqlalchemy_unit_of_work] registration_outcome [OF assms]
    sparesD [OF spares_register_user _ assms(2)] assms(2)
  by (auto split: option.splits)

text \<open>A database in which another registration always comes first, and one with the username taken.\<close>

definition racing_engine :: "memory engine" where
  "racing_engine = memory_engine\<lparr>e_insert_user :=
     (\<lambda>v d. (Inl (IntegrityError \<lparr>de_diag = None, de_str = unique_users\<rparr>), d))\<rparr>"

definition racing_world :: "memory world" where
  "racing_world = (world_of sample_tables)\<lparr>w_engine := racing_engine\<rparr>"

lemma racing_idle: "v_idle sql_view racing_world"
proof -
  have "engine_ok racing_engine"
    using memory_engine_ok
    by (simp add: racing_engine_def engine_ok_def transaction_ok_def ping_ok_def stmt_ok_def
        cong: prod.case_cong sum.case_cong)
  with sample_schema show ?thesis
    by (simp add: sql_idle_iff racing_world_def world_of_def committed_of_def racing_engine_def memory_engine_def)
qed

lemma racing_reports: "reports_duplicates racing_engine"
proof -
  have "str_lower unique_users = [] @ ''unique constraint failed: users.'' @ ''username'' @ []" by code_simp
  then have "unique_violation \<lparr>de_diag = None, de_str = unique_users\<rparr>"
    unfolding unique_violation_def dbapi_error.simps by blast
  then show ?thesis by (simp add: reports_duplicates_def racing_engine_def memory_engine_def)
qed

theorem register_user_refused_witness:
  "let race = register_user (world_runtime sample_lib) sample_policy sqlalchemy_unit_of_work carol racing_world;
       taken = sample_register sample_policy (carol\<lparr>ru_username := ''alice''\<rparr>) sample_tables
   in fst race = Inl UserAlreadyExistsError \<and> committed_of (snd race) = committed_of racing_world \<and>
      reports_duplicates racing_engine \<and>
      fst taken = Inl UserAlreadyExistsError \<and> committed_of (snd taken) = sample_tables"
proof -
  let ?race = "register_user (world_runtime sample_lib) sample_policy sqlalchemy_unit_of_work carol racing_world"
  let ?taken = "sample_register sample_policy (carol\<lparr>ru_username := ''alice''\<rparr>) sample_tables"
  have race: "fst ?race = Inl UserAlreadyExistsError" and taken: "fst ?taken = Inl UserAlreadyExistsError"
    by code_simp+
  have passes: "request_refusal (world_runtime sample_lib :: memory world runtime) sample_policy carol = None"
    "request_refusal (world_runtime sample_lib :: memory world runtime) sample_policy (carol\<lparr>ru_username := ''alice''\<rparr>) = None"
    by code_simp+
  from register_user_refused [OF racing_idle prod.collapse [symmetric], of sample_lib sample_policy carol]
    race passes(1) have "committed_of (snd ?race) = committed_of racing_world"
    by (auto split: option.splits)
  moreover from register_user_refused [OF sample_idle prod.collapse [symmetric], of sample_lib sample_policy
      "carol\<lparr>ru_username := ''alice''\<rparr>"] taken [unfolded sample_register_def] passes(2)
  have "committed_of (snd ?taken) = sample_tables"
    by (auto simp: sample_register_def split: option.splits)
  ultimately show ?thesis using race taken racing_reports by (simp add: Let_def)
qed

section \<open>From registration to login\<close>

text \<open>
  C14. A registered user can log in with the username and the password of the registration
  as they were typed: an issue request against the rows the registration committed finds
  the new user, so it returns or fails in the database or the signing library, never with
  \<open>InvalidCredentialsError\<close>. The hypothesis is the law of the hashing library that a password
  verifies against its own hash.
\<close>

theorem registered_user_can_log_in:
  fixes w w2 :: "'db world"
  assumes "v_idle sql_view w"
    and "register_user (world_runtime L) settings sqlalchemy_unit_of_work data w = (Inr usr, w1)"
    and "\<And>h. h \<in> hashes_of L (ru_password data) \<Longrightarrow>
      lib_password_verify L (ru_password data) h = Inr True"
    and "v_idle sql_view w2" and "committed_of w2 = committed_of w1"
    and "issue_token (world_runtime L) token_settings sqlalchemy_unit_of_work
      \<lparr>it_username = ru_username data, it_password = ru_password data\<rparr> request_context w2 = (r, w3)"
  shows "(\<exists>x. r = Inr x \<and>
      access_token_for (lib_jwt_encode L) (readings_of L) (ts_jwt token_settings) (u_id usr)
        (tk_access_token x)) \<or>
    (\<exists>e. r = Inl e \<and> (storage_error e \<or> signing_error (lib_jwt_encode L) (ts_jwt token_settings) e))"
proof -
  let ?rt = "world_runtime L :: 'db world runtime"
  from transacts_ok [OF app.register_user_transacts assms(1,2)] obtain d p m h where
    d: "normalize_register_user_data ?rt data = Inr d"
    and p: "persist_user_data ?rt d = Inr p"
    and fresh: "\<forall>u \<in> set (t_users (committed_of w)). um_username u \<noteq> ru_username d"
    and h: "h \<in> hashes_of L (ru_password data)"
    and m: "values_of m = new_user_values p h" and usr: "usr = user_from_model m"
    and w1: "committed_of w1 = (committed_of w)\<lparr>t_users := t_users (committed_of w) @ [m]\<rparr>"
    by auto
  from persisted_values [OF p m] normalized_values [OF d]
  have m': "um_username m = ru_username d" "um_is_active m" "um_password_hash m = h"
    and name: "ru_username d = normalize_username ?rt (ru_username data)" by auto
  from fresh have none: "find (\<lambda>u. um_username u = ru_username d) (t_users (committed_of w)) = None"
    by (simp add: find_None_iff)
  have "find (\<lambda>u. um_username u = ru_username d) (t_users (committed_of w2)) = Some m"
    using none m' by (simp add: assms(5) w1 find_append)
  then have cred: "credentials_in ?rt (committed_of w2) (ru_username data) (ru_password data)
      = Inr (Some usr)"
    using m' assms(3) [OF h] by (simp add: credentials_in_def name usr)
  show ?thesis
  proof (cases r)
    case (Inl e)
    with transacts_err [OF app.issue_token_transacts assms(4) assms(6) [unfolded Inl]] cred
    show ?thesis by (cases "storage_error e") auto
  next
    case (Inr x)
    with transacts_ok [OF app.issue_token_transacts assms(4) assms(6) [unfolded Inr]] cred
    show ?thesis by auto
  qed
qed

theorem registered_user_can_log_in_witness:
  "let registered = sample_register sample_policy carol sample_tables;
       issued = issue_token (world_runtime sample_lib) sample_settings sqlalchemy_unit_of_work
         \<lparr>it_username = ru_username carol, it_password = ru_password carol\<rparr>
         \<lparr>tc_user_agent = ''curl'', tc_ip_address_trace = None\<rparr> (snd registered)
   in (\<exists>x. fst issued = Inr x \<and>
        access_token_for (lib_jwt_encode sample_lib) (readings_of sample_lib) (ts_jwt sample_settings)
          (u_id carol_user) (tk_access_token x)) \<or>
      (\<exists>e. fst issued = Inl e \<and> (storage_error e \<or>
        signing_error (lib_jwt_encode sample_lib) (ts_jwt sample_settings) e))"
proof -
  have idle: "v_idle sql_view (snd (sample_register sample_policy carol sample_tables))"
    using transacts_ok [OF app.register_user_transacts sample_idle sample_register_step] by simp
  have verify: "lib_password_verify sample_lib (ru_password carol) h = Inr True"
    if "h \<in> hashes_of sample_lib (ru_password carol)" for h
    using that by (auto simp: hashes_of_def sample_lib_def)
  show ?thesis
    unfolding Let_def
    by (rule registered_user_can_log_in [OF sample_idle sample_register_step verify idle refl
        prod.collapse [symmetric]])
qed

section \<open>Lookups\<close>

text \<open>
  C15. Only an active staff user gets an answer from the staff lookup: a lookup that returns
  was made by such a user and answers the stored user with that id, or None; it changes
  nothing. Any other actor is refused, an unknown or inactive one with
  \<open>AuthenticatedUserNotFoundError\<close>, one without the staff flag with \<open>UserPermissionDeniedError\<close>,
  whether or not the requested user exists.
\<close>

theorem staff_lookup_is_for_staff:
  assumes "v_idle sql_view w"
    and "staff_user_lookup sqlalchemy_unit_of_work user_id actor_id w = (r, w')"
  shows "case r of
      Inr x \<Rightarrow> x = user_in (committed_of w) user_id \<and> committed_of w' = committed_of w \<and>
        (\<exists>actor. active_user_in (committed_of w) actor_id = Some actor \<and> u_is_staff actor)
    | Inl e \<Rightarrow> committed_of w' = committed_of w \<and>
        (storage_error e \<or>
         (case active_user_in (committed_of w) actor_id of
            None \<Rightarrow> e = AuthenticatedUserNotFoundError
          | Some actor \<Rightarrow> e = UserPermissionDeniedError \<and> \<not> u_is_staff actor))"
proof (cases r)
  case (Inr x)
  with transacts_ok [OF app.staff_user_lookup_transacts assms(1) assms(2) [unfolded Inr]]
  show ?thesis by simp
next
  case (Inl e)
  have "wp (staff_user_lookup sqlalchemy_unit_of_work user_id actor_id) (\<lambda>x w'. True)
      (\<lambda>e w'. committed_of w' = committed_of w \<and>
        (storage_error e \<or>
         (case active_user_in (committed_of w) actor_id of
            None \<Rightarrow> e = AuthenticatedUserNotFoundError
          | Some actor \<Rightarrow> e = UserPermissionDeniedError \<and> \<not> u_is_staff actor))) w"
    by (rule wp_mono [OF app.staff_user_lookup_transacts [unfolded transacts_def, rule_format, OF assms(1)]])
      (auto split: option.splits)
  from wp_err [OF this assms(2) [unfolded Inl]] Inl show ?thesis by simp
qed

theorem staff_lookup_is_for_staff_witness:
  "fst (staff_user_lookup sqlalchemy_unit_of_work 1 1 (world_of sample_tables))
     = Inl UserPermissionDeniedError \<and>
   committed_of (snd (staff_user_lookup sqlalchemy_unit_of_work 1 1 (world_of sample_tables)))
     = sample_tables"
proof
  show run: "fst (staff_user_lookup sqlalchemy_unit_of_work 1 1 (world_of sample_tables))
     = Inl UserPermissionDeniedError" by code_simp
  from staff_lookup_is_for_staff [OF sample_idle prod.collapse [symmetric], of 1 1] run
  show "committed_of (snd (staff_user_lookup sqlalchemy_unit_of_work 1 1 (world_of sample_tables)))
     = sample_tables" by simp
qed

end
