(* ===== verification/Http_Properties.thy ===== *)
theory Http_Properties
  imports Http User_Properties
begin

text \<open>
  The properties of the HTTP adapters: which requests reach a use case and for whom, the
  status a refusal is answered with, what leaves the service, and the health checks.
\<close>

section \<open>Protected routes\<close>

text \<open>A rate limiter that works beside the database: it opens no transaction, commits nothing.\<close>

definition limiter_ok :: "'db world limiter \<Rightarrow> bool" where
  "limiter_ok limit =
     (\<forall>key cost w r w'. v_idle sql_view w \<and> limit key cost w = (r, w') \<longrightarrow>
        v_idle sql_view w' \<and> committed_of w' = committed_of w)"

lemma drawn_idle:
  "v_idle sql_view w \<Longrightarrow> v_idle sql_view (w\<lparr>w_draws := n\<rparr>)"
  "committed_of (w\<lparr>w_draws := n\<rparr>) = committed_of w"
  by (simp_all add: sql_idle_iff committed_of_def)

lemma revoke_endpoint_cases:
  assumes "v_idle sql_view w"
    and "revoke_token_endpoint (world_runtime L) sqlalchemy_unit_of_work state body w = (r, w')"
  shows "case r of
      Inr u \<Rightarrow> (\<exists>s. session_of_token (lib_sha256_hexdigest L) (committed_of w) (rt_refresh_token body) = Some s \<and>
         sr_user_id s = ars_user_id state \<and>
         (\<exists>n \<in> readings_of L. committed_of w' =
            update_session_row (sr_id s) (revoked_row (dt_utc n)) (committed_of w)))
    | Inl e \<Rightarrow> storage_error e \<or> committed_of w' = committed_of w"
proof -
  have same: "\<lparr>rt_refresh_token = rt_refresh_token body\<rparr> = body" by simp
  obtain r0 w0 where run: "revoke_token (world_runtime L) sqlalchemy_unit_of_work body
      (ars_user_id state) w = (r0, w0)" by fastforce
  show ?thesis
  proof (cases r0)
    case (Inr u)
    with transacts_ok [OF app.revoke_token_transacts assms(1) run [unfolded Inr]] assms(2) run
    show ?thesis by (auto simp: revoke_token_endpoint_def handler_runs same)
  next
    case (Inl e)
    have "w0 = w'" and r: "r = Inl (if e = Cancelled then Cancelled
        else if e = InvalidRefreshTokenError then http_error 401 ''Invalid refresh token''
        else if e = ExpiredRefreshTokenError then http_error 401 ''Refresh token expired or revoked''
        else if e = AuthenticatedUserNotFoundError then bearer_authentication_error ''User not found''
        else e)"
      using assms(2) run Inl by (auto simp: revoke_token_endpoint_def handler_runs same)
    with transacts_err [OF app.revoke_token_transacts assms(1) run [unfolded Inl]]
      storage_error_not_domain [of e]
    show ?thesis by (cases "storage_error e") auto
  qed
qed

text \<open>
  The revocation route acts for nobody but the subject of a verified access token: when it
  returns, the request carried a token that the signing library accepted at an instant of
  the clock, with the configured \<open>typ\<close>, and the session that was revoked belongs to the
  token's subject. In every other case, missing or invalid token, throttled user, foreign
  or spent refresh token, nothing is committed unless the database itself fails.
\<close>

theorem revoke_route_acts_for_subject:
  assumes "v_idle sql_view w" and "limiter_ok limit"
    and "revoke_token_route (world_runtime L) settings sqlalchemy_unit_of_work limit credentials
      request body w = (r, w')"
  shows "case r of
      Inr u \<Rightarrow> (\<exists>token i s. credentials = Some token \<and> subject_of_token L settings token i \<and>
         session_of_token (lib_sha256_hexdigest L) (committed_of w) (rt_refresh_token body) = Some s \<and>
         sr_user_id s = i \<and>
         (\<exists>n \<in> readings_of L. committed_of w' =
            update_session_row (sr_id s) (revoked_row (dt_utc n)) (committed_of w)))
    | Inl e \<Rightarrow> storage_error e \<or> committed_of w' = committed_of w"
  using assms(3) unfolding revoke_token_route_def
proof (cases rule: with_authentication_run)
  case (refused e)
  then show ?thesis by (simp add: committed_of_def)
next
  case (passed token payload i)
  let ?st = "\<lparr>ars_jwt_payload = payload, ars_user_id = i\<rparr>" and ?w = "w\<lparr>w_draws := Suc (w_draws w)\<rparr>"
  obtain l w1 where l: "limit (user_throttler_key i request) 1 ?w = (l, w1)" by fastforce
  with assms(2) drawn_idle(1) [OF assms(1)] have w1: "v_idle sql_view w1" "committed_of w1 = committed_of w"
    unfolding limiter_ok_def by (metis drawn_idle(2))+
  have throttle: "user_throttler limit 1 i request ?w =
      (case l of Inr True \<Rightarrow> (Inl too_many_requests, w1) | Inr False \<Rightarrow> (Inr (), w1) | Inl e \<Rightarrow> (Inl e, w1))"
    using l by (auto simp: user_throttler_def throttler_call_run split: sum.splits bool.splits)
  show ?thesis
  proof (cases "l = Inr False")
    case True
    with passed(3) throttle have "revoke_token_endpoint (world_runtime L) sqlalchemy_unit_of_work ?st body w1
        = (r, w')" by (simp add: bind_p_def)
    from revoke_endpoint_cases [OF w1(1) this] w1(2) passed(1,2) show ?thesis
      by (auto split: sum.splits)
  next
    case False
    with passed(3) throttle w1(2) show ?thesis
      by (auto simp: bind_p_def split: sum.splits bool.splits)
  qed
qed

definition open_limiter :: "memory world limiter" where
  "open_limiter key cost = ret False"

lemma open_limiter_ok: "limiter_ok open_limiter"
  by (auto simp: limiter_ok_def open_limiter_def)

definition sample_request :: http_request where
  "sample_request = \<lparr>rq_method = ''POST'', rq_path = ''/api/v1/auth/token/revoke'', rq_headers = [],
     rq_client = Some (''127.0.0.1'', 80)\<rparr>"

definition sample_revoke_route :: "string option \<Rightarrow> string \<Rightarrow> (exn + unit) \<times> memory world" where
  "sample_revoke_route credentials token =
     revoke_token_route (world_runtime sample_lib) (ts_jwt sample_settings)
       sqlalchemy_unit_of_work open_limiter credentials sample_request \<lparr>rt_refresh_token = token\<rparr>
       (world_of sample_tables)"

theorem revoke_route_acts_for_subject_witness:
  "fst (sample_revoke_route (Some ''1'') ''other'') = Inl (http_error 401 ''Invalid refresh token'') \<and>
   committed_of (snd (sample_revoke_route (Some ''1'') ''other'')) = sample_tables"
proof
  show run: "fst (sample_revoke_route (Some ''1'') ''other'')
      = Inl (http_error 401 ''Invalid refresh token'')" by code_simp
  then have "revoke_token_route (world_runtime sample_lib) (ts_jwt sample_settings)
       sqlalchemy_unit_of_work open_limiter (Some ''1'') sample_request \<lparr>rt_refresh_token = ''other''\<rparr>
       (world_of sample_tables)
     = (Inl (http_error 401 ''Invalid refresh token''), snd (sample_revoke_route (Some ''1'') ''other''))"
    by (simp add: sample_revoke_route_def prod_eq_iff)
  from revoke_route_acts_for_subject [OF sample_idle open_limiter_ok this]
  show "committed_of (snd (sample_revoke_route (Some ''1'') ''other'')) = sample_tables"
    by simp
qed

section \<open>Status codes\<close>

text \<open>
  A refused refresh is answered 401 and nothing else: unless the database or the signing
  library fails, the only exception the refresh endpoint lets out is an \<open>HTTPException\<close> of
  status 401 (the signing library
  raises errors of its own only), it says \<open>Refresh token expired or revoked\<close> exactly for a session that is
  spent, and nothing is committed.
\<close>

theorem refresh_endpoint_answers_401:
  assumes "v_idle sql_view w"
    and "refresh_token_endpoint (world_runtime L) settings sqlalchemy_unit_of_work body w = (Inl e, w')"
    and "\<not> storage_error e" and "\<not> signing_error (lib_jwt_encode L) (ts_jwt settings) e"
    and "\<And>c key alg e'. lib_jwt_encode L c key alg = Inl e' \<Longrightarrow>
      e' \<notin> {InvalidRefreshTokenError, ExpiredRefreshTokenError}"
  shows "committed_of w' = committed_of w \<and>
    (case session_of_token (lib_sha256_hexdigest L) (committed_of w) (rt_refresh_token body) of
       None \<Rightarrow> e = http_error 401 ''Invalid refresh token''
     | Some r \<Rightarrow>
         e = http_error 401 ''Refresh token expired or revoked'' \<and> spent_at (readings_of L) r \<or>
         e = http_error 401 ''Invalid refresh token'' \<and> usable_at (readings_of L) r \<and>
           active_user_in (committed_of w) (sr_user_id r) = None)"
proof -
  have same: "\<lparr>rt_refresh_token = rt_refresh_token body\<rparr> = body" by simp
  from assms(2) obtain e0 where
    run: "refresh_token (world_runtime L) settings sqlalchemy_unit_of_work body w = (Inl e0, w')"
    and e: "e = (if e0 = Cancelled then Cancelled
      else if e0 = InvalidRefreshTokenError then http_error 401 ''Invalid refresh token''
      else if e0 = ExpiredRefreshTokenError then http_error 401 ''Refresh token expired or revoked''
      else e0)"
    by (auto simp: refresh_token_endpoint_def handler_runs same split: prod.splits sum.splits)
  have "\<not> storage_error e0"
    using assms(3) e storage_error_not_domain [of e0] by (auto split: if_splits)
  moreover have "\<not> signing_error (lib_jwt_encode L) (ts_jwt settings) e0"
  proof (cases "e0 \<in> {InvalidRefreshTokenError, ExpiredRefreshTokenError}")
    case True
    then show ?thesis using assms(5) by (fastforce simp: signing_error_def)
  next
    case False
    with e assms(4) show ?thesis by (auto split: if_splits)
  qed
  ultimately show ?thesis
    using transacts_err [OF app.refresh_token_transacts assms(1) run] e
    by (auto simp: token_rejected_def split: option.splits)
qed

theorem refresh_endpoint_answers_401_witness:
  "let run = refresh_token_endpoint (world_runtime sample_lib) sample_settings sqlalchemy_unit_of_work
      \<lparr>rt_refresh_token = ''old''\<rparr> (world_of inactive_tables)
   in fst run = Inl (http_error 401 ''Invalid refresh token'') \<and> committed_of (snd run) = inactive_tables"
proof -
  let ?run = "refresh_token_endpoint (world_runtime sample_lib) sample_settings sqlalchemy_unit_of_work
      \<lparr>rt_refresh_token = ''old''\<rparr> (world_of inactive_tables)"
  let ?e = "http_error 401 ''Invalid refresh token''"
  have run: "fst ?run = Inl ?e" by code_simp
  then have eq: "?run = (Inl ?e, snd ?run)" by (simp add: prod_eq_iff)
  have e: "\<not> storage_error ?e" "\<not> signing_error (lib_jwt_encode sample_lib) (ts_jwt sample_settings) ?e"
    by (simp_all add: http_error_def signing_error_def sample_lib_def)
  have lib: "e' \<notin> {InvalidRefreshTokenError, ExpiredRefreshTokenError}"
    if "lib_jwt_encode sample_lib c key alg = Inl e'" for c key alg e'
    using that by (simp add: sample_lib_def)
  from refresh_endpoint_answers_401 [OF inactive_idle eq e lib] run
  show ?thesis by (simp add: Let_def)
qed

lemma stored_refusal_errors:
  "stored_refusal rt t data = Some e \<Longrightarrow> e \<in> {UserAlreadyExistsError, ValidationError}"
  by (auto simp: stored_refusal_def bind_eq_Some_conv split: if_splits)

lemma request_refusal_errors:
  "request_refusal rt settings data = Some e \<Longrightarrow> e \<in> {ValidationError, WeakPasswordError}"
  by (auto simp: request_refusal_Some)

text \<open>The run of the endpoint, from the run of the use case.\<close>

lemma create_user_endpoint_run:
  assumes dto: "make_register_user_dto rt (ru_email body) (ru_username body) (ru_first_name body)
      (ru_last_name body) (ru_password body) = Inr data"
    and run: "register_user rt settings uow data w = (r0, w')"
  shows "create_user_endpoint rt settings uow body w = (case r0 of
      Inr usr \<Rightarrow> (Inr (user_schema_of usr), w')
    | Inl e \<Rightarrow> (Inl (if e = WeakPasswordError
          then http_error 400 ''Password does not meet the strength requirements''
        else if e = UserAlreadyExistsError
          then http_error 409 ''A user with the given username or email already exists'' else e), w'))"
proof -
  have "bind_p (register_user rt settings uow data) (\<lambda>usr. ret (user_schema_of usr)) w
      = (map_sum id user_schema_of r0, w')"
    using run by (cases r0) (simp_all add: bind_p_def ret_def)
  then show ?thesis by (cases r0) (simp_all add: create_user_endpoint_def handler_runs dto)
qed

text \<open>
  C19. The registration endpoint's answers, case by case: a body that builds no command and a
  request that does not validate once normalized raise \<open>ValidationError\<close>, which no handler
  translates; a weak password is answered 400 before anything runs; a stored user with the
  normalized username or e-mail makes the answer 409, or the database failed. Otherwise the answer
  is the public fields of the one row that was added, an account without privileges, or 409 because
  the database refused the row as a duplicate, or the failure of the database, which is no
  \<open>IntegrityError\<close> when the database reports duplicates as PostgreSQL or SQLite do. Nothing is
  stored by a refusal.
\<close>

theorem create_user_endpoint_answers:
  fixes w :: "'db world"
  assumes "v_idle sql_view w"
    and "create_user_endpoint (world_runtime L) settings sqlalchemy_unit_of_work body w = (r, w')"
  shows "(case make_register_user_dto (world_runtime L :: 'db world runtime) (ru_email body) (ru_username body)
        (ru_first_name body) (ru_last_name body) (ru_password body) of
      Inl e \<Rightarrow> r = Inl ValidationError \<and> w' = w
    | Inr data \<Rightarrow>
        (case request_refusal (world_runtime L :: 'db world runtime) settings data of
          Some e \<Rightarrow> w' = w \<and> r = Inl (if e = WeakPasswordError
            then http_error 400 ''Password does not meet the strength requirements'' else ValidationError)
        | None \<Rightarrow>
            (case stored_refusal (world_runtime L :: 'db world runtime) (committed_of w) data of
              Some e \<Rightarrow> committed_of w' = committed_of w \<and>
                ((\<exists>e'. r = Inl e' \<and> storage_error e') \<or> r = Inl (if e = UserAlreadyExistsError
                  then http_error 409 ''A user with the given username or email already exists''
                  else ValidationError))
            | None \<Rightarrow>
                (case r of
                  Inr x \<Rightarrow> \<not> us_is_staff x \<and> \<not> us_is_superuser x \<and>
                    (\<exists>m. committed_of w' = (committed_of w)\<lparr>t_users := t_users (committed_of w) @ [m]\<rparr> \<and>
                         x = user_schema_of (user_from_model m))
                | Inl e \<Rightarrow> storage_error e \<or>
                    e = http_error 409 ''A user with the given username or email already exists'' \<and>
                    committed_of w' = committed_of w \<and>
                    (\<exists>v db orig db'. uv_username v = lib_nfkc L (strip (ru_username data)) \<and>
                       e_insert_user (w_engine w) v db = (Inl (IntegrityError orig), db') \<and>
                       unique_violation orig)))))
    \<and> (reports_duplicates (w_engine w) \<longrightarrow> (\<forall>orig. r \<noteq> Inl (IntegrityError orig)))"
proof (cases "make_register_user_dto (world_runtime L :: 'db world runtime) (ru_email body)
    (ru_username body) (ru_first_name body) (ru_last_name body) (ru_password body)")
  case (Inl e)
  with make_register_user_dto_error [OF Inl] assms(2) show ?thesis
    by (auto simp: create_user_endpoint_def handler_runs raise_def)
next
  case dto: (Inr data)
  obtain r0 w0 where run: "register_user (world_runtime L) settings sqlalchemy_unit_of_work data w
      = (r0, w0)" by fastforce
  note endpoint = assms(2) [unfolded create_user_endpoint_run [OF dto run]]
  from sparesD [OF spares_register_user _ run]
  have "reports_duplicates (w_engine w) \<longrightarrow> (\<forall>orig. r0 \<noteq> Inl (IntegrityError orig))" by blast
  with endpoint have spared: "reports_duplicates (w_engine w) \<longrightarrow> (\<forall>orig. r \<noteq> Inl (IntegrityError orig))"
    by (cases r0) (auto simp: http_error_def split: if_splits)
  have storage: "e \<notin> {WeakPasswordError, UserAlreadyExistsError}" if "storage_error e" for e
    using that by auto
  show ?thesis
  proof (cases "request_refusal (world_runtime L :: 'db world runtime) settings data")
    case (Some e)
    from request_refused [OF Some, of sqlalchemy_unit_of_work w] run
    have "r0 = Inl e" "w0 = w" by simp_all
    with endpoint request_refusal_errors [OF Some] spared show ?thesis
      unfolding dto sum.case Some option.case by auto
  next
    case None
    note outcome = registration_outcome [OF assms(1) run None]
    show ?thesis
    proof (cases "stored_refusal (world_runtime L :: 'db world runtime) (committed_of w) data")
      case (Some e)
      from outcome [unfolded Some option.case] endpoint storage
      have "committed_of w' = committed_of w \<and> ((\<exists>e'. r = Inl e' \<and> storage_error e') \<or> r = Inl (if e = UserAlreadyExistsError
          then http_error 409 ''A user with the given username or email already exists'' else e))"
        using stored_refusal_errors [OF Some] by (auto split: if_splits)
      with stored_refusal_errors [OF Some] spared show ?thesis
        unfolding dto sum.case None Some option.case by auto
    next
      case free: None
      show ?thesis
      proof (cases r0)
        case (Inl e)
        with endpoint have e: "r = Inl (if e = WeakPasswordError
            then http_error 400 ''Password does not meet the strength requirements''
            else if e = UserAlreadyExistsError
            then http_error 409 ''A user with the given username or email already exists'' else e)" "w' = w0"
          by simp_all
        from outcome Inl have "storage_error e \<or> e = UserAlreadyExistsError \<and> committed_of w0 = committed_of w \<and>
            (\<exists>v db orig db'. uv_username v = lib_nfkc L (strip (ru_username data)) \<and>
               e_insert_user (w_engine w) v db = (Inl (IntegrityError orig), db') \<and> unique_violation orig)"
          unfolding free option.case by blast
        with e spared storage [of e] show ?thesis
          unfolding dto sum.case None free option.case by auto
      next
        case (Inr usr)
        from transacts_ok [OF app.register_user_transacts assms(1) run [unfolded Inr]]
        have "\<exists>m. committed_of w0 = (committed_of w)\<lparr>t_users := t_users (committed_of w) @ [m]\<rparr> \<and>
          usr = user_from_model m \<and> \<not> um_is_staff m \<and> \<not> um_is_superuser m"
          by (fastforce dest: persisted_values)
        with Inr endpoint spared show ?thesis
          unfolding dto sum.case None free option.case
          by (auto simp: user_schema_of_def user_from_model_def)
      qed
    qed
  qed
qed

theorem create_user_endpoint_answers_witness:
  "let taken = create_user_endpoint (world_runtime sample_lib) sample_policy sqlalchemy_unit_of_work
      (carol\<lparr>ru_username := ''alice''\<rparr>) (world_of sample_tables);
       weak = create_user_endpoint (world_runtime sample_lib) sample_policy sqlalchemy_unit_of_work
      (carol\<lparr>ru_password := ''12345678''\<rparr>) (world_of sample_tables)
   in fst taken = Inl (http_error 409 ''A user with the given username or email already exists'') \<and>
      committed_of (snd taken) = sample_tables \<and>
      weak = (Inl (http_error 400 ''Password does not meet the strength requirements''), world_of sample_tables)"
proof -
  let ?rt = "world_runtime sample_lib :: memory world runtime"
  let ?taken = "carol\<lparr>ru_username := ''alice''\<rparr>" and ?weak = "carol\<lparr>ru_password := ''12345678''\<rparr>"
  note answers = create_user_endpoint_answers [OF sample_idle prod.collapse [symmetric],
      where L = sample_lib and settings = sample_policy]
  have dto: "make_register_user_dto ?rt (ru_email ?taken) (ru_username ?taken) (ru_first_name ?taken)
        (ru_last_name ?taken) (ru_password ?taken) = Inr ?taken"
    "make_register_user_dto ?rt (ru_email ?weak) (ru_username ?weak) (ru_first_name ?weak)
        (ru_last_name ?weak) (ru_password ?weak) = Inr ?weak"
    by code_simp+
  have verdict: "request_refusal ?rt sample_policy ?taken = None"
    "stored_refusal ?rt sample_tables ?taken = Some UserAlreadyExistsError"
    "request_refusal ?rt sample_policy ?weak = Some WeakPasswordError"
    by code_simp+
  have run: "fst (create_user_endpoint ?rt sample_policy sqlalchemy_unit_of_work ?taken (world_of sample_tables))
      = Inl (http_error 409 ''A user with the given username or email already exists'')"
    by code_simp
  from answers [of ?taken] verdict dto
  have "committed_of (snd (create_user_endpoint ?rt sample_policy sqlalchemy_unit_of_work ?taken
      (world_of sample_tables))) = sample_tables" by simp
  moreover from answers [of ?weak] verdict dto
  have "create_user_endpoint ?rt sample_policy sqlalchemy_unit_of_work ?weak (world_of sample_tables)
    = (Inl (http_error 400 ''Password does not meet the strength requirements''), world_of sample_tables)"
    by (simp add: prod_eq_iff)
  ultimately show ?thesis using run by (simp add: Let_def)
qed

section \<open>Access tokens round trip\<close>

text \<open>
  What the code relies on in PyJWT: a token signed with a key decodes, with that key and
  algorithm, to the claims that were signed, times as whole POSIX seconds, from the second
  of \<open>iat\<close> until before the second of \<open>exp\<close>; from then on it is refused as expired.
\<close>

definition posix_epoch :: int where
  "posix_epoch = 719162 * usec_per_day"

definition posix_seconds :: "datetime \<Rightarrow> int" where
  "posix_seconds d = (dt_instant d - posix_epoch) div 1000000"

fun wire_claim :: "claim \<Rightarrow> claim" where
  "wire_claim (ClaimTime d) = ClaimInt (posix_seconds d)"
| "wire_claim c = c"

definition jwt_library_ok ::
    "(claims \<Rightarrow> string \<Rightarrow> string \<Rightarrow> exn + string) \<Rightarrow>
     (int \<Rightarrow> string \<Rightarrow> string \<Rightarrow> string list \<Rightarrow> string list \<Rightarrow> exn + claims) \<Rightarrow> bool" where
  "jwt_library_ok encode decode =
     (\<forall>claims key alg token now required iat expires subject.
        encode claims key alg = Inr token \<and>
        map_of claims ''iat'' = Some (ClaimTime iat) \<and>
        map_of claims ''exp'' = Some (ClaimTime expires) \<and>
        map_of claims ''sub'' = Some (ClaimStr subject) \<and>
        (\<forall>c \<in> set required. map_of claims c \<noteq> None) \<and>
        posix_epoch + 1000000 * posix_seconds iat \<le> now \<longrightarrow>
        (if now < posix_epoch + 1000000 * posix_seconds expires
         then \<exists>payload. decode now token key [alg] required = Inr payload \<and>
                (\<forall>c. map_of payload c = map_option wire_claim (map_of claims c))
         else decode now token key [alg] required = Inl JWTExpiredSignatureError))"

lemma posix_seconds_bounds:
  "posix_epoch + 1000000 * posix_seconds d \<le> dt_instant d"
  "dt_instant d - 1000000 < posix_epoch + 1000000 * posix_seconds d"
proof -
  let ?x = "dt_instant d - posix_epoch"
  have "?x mod 1000000 + 1000000 * (?x div 1000000) = ?x" "0 \<le> ?x mod 1000000" "?x mod 1000000 < 1000000"
    by simp_all
  then show "posix_epoch + 1000000 * posix_seconds d \<le> dt_instant d"
    "dt_instant d - 1000000 < posix_epoch + 1000000 * posix_seconds d"
    unfolding posix_seconds_def by linarith+
qed

lemma issue_access_token_run:
  assumes "issue_access_token (world_runtime L) settings user_id kwargs w = (Inr token, w')"
  obtains expires where
    "dt_instant expires = lib_clock L (w_draws w) + jss_access_token_expire_minutes settings * 60000000"
    and "lib_jwt_encode L (access_token_claims settings kwargs user_id (dt_utc (lib_clock L (w_draws w)))
      expires) (jss_secret_key settings) (jss_algorithm settings) = Inr token"
  using assms
  by (auto simp: issue_access_token_def run_iffs world_runtime_def draw_def
      dest!: access_token_expire_value(1) time_arithmetic(4) intro: that)

text \<open>
  C18. The access token of a user authenticates that user, and only while it lives: presented
  to the bearer dependency after it was issued and more than a second before its lifetime
  is over, it yields the id it was issued for; once the lifetime is over, it is answered
  401 with \<open>Token has expired\<close> and the bearer challenge.
\<close>

theorem access_token_round_trip:
  assumes "jwt_library_ok (lib_jwt_encode L) (lib_jwt_decode L)"
    and "issue_access_token (world_runtime L) settings user_id [] w = (Inr token, w1)"
    and "\<bar>user_id\<bar> < 10 ^ int_max_str_digits"
    and "lib_clock L (w_draws w) \<le> lib_clock L (w_draws w2)"
    and "jwt_auth_factory (world_runtime L) settings (Some token) w2 = (r, w3)"
  shows "(lib_clock L (w_draws w2) + 1000000
        \<le> lib_clock L (w_draws w) + jss_access_token_expire_minutes settings * 60000000 \<longrightarrow>
      (\<exists>payload. r = Inr (Some \<lparr>ars_jwt_payload = payload, ars_user_id = user_id\<rparr>))) \<and>
    (lib_clock L (w_draws w) + jss_access_token_expire_minutes settings * 60000000
        \<le> lib_clock L (w_draws w2) \<longrightarrow>
      r = Inl (bearer_authentication_error ''Token has expired''))"
proof -
  let ?iat = "lib_clock L (w_draws w)" and ?now = "lib_clock L (w_draws w2)"
  from issue_access_token_run [OF assms(2)] obtain expires where
    exp: "dt_instant expires = ?iat + jss_access_token_expire_minutes settings * 60000000"
    and enc: "lib_jwt_encode L (access_token_claims settings [] user_id (dt_utc ?iat) expires)
      (jss_secret_key settings) (jss_algorithm settings) = Inr token" .
  let ?claims = "access_token_claims settings [] user_id (dt_utc ?iat) expires"
  let ?dec = "lib_jwt_decode L ?now token (jss_secret_key settings) [jss_algorithm settings] required_claims"
  have iat: "posix_epoch + 1000000 * posix_seconds (dt_utc ?iat) \<le> ?now"
    using posix_seconds_bounds(1) [of "dt_utc ?iat"] assms(4) by simp
  have present: "\<forall>c \<in> set required_claims. map_of ?claims c \<noteq> None"
    by (auto simp: required_claims_def access_token_claims_of)
  have dec: "if ?now < posix_epoch + 1000000 * posix_seconds expires
      then \<exists>payload. ?dec = Inr payload \<and> (\<forall>c. map_of payload c = map_option wire_claim (map_of ?claims c))
      else ?dec = Inl JWTExpiredSignatureError"
    using assms(1) [unfolded jwt_library_ok_def, rule_format, OF conjI [OF enc
        conjI [OF access_token_claims_of(3) conjI [OF access_token_claims_of(2)
        conjI [OF access_token_claims_of(1) conjI [OF present iat]]]]]] .
  have alive: "\<exists>payload. r = Inr (Some \<lparr>ars_jwt_payload = payload, ars_user_id = user_id\<rparr>)"
    if "?now < posix_epoch + 1000000 * posix_seconds expires"
  proof -
    from dec that obtain payload where p: "?dec = Inr payload"
      "map_of payload c = map_option wire_claim (map_of ?claims c)" for c by auto
    from p(2) [of "''typ''"] p(2) [of "''sub''"]
    have "map_of payload ''typ'' = Some (ClaimStr (jss_typ settings))"
      "map_of payload ''sub'' = Some (ClaimStr (str_of_int user_id))"
      by (simp_all add: access_token_claims_of)
    with assms(5) p(1) show ?thesis
      by (auto simp: jwt_auth_factory_run decode_token_run Let_def subject_of_str
          int_of_str_of_int [OF assms(3)])
  qed
  have dead: "r = Inl (bearer_authentication_error ''Token has expired'')"
    if "\<not> ?now < posix_epoch + 1000000 * posix_seconds expires"
    using dec that assms(5) by (auto simp: jwt_auth_factory_run decode_token_run Let_def)
  from alive dead posix_seconds_bounds [of expires] exp show ?thesis by force
qed

text \<open>A signing library with one token, which keeps the law.\<close>

definition sample_claims :: claims where
  "sample_claims = access_token_claims (ts_jwt sample_settings) [] 1 (dt_utc 1000) (dt_utc 900001000)"

definition token_lib :: lib where
  "token_lib = sample_lib
     \<lparr>lib_jwt_encode := (\<lambda>claims key alg.
        if claims = sample_claims then Inr ''signed'' else Inl JWTInvalidTokenError),
      lib_jwt_decode := (\<lambda>now token key algs required.
        if token \<noteq> ''signed'' then Inl JWTInvalidTokenError
        else if now < posix_epoch + 1000000 * posix_seconds (dt_utc 900001000)
        then Inr (map (\<lambda>(c, v). (c, wire_claim v)) sample_claims)
        else Inl JWTExpiredSignatureError)\<rparr>"

lemma token_lib_ok: "jwt_library_ok (lib_jwt_encode token_lib) (lib_jwt_decode token_lib)"
proof -
  have exp: "map_of sample_claims ''exp'' = Some (ClaimTime (dt_utc 900001000))"
    by (simp add: sample_claims_def access_token_claims_of)
  have wire: "map_of (map (\<lambda>(c, v). (c, wire_claim v)) xs) k = map_option wire_claim (map_of xs k)"
    for xs and k :: string
    by (induction xs) auto
  show ?thesis
    by (auto simp: jwt_library_ok_def token_lib_def exp wire split: if_splits)
qed

definition token_run :: "(exn + string) \<times> memory world" where
  "token_run = issue_access_token (world_runtime token_lib) (ts_jwt sample_settings) 1 []
     (world_of sample_tables)"

theorem access_token_round_trip_witness:
  "\<exists>payload. fst (jwt_auth_factory (world_runtime token_lib) (ts_jwt sample_settings) (Some ''signed'')
      (snd token_run)) = Inr (Some \<lparr>ars_jwt_payload = payload, ars_user_id = 1\<rparr>)"
proof -
  have "fst token_run = Inr ''signed''" by code_simp
  then have run: "issue_access_token (world_runtime token_lib) (ts_jwt sample_settings) 1 []
      (world_of sample_tables) = (Inr ''signed'', snd token_run)"
    by (simp add: token_run_def prod_eq_iff)
  have clock: "lib_clock token_lib (w_draws (world_of sample_tables)) = 1000"
    "lib_clock token_lib (w_draws (snd token_run)) = 1001" by code_simp+
  have "(1 :: int) < 10 ^ int_max_str_digits"
    by (rule one_less_power) (simp_all add: int_max_str_digits_def)
  then have small: "\<bar>1 :: int\<bar> < 10 ^ int_max_str_digits" by simp
  from access_token_round_trip [OF token_lib_ok run small _ prod.collapse [symmetric],
      where ?w2.0 = "snd token_run"] clock
  show ?thesis by (simp add: sample_settings_def)
qed

section \<open>Health\<close>

lemma check_database_commits_nothing:
  assumes "check_database w = (r, w')" and "engine_ok (w_engine w)"
  shows "committed_of w' = committed_of w \<and> w_scope w' = w_scope w"
proof -
  obtain n w1 where s: "open_session w = (Inr n, w1)"
    and w1: "w_engine w1 = w_engine w" "w_db w1 = w_db w" "w_scope w1 = w_scope w"
    by (cases "open_session w") (auto dest: open_session_run)
  obtain p d where p: "e_ping (w_engine w1) (w_db w1) = (p, d)" by fastforce
  obtain c d' where c: "e_close (w_engine w1) d = (c, d')" by fastforce
  have "ping_ok (w_engine w)" using assms(2) by (simp add: engine_ok_def)
  with p w1 have 1: "e_committed (w_engine w) d = e_committed (w_engine w) (w_db w)"
    unfolding ping_ok_def by (metis (mono_tags, lifting) case_prod_conv old.sum.simps(5,6) sum.exhaust)
  have 2: "e_committed (w_engine w) d' = e_committed (w_engine w) d"
    using c w1 transaction_laws(7,8) [OF assms(2)] by (cases c) auto
  have "w' = w1\<lparr>w_db := d'\<rparr>"
    using assms(1) s p c
    by (cases p; cases c) (auto simp: check_database_def bind_p_def stmt_def raise_def)
  with 1 2 w1 show ?thesis by (simp add: committed_of_def)
qed

text \<open>
  The health endpoint answers \<open>ok\<close> exactly when the database check returned and 503 exactly
  when the check raised an exception; only a cancellation passes through. Over the
  WebSocket the same outcomes send, after the accept, one status message and one close
  with code 1000 or 1011, in this order.
\<close>

theorem health_reports_database:
  "health_check_endpoint check w =
     (case check w of
        (Inr u, w') \<Rightarrow> (Inr ''ok'', w')
      | (Inl e, w') \<Rightarrow>
          (Inl (if e = Cancelled then Cancelled else http_error 503 ''Service is unavailable''), w')) \<and>
   health_check_websocket_endpoint websocket check =
     bind_p (websocket WsAccept) (\<lambda>accepted w.
       case check w of
         (Inl Cancelled, w') \<Rightarrow> (Inl Cancelled, w')
       | (r, w') \<Rightarrow>
           bind_p (websocket (WsSendStatus (case r of Inr u \<Rightarrow> ''ok'' | Inl e \<Rightarrow> ''unavailable'')))
             (\<lambda>sent. websocket (WsClose (case r of Inr u \<Rightarrow> 1000 | Inl e \<Rightarrow> 1011))) w')"
proof
  have sys: "system_health check w = (case check w of
      (Inr u, w') \<Rightarrow> (Inr u, w')
    | (Inl e, w') \<Rightarrow> (Inl (if e = Cancelled then Cancelled else HealthCheckError), w'))" for w
    by (auto simp: system_health_def try_except_def raise_def exception_iff_not_cancelled
        simp del: isinstance_simps split: prod.splits sum.splits)
  show "health_check_endpoint check w =
     (case check w of
        (Inr u, w') \<Rightarrow> (Inr ''ok'', w')
      | (Inl e, w') \<Rightarrow>
          (Inl (if e = Cancelled then Cancelled else http_error 503 ''Service is unavailable''), w'))"
    by (auto simp: health_check_endpoint_def handler_runs bind_p_def try_except_def sys ret_def raise_def
        split: prod.splits sum.splits)
  have wrap: "add_exception_handler base_handle_exception m = m" for m :: "('a, exn, unit) prog"
    by (rule ext) (auto simp: handler_runs split: prod.splits sum.splits)
  let ?m = "try_except (bind_p (system_health check) (\<lambda>healthy. ret True)) (\<lambda>exception.
      if isinstance exception HealthCheckError_class then ret False else raise exception)"
  have attempt: "?m w = (case check w of
      (Inr u, w') \<Rightarrow> (Inr True, w')
    | (Inl e, w') \<Rightarrow> (if e = Cancelled then Inl Cancelled else Inr False, w'))" for w
    by (auto simp: try_except_def bind_p_def sys ret_def raise_def split: prod.splits sum.splits)
  show "health_check_websocket_endpoint websocket check =
     bind_p (websocket WsAccept) (\<lambda>accepted w.
       case check w of
         (Inl Cancelled, w') \<Rightarrow> (Inl Cancelled, w')
       | (r, w') \<Rightarrow>
           bind_p (websocket (WsSendStatus (case r of Inr u \<Rightarrow> ''ok'' | Inl e \<Rightarrow> ''unavailable'')))
             (\<lambda>sent. websocket (WsClose (case r of Inr u \<Rightarrow> 1000 | Inl e \<Rightarrow> 1011))) w')"
    unfolding health_check_websocket_endpoint_def wrap
    by (rule arg_cong [where f = "bind_p (websocket WsAccept)"])
      (auto simp: fun_eq_iff bind_p_def [of ?m] attempt simp del: isinstance_simps
        split: prod.splits sum.splits exn.splits)
qed

section \<open>A gap in the registration's error handling\<close>

text \<open>
  The username of a registration is checked against its length bound before it is
  normalized, and again when the normalized data is built. A username that grows under
  NFKC (one ligature may become eighteen letters) passes the first check and fails the
  second inside the use case; no handler of the controller translates that error.
\<close>

definition growing_lib :: lib where
  "growing_lib = sample_lib\<lparr>lib_nfkc := (\<lambda>s. s @ s)\<rparr>"

definition long_name :: register_user_dto where
  "long_name = carol\<lparr>ru_username := replicate 100 (CHR ''x'')\<rparr>"

text \<open>
  A request that the request schema accepts can make the registration endpoint raise an
  exception that is no \<open>HTTPException\<close>, which the framework answers with status 500: a
  username within its bound whose normal form is longer than the bound.
\<close>

theorem long_normal_form_is_no_client_error:
  "make_register_user_dto (world_runtime growing_lib) (ru_email long_name) (ru_username long_name)
     (ru_first_name long_name) (ru_last_name long_name) (ru_password long_name) = Inr long_name \<and>
   fst (create_user_endpoint (world_runtime growing_lib) sample_policy sqlalchemy_unit_of_work long_name
     (world_of sample_tables)) = Inl ValidationError"
  by code_simp

end
