(* ===== verification/Application.thy ===== *)
theory Application
  imports Requests Unit_Of_Work
begin

text \<open>
  How the service is put together: the settings of its parts (infrastructure/settings.py,
  environment.py, session.py, logfire, entrypoints/fastapi/settings), the steps of the
  bootstrap (ioc/container.py), the FastAPI application that entrypoints/fastapi/factory.py
  builds (its middleware in the order requests pass it, and its routes in the order they
  are tried), the throttlers the factories hand out, and the end of the lifespan.
\<close>

section \<open>Settings\<close>

datatype environment = Local | Development | Staging | Production | Test | Ci

definition environment_value :: "environment \<Rightarrow> string" where
  "environment_value e =
     (case e of Local \<Rightarrow> ''local'' | Development \<Rightarrow> ''development'' | Staging \<Rightarrow> ''staging''
      | Production \<Rightarrow> ''production'' | Test \<Rightarrow> ''test'' | Ci \<Rightarrow> ''ci'')"

record application_settings =
  as_environment :: environment
  as_version :: string
  as_time_zone :: string

definition default_application_settings :: application_settings where
  "default_application_settings =
     \<lparr>as_environment = Production, as_version = ''0.1.0'', as_time_zone = ''UTC''\<rparr>"

record fastapi_settings =
  fs_allowed_hosts :: "string list"

definition default_fastapi_settings :: fastapi_settings where
  "default_fastapi_settings = \<lparr>fs_allowed_hosts = [''localhost'', ''127.0.0.1'']\<rparr>"

record cors_settings =
  co_allow_credentials :: bool
  co_allow_origins :: "string list"
  co_allow_methods :: "string list"
  co_allow_headers :: "string list"

definition default_cors_settings :: cors_settings where
  "default_cors_settings =
     \<lparr>co_allow_credentials = True, co_allow_origins = [''http://localhost''],
      co_allow_methods = [''*''], co_allow_headers = [''*'']\<rparr>"

record logfire_settings =
  lf_enabled :: bool
  lf_service_name :: string
  lf_service_version :: string
  lf_environment :: string
  lf_token :: "string option"

definition logfire_is_enabled :: "logfire_settings \<Rightarrow> bool" where
  "logfire_is_enabled s = (lf_enabled s \<and> lf_token s \<noteq> None)"

record database_settings =
  ds_url :: string
  ds_echo :: bool

definition async_url :: "database_settings \<Rightarrow> string" where
  "async_url s =
     (let raw_url = ds_url s
      in if startswith raw_url ''postgres://''
         then replace_first ''postgres://'' ''postgresql+psycopg://'' raw_url
         else if startswith raw_url ''postgresql://''
         then replace_first ''postgresql://'' ''postgresql+psycopg://'' raw_url
         else if startswith raw_url ''sqlite:///''
         then replace_first ''sqlite:///'' ''sqlite+aiosqlite:///'' raw_url
         else raw_url)"

section \<open>Telemetry and logging\<close>

text \<open>What a call of the Logfire client is given; the client is no code of the repository.\<close>

record logfire_configuration =
  lc_service_name :: string
  lc_service_version :: string
  lc_environment :: string
  lc_token :: string
  lc_extra_patterns :: "string list"

definition logfire_configure :: "logfire_settings \<Rightarrow> logfire_configuration option" where
  "logfire_configure s =
     (case lf_token s of
        None \<Rightarrow> None
      | Some token \<Rightarrow>
          if \<not> logfire_is_enabled s then None
          else Some \<lparr>lc_service_name = lf_service_name s, lc_service_version = lf_service_version s,
            lc_environment = lf_environment s, lc_token = token,
            lc_extra_patterns = [''access_token'', ''refresh_token'']\<rparr>)"

definition instrument_libraries :: "logfire_settings \<Rightarrow> string list" where
  "instrument_libraries s =
     (if \<not> logfire_is_enabled s then []
      else [''requests'', ''psycopg'', ''httpx'', ''redis'', ''pydantic''])"

definition instrument_fastapi :: "logfire_settings \<Rightarrow> string list \<Rightarrow> string list option" where
  "instrument_fastapi s fastapi_excluded_urls =
     (if \<not> logfire_is_enabled s then None else Some fastapi_excluded_urls)"

definition logging_handlers :: "logfire_settings \<Rightarrow> string list" where
  "logging_handlers s =
     ''StreamHandler(stdout)'' # (if logfire_is_enabled s then [''LogfireLoggingHandler''] else [])"

record logging_settings =
  ls_level :: string
  ls_logfire_settings :: logfire_settings

text \<open>What \<open>logging.basicConfig\<close> is given, and the levels set on single loggers.\<close>

record logging_configuration =
  lg_level :: string
  lg_format :: string
  lg_datefmt :: string
  lg_handlers :: "string list"
  lg_logger_levels :: "(string \<times> string) list"

definition logging_configure :: "logging_settings \<Rightarrow> logging_configuration" where
  "logging_configure s =
     \<lparr>lg_level = ls_level s, lg_format = ''%(asctime)s %(levelname)s %(name)s %(message)s'',
      lg_datefmt = ''%Y-%m-%d %H:%M:%S'', lg_handlers = logging_handlers (ls_logfire_settings s),
      lg_logger_levels = [(''diwire._internal'', ''WARNING''),
        (''opentelemetry.instrumentation.instrumentor'', ''ERROR''), (''urllib3'', ''WARNING'')]\<rparr>"

record instrumentor_settings =
  in_fastapi_excluded_urls :: "string list"

definition default_instrumentor_settings :: instrumentor_settings where
  "default_instrumentor_settings = \<lparr>in_fastapi_excluded_urls = [''.*/api/v1/health'']\<rparr>"

text \<open>
  The registrations of a container: the adapter that is made for each port. The adapters are those
  whose models interpret the contracts of \<open>Ports\<close>, and the factory of the throttlers.
\<close>

type_synonym registrations = "(string \<times> string) list"

definition register_dependencies :: "registrations \<Rightarrow> registrations" where
  "register_dependencies container = container @
     [(''UnitOfWork'', ''SQLAlchemyUnitOfWork''),
      (''DatabaseHealthChecker'', ''SQLAlchemyDatabaseHealthChecker''),
      (''BaseAsyncThrottlerFactory'', ''AsyncThrottlerFactory'')]"

datatype bootstrap_step = Register_Dependencies | Configure_Logging | Configure_Logfire | Instrument_Libraries

definition get_container :: "bool \<Rightarrow> bool \<Rightarrow> bool \<Rightarrow> bootstrap_step list" where
  "get_container configure_logging configure_logfire instrument_libs =
     [Register_Dependencies]
     @ (if configure_logging then [Configure_Logging] else [])
     @ (if configure_logfire then [Configure_Logfire] else [])
     @ (if instrument_libs then [Instrument_Libraries] else [])"

section \<open>Throttlers\<close>

text \<open>A quota of the throttling library, and the rate limiter a factory configures.\<close>

datatype quota = Per_Min nat

datatype rate_limiter_type = Token_Bucket | Other_Limiter string

definition limiter_type_value :: "rate_limiter_type \<Rightarrow> string" where
  "limiter_type_value t = (case t of Token_Bucket \<Rightarrow> ''token_bucket'' | Other_Limiter n \<Rightarrow> n)"

record 's throttled =
  th_using :: string
  th_quota :: quota
  th_store :: 's

definition async_throttler_factory_call ::
    "quota \<Rightarrow> rate_limiter_type \<Rightarrow> throttler_store \<Rightarrow> nat throttled \<times> throttler_store" where
  "async_throttler_factory_call quota using s =
     (case get_store s of (n, s') \<Rightarrow>
        (\<lparr>th_using = limiter_type_value using, th_quota = quota, th_store = n\<rparr>, s'))"

text \<open>
  The synchronous factory keeps the store it made when it was created, by the factory of the
  stores: a store is known by the server it was made for.
\<close>

record redis_settings =
  rd_url :: string

definition throttler_store_factory_call :: "redis_settings \<Rightarrow> string" where
  "throttler_store_factory_call s = rd_url s"

definition throttler_factory_post_init :: "redis_settings \<Rightarrow> string" where
  "throttler_factory_post_init s = throttler_store_factory_call s"

definition throttler_factory_call :: "string \<Rightarrow> quota \<Rightarrow> rate_limiter_type \<Rightarrow> string throttled" where
  "throttler_factory_call store quota using =
     \<lparr>th_using = limiter_type_value using, th_quota = quota, th_store = store\<rparr>"

section \<open>Routes\<close>

datatype endpoint =
    Health_Check | Health_Check_Websocket | Issue_Token | Refresh_Token | Revoke_Token
  | Create_User | Current_User | Staff_User_Lookup

datatype dependency = Jwt_Auth | User_Throttle quota

text \<open>A route; a websocket route has no methods.\<close>

record api_route =
  ar_path :: string
  ar_endpoint :: endpoint
  ar_methods :: "string list option"
  ar_dependencies :: "dependency list"

definition http_route :: "string \<Rightarrow> endpoint \<Rightarrow> string \<Rightarrow> dependency list \<Rightarrow> api_route" where
  "http_route p e m ds = \<lparr>ar_path = p, ar_endpoint = e, ar_methods = Some [m], ar_dependencies = ds\<rparr>"

definition health_check_register :: "api_route list" where
  "health_check_register = [http_route ''/api/v1/health'' Health_Check ''GET'' []]"

definition health_check_websocket_register :: "api_route list" where
  "health_check_websocket_register =
     [\<lparr>ar_path = ''/api/v1/health/ws'', ar_endpoint = Health_Check_Websocket, ar_methods = None,
       ar_dependencies = []\<rparr>]"

definition issue_token_register :: "api_route list" where
  "issue_token_register = [http_route ''/api/v1/auth/token'' Issue_Token ''POST'' []]"

definition refresh_token_register :: "api_route list" where
  "refresh_token_register = [http_route ''/api/v1/auth/token/refresh'' Refresh_Token ''POST'' []]"

definition revoke_token_register :: "api_route list" where
  "revoke_token_register =
     [http_route ''/api/v1/auth/token/revoke'' Revoke_Token ''POST'' [Jwt_Auth, User_Throttle (Per_Min 10)]]"

definition create_user_register :: "api_route list" where
  "create_user_register = [http_route ''/api/v1/users'' Create_User ''POST'' []]"

definition current_user_register :: "api_route list" where
  "current_user_register = [http_route ''/api/v1/users/me'' Current_User ''GET'' [Jwt_Auth]]"

definition staff_user_lookup_register :: "api_route list" where
  "staff_user_lookup_register =
     [http_route ''/api/v1/users/{user_id}'' Staff_User_Lookup ''GET'' [Jwt_Auth]]"

section \<open>The application\<close>

datatype middleware =
    Pre_Body_Ip_Throttling "(string \<times> string \<times> quota) list"
  | Trusted_Host "string list"
  | Cors cors_settings

text \<open>The middleware is listed from the outside in: \<open>add_middleware\<close> puts a new one in front.\<close>

record fastapi_app =
  app_title :: string
  app_docs_url :: "string option"
  app_redoc_url :: "string option"
  app_middleware :: "middleware list"
  app_routes :: "api_route list"
  app_instrumented :: "string list option"

definition add_middleware :: "middleware \<Rightarrow> fastapi_app \<Rightarrow> fastapi_app" where
  "add_middleware m app = app\<lparr>app_middleware := m # app_middleware app\<rparr>"

definition include_router :: "api_route list \<Rightarrow> fastapi_app \<Rightarrow> fastapi_app" where
  "include_router routes app = app\<lparr>app_routes := app_routes app @ routes\<rparr>"

definition pre_body_ip_throttled_routes :: "(string \<times> string) list" where
  "pre_body_ip_throttled_routes =
     [(''POST'', ''/api/v1/auth/token''), (''POST'', ''/api/v1/auth/token/refresh''),
      (''POST'', ''/api/v1/auth/token/revoke''), (''POST'', ''/api/v1/users'')]"

definition add_pre_body_ip_throttling_middleware :: "fastapi_app \<Rightarrow> fastapi_app" where
  "add_pre_body_ip_throttling_middleware =
     add_middleware (Pre_Body_Ip_Throttling
       (map (\<lambda>(method, p). (method, p, Per_Min 10)) pre_body_ip_throttled_routes))"

definition add_middlewares ::
    "fastapi_settings \<Rightarrow> cors_settings \<Rightarrow> bool \<Rightarrow> bool \<Rightarrow> fastapi_app \<Rightarrow> fastapi_app" where
  "add_middlewares fs cs add_trusted_hosts_middleware add_cors_middleware app =
     (let app1 = (if add_trusted_hosts_middleware
                  then add_middleware (Trusted_Host (fs_allowed_hosts fs)) app else app)
      in if add_cors_middleware then add_middleware (Cors cs) app1 else app1)"

definition register_health_controller :: "fastapi_app \<Rightarrow> fastapi_app" where
  "register_health_controller = include_router (health_check_register @ health_check_websocket_register)"

definition register_authentication_controllers :: "fastapi_app \<Rightarrow> fastapi_app" where
  "register_authentication_controllers =
     include_router (issue_token_register @ refresh_token_register @ revoke_token_register)"

definition register_user_controllers :: "fastapi_app \<Rightarrow> fastapi_app" where
  "register_user_controllers =
     include_router (create_user_register @ current_user_register @ staff_user_lookup_register)"

definition register_controllers :: "fastapi_app \<Rightarrow> fastapi_app" where
  "register_controllers app =
     register_user_controllers (register_authentication_controllers (register_health_controller app))"

definition fastapi_factory_call ::
    "application_settings \<Rightarrow> fastapi_settings \<Rightarrow> cors_settings \<Rightarrow> logfire_settings \<Rightarrow> string list \<Rightarrow>
     bool \<Rightarrow> bool \<Rightarrow> fastapi_app" where
  "fastapi_factory_call app_settings fs cs lf excluded_urls add_trusted_hosts_middleware add_cors_middleware =
     (let docs_url = (if as_environment app_settings \<noteq> Production then Some ''/docs'' else None);
          app = \<lparr>app_title = ''API'', app_docs_url = docs_url, app_redoc_url = None,
                 app_middleware = [], app_routes = [], app_instrumented = None\<rparr>;
          app = app\<lparr>app_instrumented := instrument_fastapi lf excluded_urls\<rparr>;
          app = add_pre_body_ip_throttling_middleware app;
          app = add_middlewares fs cs add_trusted_hosts_middleware add_cors_middleware app
      in register_controllers app)"

section \<open>Dispatch\<close>

text \<open>A path matches a template segment by segment; a parameter takes any non-empty segment.\<close>

definition is_parameter :: "string \<Rightarrow> bool" where
  "is_parameter segment = (segment \<noteq> [] \<and> hd segment = CHR ''{'')"

fun segments_match :: "string list \<Rightarrow> string list \<Rightarrow> bool" where
  "segments_match [] [] = True"
| "segments_match (t # ts) (s # ss) =
     ((if is_parameter t then s \<noteq> [] else t = s) \<and> segments_match ts ss)"
| "segments_match _ _ = False"

definition path_matches :: "string \<Rightarrow> string \<Rightarrow> bool" where
  "path_matches template p = segments_match (split_on (CHR ''/'') template) (split_on (CHR ''/'') p)"

text \<open>The first route that matches the path and the method answers an HTTP request.\<close>

definition dispatch_route :: "fastapi_app \<Rightarrow> string \<Rightarrow> string \<Rightarrow> api_route option" where
  "dispatch_route app method p =
     find (\<lambda>r. path_matches (ar_path r) p \<and>
       (case ar_methods r of None \<Rightarrow> False | Some ms \<Rightarrow> method \<in> set ms)) (app_routes app)"

definition dispatch_http :: "fastapi_app \<Rightarrow> string \<Rightarrow> string \<Rightarrow> endpoint option" where
  "dispatch_http app method p = map_option ar_endpoint (dispatch_route app method p)"

section \<open>Runtime resources\<close>

text \<open>\<open>SQLAlchemySessionFactory.dispose\<close>; the engine's own \<open>dispose\<close> may raise.\<close>

definition session_factory_dispose ::
    "(nat \<Rightarrow> exn option) \<Rightarrow> session_factory \<Rightarrow> exn option \<times> session_factory" where
  "session_factory_dispose engine_dispose f =
     (case sf_engine f of
        None \<Rightarrow> (None, f)
      | Some n \<Rightarrow>
          (case engine_dispose n of
             Some e \<Rightarrow> (Some e, f)
           | None \<Rightarrow> (None, f\<lparr>sf_engine := None, sf_session_factory := None,
                             sf_disposed := sf_disposed f @ [n]\<rparr>)))"

record resources =
  re_store :: throttler_store
  re_sessions :: session_factory

text \<open>\<open>IPThrottlerFactory.dispose\<close>: closing the client of a store may raise; the store is
  forgotten in any case.\<close>

definition ip_throttler_factory_dispose ::
    "(nat \<Rightarrow> string list option) \<Rightarrow> (nat \<Rightarrow> exn option) \<Rightarrow> throttler_store \<Rightarrow> exn option \<times> throttler_store" where
  "ip_throttler_factory_dispose client_of close_error s =
     (case ts_store s of
        None \<Rightarrow> (None, throttler_factory_dispose client_of s)
      | Some n \<Rightarrow>
          (case Option.bind (client_of n) close_method of
             None \<Rightarrow> (None, throttler_factory_dispose client_of s)
           | Some _ \<Rightarrow>
               (case close_error n of
                  Some e \<Rightarrow> (Some e, s\<lparr>ts_store := None\<rparr>)
                | None \<Rightarrow> (None, throttler_factory_dispose client_of s))))"

text \<open>The \<open>finally\<close> block of \<open>_dispose_runtime_resources\<close>.\<close>

definition dispose_runtime_resources ::
    "(nat \<Rightarrow> string list option) \<Rightarrow> (nat \<Rightarrow> exn option) \<Rightarrow> (nat \<Rightarrow> exn option) \<Rightarrow> resources \<Rightarrow>
     exn option \<times> resources" where
  "dispose_runtime_resources client_of close_error engine_dispose r =
     (case ip_throttler_factory_dispose client_of close_error (re_store r) of
        (Some e, s) \<Rightarrow> (Some e, r\<lparr>re_store := s\<rparr>)
      | (None, s) \<Rightarrow>
          (case session_factory_dispose engine_dispose (re_sessions r) of
             (result, f) \<Rightarrow> (result, r\<lparr>re_store := s, re_sessions := f\<rparr>)))"

text \<open>What can happen to the factory while the service runs: a session is asked for, or the
  factory is disposed, which may fail.\<close>

definition new_session_factory :: session_factory where
  "new_session_factory =
     \<lparr>sf_engine = None, sf_session_factory = None, sf_engines_created = 0, sf_disposed = []\<rparr>"

inductive factory_step :: "session_factory \<Rightarrow> session_factory \<Rightarrow> bool" where
  opened: "session_factory_call f = (n, f') \<Longrightarrow> factory_step f f'"
| disposed: "session_factory_dispose engine_dispose f = (result, f') \<Longrightarrow> factory_step f f'"

inductive factory_reachable :: "session_factory \<Rightarrow> bool" where
  created: "factory_reachable new_session_factory"
| used: "factory_reachable f \<Longrightarrow> factory_step f f' \<Longrightarrow> factory_reachable f'"

inductive_cases factory_stepE: "factory_step f f'"

section \<open>Lemmas\<close>

text \<open>The engines made so far are the disposed ones and the one in use.\<close>

definition factory_inv :: "session_factory \<Rightarrow> bool" where
  "factory_inv f =
     (sf_session_factory f = sf_engine f \<and> distinct (sf_disposed f)
      \<and> set (sf_disposed f) \<union> set_option (sf_engine f) = {0..<sf_engines_created f}
      \<and> set (sf_disposed f) \<inter> set_option (sf_engine f) = {})"

lemma factory_inv_step:
  assumes "factory_step f f'" and "factory_inv f"
  shows "factory_inv f'"
  using assms(1)
proof (rule factory_stepE)
  fix n
  assume "session_factory_call f = (n, f')"
  with assms(2) show ?thesis
    by (cases "sf_engine f")
      (auto simp: session_factory_call_def factory_inv_def Let_def)
next
  fix d r
  assume "session_factory_dispose d f = (r, f')"
  with assms(2) show ?thesis
    by (cases "sf_engine f") (auto simp: session_factory_dispose_def factory_inv_def split: option.splits)
qed

lemma factory_reachable_inv: "factory_reachable f \<Longrightarrow> factory_inv f"
proof (induction rule: factory_reachable.induct)
  case created
  show ?case by (simp add: factory_inv_def new_session_factory_def)
next
  case (used f f')
  then show ?case by (blast intro: factory_inv_step)
qed

text \<open>The routes and the middleware of the finished application.\<close>

lemma include_router_simps:
  "app_routes (include_router rs app) = app_routes app @ rs"
  "app_middleware (include_router rs app) = app_middleware app"
  by (simp_all add: include_router_def)

lemma add_middleware_simps:
  "app_routes (add_middleware m app) = app_routes app"
  "app_middleware (add_middleware m app) = m # app_middleware app"
  by (simp_all add: add_middleware_def)

lemma add_middlewares_simps:
  "app_routes (add_middlewares fs cs th co app) = app_routes app"
  "app_middleware (add_middlewares fs cs th co app) =
     (if co then [Cors cs] else []) @ (if th then [Trusted_Host (fs_allowed_hosts fs)] else []) @ app_middleware app"
  by (cases th; cases co; simp add: add_middlewares_def add_middleware_simps)+

lemma register_controllers_simps:
  "app_routes (register_controllers app) = app_routes app
     @ (health_check_register @ health_check_websocket_register)
     @ (issue_token_register @ refresh_token_register @ revoke_token_register)
     @ (create_user_register @ current_user_register @ staff_user_lookup_register)"
  "app_middleware (register_controllers app) = app_middleware app"
  by (simp_all add: register_controllers_def register_user_controllers_def
      register_authentication_controllers_def register_health_controller_def include_router_simps)

lemma app_routes_factory:
  "app_routes (fastapi_factory_call a fs cs lf ex th co) =
     (health_check_register @ health_check_websocket_register)
     @ (issue_token_register @ refresh_token_register @ revoke_token_register)
     @ (create_user_register @ current_user_register @ staff_user_lookup_register)"
  unfolding fastapi_factory_call_def Let_def register_controllers_simps add_middlewares_simps
    add_pre_body_ip_throttling_middleware_def add_middleware_simps
  by simp

lemma app_middleware_factory:
  "app_middleware (fastapi_factory_call a fs cs lf ex th co) =
     (if co then [Cors cs] else []) @ (if th then [Trusted_Host (fs_allowed_hosts fs)] else [])
     @ [Pre_Body_Ip_Throttling (map (\<lambda>(method, p). (method, p, Per_Min 10)) pre_body_ip_throttled_routes)]"
  unfolding fastapi_factory_call_def Let_def register_controllers_simps add_middlewares_simps
    add_pre_body_ip_throttling_middleware_def add_middleware_simps
  by simp

lemmas register_defs = health_check_register_def health_check_websocket_register_def
  issue_token_register_def refresh_token_register_def revoke_token_register_def
  create_user_register_def current_user_register_def staff_user_lookup_register_def http_route_def

text \<open>A template without parameters matches only itself.\<close>

lemma segments_match_literal:
  "segments_match ts ss \<Longrightarrow> list_all (\<lambda>t. \<not> is_parameter t) ts \<Longrightarrow> ts = ss"
  by (induction ts ss rule: segments_match.induct) auto

lemma path_matches_literal:
  assumes "path_matches t p" and "list_all (\<lambda>s. \<not> is_parameter s) (split_on (CHR ''/'') t)"
  shows "p = t"
proof -
  have "split_on (CHR ''/'') t = split_on (CHR ''/'') p"
    using assms unfolding path_matches_def by (rule segments_match_literal)
  then show ?thesis by (metis join_split)
qed

definition answers_method :: "string \<Rightarrow> api_route \<Rightarrow> bool" where
  "answers_method m r = (case ar_methods r of None \<Rightarrow> False | Some ms \<Rightarrow> m \<in> set ms)"

lemma dispatch_http_eq:
  "dispatch_http app m p =
     map_option ar_endpoint (find (\<lambda>r. path_matches (ar_path r) p) (filter (answers_method m) (app_routes app)))"
proof -
  have "find (\<lambda>r. P r \<and> Q r) rs = find P (filter Q rs)" for P Q and rs :: "api_route list"
    by (induction rs) auto
  then show ?thesis by (simp add: dispatch_http_def dispatch_route_def answers_method_def [abs_def])
qed

lemma post_routes:
  "filter (answers_method ''POST'') (app_routes (fastapi_factory_call a fs cs lf ex th co)) =
     issue_token_register @ refresh_token_register @ revoke_token_register @ create_user_register"
  by (simp add: app_routes_factory register_defs answers_method_def)

lemma get_routes:
  "filter (answers_method ''GET'') (app_routes (fastapi_factory_call a fs cs lf ex th co)) =
     health_check_register @ current_user_register @ staff_user_lookup_register"
  by (simp add: app_routes_factory register_defs answers_method_def)

lemma post_routes_literal:
  "list_all (\<lambda>r. list_all (\<lambda>s. \<not> is_parameter s) (split_on (CHR ''/'') (ar_path r))
       \<and> (''POST'', ar_path r) \<in> set pre_body_ip_throttled_routes)
     (issue_token_register @ refresh_token_register @ revoke_token_register @ create_user_register)"
  by code_simp

lemma answered_post_is_listed:
  assumes "dispatch_http (fastapi_factory_call a fs cs lf ex th co) ''POST'' p = Some e"
  shows "(''POST'', p) \<in> set pre_body_ip_throttled_routes"
proof -
  let ?posts = "issue_token_register @ refresh_token_register @ revoke_token_register @ create_user_register"
  from assms obtain r where "find (\<lambda>r. path_matches (ar_path r) p) ?posts = Some r"
    unfolding dispatch_http_eq post_routes by blast
  from find_SomeD [OF this] have r: "r \<in> set ?posts" "path_matches (ar_path r) p" by auto
  with post_routes_literal have "list_all (\<lambda>s. \<not> is_parameter s) (split_on (CHR ''/'') (ar_path r))
      \<and> (''POST'', ar_path r) \<in> set pre_body_ip_throttled_routes"
    unfolding list_all_iff by blast
  with path_matches_literal [OF r(2)] show ?thesis by simp
qed

text \<open>The rules the throttling middleware of an application is given, each with the throttler
  its quota configures.\<close>

definition throttling_rules ::
    "(quota \<Rightarrow> http_request \<Rightarrow> ('w, exn, unit) prog) \<Rightarrow> fastapi_app \<Rightarrow> 'w pre_body_ip_throttling_rule list" where
  "throttling_rules throttler app =
     concat (map (\<lambda>m. case m of
        Pre_Body_Ip_Throttling rules \<Rightarrow>
          map (\<lambda>(method, p, q). \<lparr>tr_method = method, tr_path = p, tr_throttler = throttler q\<rparr>) rules
      | _ \<Rightarrow> []) (app_middleware app))"

lemma throttling_rules_factory:
  "throttling_rules throttler (fastapi_factory_call a fs cs lf ex th co) =
     map (\<lambda>(m, p). \<lparr>tr_method = m, tr_path = p, tr_throttler = throttler (Per_Min 10)\<rparr>) pre_body_ip_throttled_routes"
  by (cases th; cases co; simp add: throttling_rules_def app_middleware_factory split_beta)

lemma rule_of_listed:
  assumes "(m, p) \<in> set pre_body_ip_throttled_routes"
  shows "\<exists>rule. rules_by_key (throttling_rules throttler (fastapi_factory_call a fs cs lf ex th co)) (m, p) = Some rule
    \<and> tr_throttler rule = throttler (Per_Min 10)"
proof -
  let ?t = "throttler (Per_Min 10)"
  have upper: "ascii_upper ''POST'' = ''POST''" by code_simp
  have keys: "map (\<lambda>r. ((ascii_upper (fst r), snd r), \<lparr>tr_method = fst r, tr_path = snd r, tr_throttler = ?t\<rparr>))
      pre_body_ip_throttled_routes =
    map (\<lambda>r. (r, \<lparr>tr_method = fst r, tr_path = snd r, tr_throttler = ?t\<rparr>)) pre_body_ip_throttled_routes"
    by (simp add: pre_body_ip_throttled_routes_def upper)
  have "map_of (rev (map (\<lambda>r. (r, f r)) rs)) x = Some (f x)" if "x \<in> set rs"
    for f :: "string \<times> string \<Rightarrow> 'a pre_body_ip_throttling_rule" and rs x
    using that by (simp add: rev_map map_of_map_restrict)
  from this [OF assms] show ?thesis
    by (simp add: rules_by_key_def throttling_rules_factory o_def split_beta keys)
qed

lemma ip_throttler_factory_dispose_store:
  "ip_throttler_factory_dispose client_of close_error s = (e, s') \<Longrightarrow> ts_store s' = None"
  by (auto simp: ip_throttler_factory_dispose_def throttler_factory_dispose_def Let_def split: option.splits)

lemma session_factory_dispose_outcome:
  assumes "factory_inv f" and "session_factory_dispose engine_dispose f = (e, f')"
  shows "if e = None
    then sf_engine f' = None \<and> sf_session_factory f' = None \<and> distinct (sf_disposed f')
      \<and> set (sf_disposed f') = {0..<sf_engines_created f}
    else f' = f"
proof (cases "sf_engine f")
  case None
  with assms show ?thesis by (simp add: session_factory_dispose_def factory_inv_def)
next
  case (Some n)
  show ?thesis
  proof (cases "engine_dispose n")
    case None
    from assms(1) Some have "distinct (sf_disposed f @ [n])" "set (sf_disposed f @ [n]) = {0..<sf_engines_created f}"
      by (simp_all add: factory_inv_def)
    moreover from assms(2) Some None have "e = None"
      "f' = f\<lparr>sf_engine := None, sf_session_factory := None, sf_disposed := sf_disposed f @ [n]\<rparr>"
      by (simp_all add: session_factory_dispose_def)
    ultimately show ?thesis by (simp del: set_append)
  next
    case (Some e')
    with assms(2) \<open>sf_engine f = Some n\<close> have "e = Some e'" "f' = f"
      by (simp_all add: session_factory_dispose_def)
    then show ?thesis by simp
  qed
qed

lemma throttled_post_run:
  assumes "dispatch_http (fastapi_factory_call a fs cs lf ex th co) ''POST'' (rq_path (as_request scope)) = Some e"
    and "as_type scope = ''http''" and "ascii_upper (rq_method (as_request scope)) = ''POST''"
  shows "pre_body_ip_throttling_middleware inner respond
      (throttling_rules (\<lambda>quota. ip_throttler (limit quota) 1 settings)
         (fastapi_factory_call a fs cs lf ex th co)) scope w =
     (case limit (Per_Min 10) (ip_throttler_key settings (as_request scope)) 1 w of
        (Inr True, w') \<Rightarrow> respond \<lparr>he_status_code = 429, he_detail = ''Too many requests'', he_headers = None\<rparr> w'
      | (Inr False, w') \<Rightarrow> inner scope w'
      | (Inl (HTTPException refusal), w') \<Rightarrow> respond refusal w'
      | (Inl error, w') \<Rightarrow> (Inl error, w'))"
proof -
  from rule_of_listed [OF answered_post_is_listed [OF assms(1)]] obtain rule where
    rule: "rules_by_key (throttling_rules (\<lambda>quota. ip_throttler (limit quota) 1 settings)
        (fastapi_factory_call a fs cs lf ex th co)) (''POST'', rq_path (as_request scope)) = Some rule"
      "tr_throttler rule = ip_throttler (limit (Per_Min 10)) 1 settings"
    by blast
  with assms(2,3) show ?thesis
    by (auto simp: pre_body_ip_throttling_middleware_def request_key_def bind_p_def try_except_def ret_def
        raise_def ip_throttler_def throttler_call_run too_many_requests_def
        split: prod.splits sum.splits bool.splits exn.splits)
qed

section \<open>Properties\<close>

text \<open>
  C20. No POST route runs before the client's address was counted: for any settings of the
  application, when some endpoint answers the POST of a path, the middleware first asks
  the limiter of ten requests a minute for the key of that client; a limited client gets
  429 and the application behind the middleware is not called, an admitted one reaches
  it, and a failure of the limiter itself is raised with the endpoint not called either.
\<close>

theorem answered_posts_are_throttled:
  assumes "dispatch_http (fastapi_factory_call a fs cs lf ex th co) ''POST'' (rq_path (as_request scope)) = Some e"
    and "as_type scope = ''http''" and "ascii_upper (rq_method (as_request scope)) = ''POST''"
  shows "pre_body_ip_throttling_middleware inner respond
      (throttling_rules (\<lambda>quota. ip_throttler (limit quota) 1 settings)
         (fastapi_factory_call a fs cs lf ex th co)) scope w =
     (case limit (Per_Min 10) (ip_throttler_key settings (as_request scope)) 1 w of
        (Inr True, w') \<Rightarrow> respond \<lparr>he_status_code = 429, he_detail = ''Too many requests'', he_headers = None\<rparr> w'
      | (Inr False, w') \<Rightarrow> inner scope w'
      | (Inl (HTTPException refusal), w') \<Rightarrow> respond refusal w'
      | (Inl error, w') \<Rightarrow> (Inl error, w'))"
  using assms by (rule throttled_post_run)

definition default_logfire_settings :: logfire_settings where
  "default_logfire_settings =
     \<lparr>lf_enabled = False, lf_service_name = ''modern-python-template'', lf_service_version = ''0.1.0'',
      lf_environment = ''production'', lf_token = None\<rparr>"

text \<open>A limiter that refuses the spoofed client of \<open>spoofed\<close>, under the default settings.\<close>

theorem answered_posts_are_throttled_witness:
  "pre_body_ip_throttling_middleware (\<lambda>scope seen. (Inr (), 0 # seen)) (\<lambda>refusal seen. (Inr (), he_status_code refusal # seen))
     (throttling_rules (\<lambda>quota. ip_throttler (\<lambda>key cost seen. (Inr True, seen)) 1
        \<lparr>ris_ip_header = ''x-forwarded-for'', ris_trust_forwarded_ip_header = False,
          ris_user_agent_header = ''user-agent''\<rparr>)
       (fastapi_factory_call default_application_settings default_fastapi_settings default_cors_settings
          default_logfire_settings [] True True))
     \<lparr>as_type = ''http'', as_request = spoofed\<rparr> [] = (Inr (), [429])"
  proof (subst answered_posts_are_throttled)
  show "dispatch_http (fastapi_factory_call default_application_settings default_fastapi_settings
      default_cors_settings default_logfire_settings [] True True) ''POST''
      (rq_path (as_request \<lparr>as_type = ''http'', as_request = spoofed\<rparr>)) = Some Create_User"
    by code_simp
  show "ascii_upper (rq_method (as_request \<lparr>as_type = ''http'', as_request = spoofed\<rparr>)) = ''POST''"
    by code_simp
qed simp_all

text \<open>
  C21. The literal route wins over the parameter: below \<open>/api/v1/users/\<close> the current user is
  served for \<open>me\<close> and the staff lookup for every other non-empty segment, and a GET of
  anything else there is not routed.
\<close>

theorem user_routes_dispatch:
  "dispatch_http (fastapi_factory_call a fs cs lf ex th co) ''GET'' (''/api/v1/users/'' @ segment) =
     (if segment = ''me'' then Some Current_User
      else if segment = [] \<or> CHR ''/'' \<in> set segment then None
      else Some Staff_User_Lookup)"
proof -
  obtain q qs where q: "split_on (CHR ''/'') segment = q # qs"
    by (cases "split_on (CHR ''/'') segment") auto
  have seg: "segment = q" if "qs = []"
    using join_split [of "CHR ''/''" segment] q that by simp
  have sep: "CHR ''/'' \<in> set segment \<longleftrightarrow> qs \<noteq> []"
  proof
    assume "CHR ''/'' \<in> set segment"
    with q seg split_no_sep [of q "CHR ''/''" segment] show "qs \<noteq> []" by auto
  next
    assume "qs \<noteq> []"
    with q split_on_single [of "CHR ''/''" segment] show "CHR ''/'' \<in> set segment" by fastforce
  qed
  have path: "split_on (CHR ''/'') (''/api/v1/users/'' @ segment) = [[], ''api'', ''v1'', ''users''] @ (q # qs)"
    by (simp add: q)
  have templates: "split_on (CHR ''/'') ''/api/v1/health'' = [[], ''api'', ''v1'', ''health'']"
    "split_on (CHR ''/'') ''/api/v1/users/me'' = [[], ''api'', ''v1'', ''users'', ''me'']"
    "split_on (CHR ''/'') ''/api/v1/users/{user_id}'' = [[], ''api'', ''v1'', ''users'', ''{user_id}'']"
    by code_simp+
  have "path_matches ''/api/v1/health'' (''/api/v1/users/'' @ segment) = False"
    "path_matches ''/api/v1/users/me'' (''/api/v1/users/'' @ segment) = (q = ''me'' \<and> qs = [])"
    "path_matches ''/api/v1/users/{user_id}'' (''/api/v1/users/'' @ segment) = (q \<noteq> [] \<and> qs = [])"
    unfolding path_matches_def path templates
    by (cases qs; auto simp: is_parameter_def)+
  then show ?thesis
    using seg sep unfolding dispatch_http_eq get_routes
    by (cases qs) (auto simp: register_defs)
qed

text \<open>
  C22. The engines of the session factory over any life of the service: the sessions it hands
  out are bound to the engine it holds, which is not a disposed one, and no engine is
  disposed twice. A shutdown that raises nothing leaves no engine and no throttling store
  behind: every engine ever created is disposed. When the shutdown raises, the engine in use
  and the disposed ones are as before, so a failure to close the throttler's client leaves
  the engine open.
\<close>

theorem shutdown_disposes_every_engine:
  assumes "factory_reachable f"
    and "dispose_runtime_resources client_of close_error engine_dispose \<lparr>re_store = s, re_sessions = f\<rparr> = (outcome, r)"
  shows "fst (session_factory_call f) \<notin> set (sf_disposed f)
    \<and> sf_engine (snd (session_factory_call f)) = Some (fst (session_factory_call f))
    \<and> distinct (sf_disposed (re_sessions r)) \<and> ts_store (re_store r) = None
    \<and> (if outcome = None
        then sf_engine (re_sessions r) = None \<and> sf_session_factory (re_sessions r) = None
          \<and> set (sf_disposed (re_sessions r)) = {0..<sf_engines_created f}
        else re_sessions r = f)"
proof -
  from factory_reachable_inv [OF assms(1)] have inv: "factory_inv f" .
  have call: "fst (session_factory_call f) \<notin> set (sf_disposed f)
      \<and> sf_engine (snd (session_factory_call f)) = Some (fst (session_factory_call f))"
    using inv by (cases "sf_engine f") (auto simp: session_factory_call_def factory_inv_def Let_def)
  obtain e1 s1 where e1: "ip_throttler_factory_dispose client_of close_error s = (e1, s1)" by fastforce
  obtain e2 f2 where e2: "session_factory_dispose engine_dispose f = (e2, f2)" by fastforce
  from assms(2) have r: "if e1 = None then outcome = e2 \<and> r = \<lparr>re_store = s1, re_sessions = f2\<rparr>
      else outcome = e1 \<and> r = \<lparr>re_store = s1, re_sessions = f\<rparr>"
    by (cases e1) (auto simp: dispose_runtime_resources_def e1 e2)
  have "distinct (sf_disposed (re_sessions r)) \<and> ts_store (re_store r) = None
    \<and> (if outcome = None
        then sf_engine (re_sessions r) = None \<and> sf_session_factory (re_sessions r) = None
          \<and> set (sf_disposed (re_sessions r)) = {0..<sf_engines_created f}
        else re_sessions r = f)"
    using r ip_throttler_factory_dispose_store [OF e1] session_factory_dispose_outcome [OF inv e2] inv
    by (cases e1; cases e2; simp add: factory_inv_def)
  with call show ?thesis by blast
qed

text \<open>A service that opened one session, whose Redis client closes or fails to.\<close>

theorem shutdown_disposes_every_engine_witness:
  "set (sf_disposed (re_sessions (snd (dispose_runtime_resources (\<lambda>n. Some [''aclose'']) (\<lambda>n. None) (\<lambda>n. None)
       \<lparr>re_store = throttler_factory_init, re_sessions = snd (session_factory_call new_session_factory)\<rparr>)))) = {0}
   \<and> re_sessions (snd (dispose_runtime_resources (\<lambda>n. Some [''aclose'']) (\<lambda>n. Some (RuntimeError ''closed'')) (\<lambda>n. None)
       \<lparr>re_store = throttler_factory_init, re_sessions = snd (session_factory_call new_session_factory)\<rparr>))
     = snd (session_factory_call new_session_factory)"
proof -
  let ?f = "snd (session_factory_call new_session_factory)"
  let ?r = "\<lparr>re_store = throttler_factory_init, re_sessions = ?f\<rparr>"
  have reach: "factory_reachable ?f"
    by (rule factory_reachable.used [OF factory_reachable.created])
      (rule factory_step.opened [of _ "fst (session_factory_call new_session_factory)"], simp)
  have ok: "fst (dispose_runtime_resources (\<lambda>n. Some [''aclose'']) (\<lambda>n. None) (\<lambda>n. None) ?r) = None"
    and bad: "fst (dispose_runtime_resources (\<lambda>n. Some [''aclose'']) (\<lambda>n. Some (RuntimeError ''closed'')) (\<lambda>n. None) ?r) \<noteq> None"
    and created: "sf_engines_created ?f = 1"
    by code_simp+
  from shutdown_disposes_every_engine [OF reach surjective_pairing,
      of "\<lambda>n. Some [''aclose'']" "\<lambda>n. None" "\<lambda>n. None" throttler_factory_init] ok created
  have a: "set (sf_disposed (re_sessions (snd (dispose_runtime_resources (\<lambda>n. Some [''aclose'']) (\<lambda>n. None)
      (\<lambda>n. None) ?r)))) = {0}"
    by auto
  from shutdown_disposes_every_engine [OF reach surjective_pairing,
      of "\<lambda>n. Some [''aclose'']" "\<lambda>n. Some (RuntimeError ''closed'')" "\<lambda>n. None" throttler_factory_init] bad
  have "re_sessions (snd (dispose_runtime_resources (\<lambda>n. Some [''aclose'']) (\<lambda>n. Some (RuntimeError ''closed''))
      (\<lambda>n. None) ?r)) = ?f"
    by auto
  with a show ?thesis by blast
qed

end
