(* ===== verification/Py_Re.thy ===== *)
theory Py_Re
  imports Py_Int
begin

text \<open>
  The regular expressions of Python's \<open>re\<close> module, as the dependency updater uses
  them: a backtracking matcher that lists the ways a pattern matches at a position in
  the order in which \<open>re\<close> tries them, so that the first element is the match \<open>re\<close>
  returns. A state of the matcher is the text read so far (reversed, for the anchors and
  the look-behind), the text left, and the groups captured so far (the latest first).

  Bodies of a repetition in the source always consume a character; an iteration that
  consumes nothing is dropped here. Searching only considers matches that are not empty:
  every pattern of the source that is searched, iterated or substituted has a positive
  minimal width (\<open>min_width\<close>, and the lemmas beside each pattern), so there are no
  other matches.
\<close>

section \<open>Patterns\<close>

datatype rx =
    Empty
  | Cls "char \<Rightarrow> bool"
  | Seq rx rx
  | Alt rx rx
  | Star bool rx \<comment> \<open>greedy?\<close>
  | Group string rx
  | Bol bool \<comment> \<open>\<open>^\<close>, with or without MULTILINE\<close>
  | Eol bool \<comment> \<open>\<open>$\<close>, with or without MULTILINE\<close>
  | Word_Edge \<comment> \<open>\<open>\b\<close>\<close>
  | Not_Behind "char \<Rightarrow> bool"
  | Not_Ahead rx

fun lit :: "string \<Rightarrow> rx" where
  "lit [] = Empty"
| "lit (c # cs) = Seq (Cls (\<lambda>x. x = c)) (lit cs)"

text \<open>A literal of ASCII letters under IGNORECASE.\<close>

fun lit_nocase :: "string \<Rightarrow> rx" where
  "lit_nocase [] = Empty"
| "lit_nocase (c # cs) = Seq (Cls (\<lambda>x. lower_char x = lower_char c)) (lit_nocase cs)"

fun seqs :: "rx list \<Rightarrow> rx" where
  "seqs [] = Empty"
| "seqs [r] = r"
| "seqs (r # rs) = Seq r (seqs rs)"

definition opt :: "rx \<Rightarrow> rx" where
  [str_simps]: "opt r = Alt r Empty"

definition plus_rx :: "rx \<Rightarrow> rx" where
  [str_simps]: "plus_rx r = Seq r (Star True r)"

definition star_rx :: "rx \<Rightarrow> rx" where
  [str_simps]: "star_rx r = Star True r"

definition not_newline :: "char \<Rightarrow> bool" where
  [str_simps]: "not_newline c = (code_of c \<noteq> 10)"

definition is_word_char :: "char \<Rightarrow> bool" where
  [str_simps]: "is_word_char c = (is_alpha c \<or> is_numeric c \<or> c = CHR ''_'')"

definition is_ascii_alnum :: "char \<Rightarrow> bool" where
  [str_simps]: "is_ascii_alnum c =
     (is_decimal c \<or> (65 \<le> code_of c \<and> code_of c \<le> 90) \<or> (97 \<le> code_of c \<and> code_of c \<le> 122))"

section \<open>Matching\<close>

type_synonym captures = "(string \<times> string) list"

type_synonym rx_state = "string \<times> string \<times> captures"

definition remaining :: "rx_state \<Rightarrow> nat" where
  [str_simps]: "remaining s = length (fst (snd s))"

text \<open>Iterations of a repetition, in the order a greedy or a lazy one tries them. Every
  iteration consumes, so the length of the text left bounds their number.\<close>

fun repeat_runs :: "bool \<Rightarrow> (rx_state \<Rightarrow> rx_state list) \<Rightarrow> nat \<Rightarrow> rx_state \<Rightarrow> rx_state list" where
  "repeat_runs g f 0 s = [s]"
| "repeat_runs g f (Suc n) s =
     (let more = concat (map (repeat_runs g f n)
                   (filter (\<lambda>s'. remaining s' < remaining s) (f s)))
      in if g then more @ [s] else s # more)"

definition at_edge :: "string \<Rightarrow> string \<Rightarrow> bool" where
  [str_simps]: "at_edge b t =
     ((b \<noteq> [] \<and> is_word_char (hd b)) \<noteq> (t \<noteq> [] \<and> is_word_char (hd t)))"

primrec runs :: "rx \<Rightarrow> rx_state \<Rightarrow> rx_state list" where
  "runs Empty s = [s]"
| "runs (Cls P) s =
     (case s of (b, [], cs) \<Rightarrow> [] | (b, x # t, cs) \<Rightarrow> if P x then [(x # b, t, cs)] else [])"
| "runs (Seq r q) s = concat (map (runs q) (runs r s))"
| "runs (Alt r q) s = runs r s @ runs q s"
| "runs (Star g r) s = repeat_runs g (runs r) (remaining s) s"
| "runs (Group n r) s =
     map (\<lambda>(b, t, cs). (b, t, (n, rev (take (length b - length (fst s)) b)) # cs)) (runs r s)"
| "runs (Bol m) s =
     (case s of (b, t, cs) \<Rightarrow> if b = [] \<or> (m \<and> \<not> not_newline (hd b)) then [s] else [])"
| "runs (Eol m) s =
     (case s of (b, t, cs) \<Rightarrow>
        if t = [] \<or> (\<not> not_newline (hd t) \<and> (m \<or> tl t = [])) then [s] else [])"
| "runs Word_Edge s = (case s of (b, t, cs) \<Rightarrow> if at_edge b t then [s] else [])"
| "runs (Not_Behind P) s = (case s of (b, t, cs) \<Rightarrow> if b \<noteq> [] \<and> P (hd b) then [] else [s])"
| "runs (Not_Ahead r) s = (if runs r s = [] then [s] else [])"

record found =
  found_text :: string
  found_groups :: captures
  found_after :: string

text \<open>\<open>group n\<close>: the text of a named group (the empty string for one that took no part;
  the source reads such a group only as \<open>group(...) or ''\<close>).\<close>

definition group :: "found \<Rightarrow> string \<Rightarrow> string" where
  [str_simps]: "group m n = (case map_of (found_groups m) n of None \<Rightarrow> [] | Some s \<Rightarrow> s)"

definition match_at :: "rx \<Rightarrow> string \<Rightarrow> string \<Rightarrow> found option" where
  [str_simps]: "match_at r b t =
     (case runs r (b, t, []) of
        [] \<Rightarrow> None
      | (b', t', cs) # _ \<Rightarrow>
          Some \<lparr>found_text = take (length t - length t') t, found_groups = cs, found_after = t'\<rparr>)"

definition re_match :: "rx \<Rightarrow> string \<Rightarrow> found option" where
  [str_simps]: "re_match r s = match_at r [] s"

definition re_fullmatch :: "rx \<Rightarrow> string \<Rightarrow> found option" where
  [str_simps]: "re_fullmatch r s =
     (case filter (\<lambda>(b, t, cs). t = []) (runs r ([], s, [])) of
        [] \<Rightarrow> None
      | (b, t, cs) # _ \<Rightarrow> Some \<lparr>found_text = s, found_groups = cs, found_after = []\<rparr>)"

section \<open>Searching and substituting\<close>

text \<open>One left-to-right pass over a text: its matches, and the characters between them.\<close>

datatype segment = Skipped char | Matched found

function scan :: "rx \<Rightarrow> string \<Rightarrow> string \<Rightarrow> segment list" where
  "scan r b [] = []"
| "scan r b (x # xs) =
     (case match_at r b (x # xs) of
        Some m \<Rightarrow>
          if found_text m = [] then Skipped x # scan r (x # b) xs
          else Matched m # scan r (rev (found_text m) @ b) (drop (length (found_text m)) (x # xs))
      | None \<Rightarrow> Skipped x # scan r (x # b) xs)"
  by pat_completeness auto
termination
  by (relation "measure (\<lambda>(r, b, t). length t)") auto

definition scan_text :: "rx \<Rightarrow> string \<Rightarrow> segment list" where
  [str_simps]: "scan_text r s = scan r [] s"

definition matches_of :: "segment list \<Rightarrow> found list" where
  [str_simps]: "matches_of = List.map_filter
     (\<lambda>g. case g of Matched m \<Rightarrow> Some m | Skipped c \<Rightarrow> None)"

definition finditer :: "rx \<Rightarrow> string \<Rightarrow> found list" where
  [str_simps]: "finditer r s = matches_of (scan_text r s)"

definition re_search :: "rx \<Rightarrow> string \<Rightarrow> found option" where
  [str_simps]: "re_search r s = (case finditer r s of [] \<Rightarrow> None | m # _ \<Rightarrow> Some m)"

fun rewrite :: "(found \<Rightarrow> string) \<Rightarrow> segment list \<Rightarrow> string" where
  "rewrite f [] = []"
| "rewrite f (Skipped c # gs) = c # rewrite f gs"
| "rewrite f (Matched m # gs) = f m @ rewrite f gs"

text \<open>\<open>count=1\<close>: only the first match is replaced.\<close>

fun rewrite_first :: "(found \<Rightarrow> string) \<Rightarrow> segment list \<Rightarrow> string" where
  "rewrite_first f [] = []"
| "rewrite_first f (Skipped c # gs) = c # rewrite_first f gs"
| "rewrite_first f (Matched m # gs) = f m @ rewrite found_text gs"

definition re_sub :: "rx \<Rightarrow> (found \<Rightarrow> string) \<Rightarrow> string \<Rightarrow> string" where
  [str_simps]: "re_sub r f s = rewrite f (scan_text r s)"

definition re_sub_once :: "rx \<Rightarrow> (found \<Rightarrow> string) \<Rightarrow> string \<Rightarrow> string" where
  [str_simps]: "re_sub_once r f s = rewrite_first f (scan_text r s)"

section \<open>Laws of the matcher\<close>

text \<open>A match reads a prefix of the text left, and nothing else.\<close>

definition consumes :: "rx_state \<Rightarrow> rx_state \<Rightarrow> string \<Rightarrow> bool" where
  "consumes s s' u = (fst (snd s) = u @ fst (snd s') \<and> fst s' = rev u @ fst s)"

lemma consumes_Nil [simp]: "consumes s s []"
  by (simp add: consumes_def)

lemma consumes_trans: "consumes s s' u \<Longrightarrow> consumes s' s'' v \<Longrightarrow> consumes s s'' (u @ v)"
  by (auto simp: consumes_def)

fun min_width :: "rx \<Rightarrow> nat" where
  "min_width (Cls P) = 1"
| "min_width (Seq r q) = min_width r + min_width q"
| "min_width (Alt r q) = min (min_width r) (min_width q)"
| "min_width (Group n r) = min_width r"
| "min_width _ = 0"

lemma repeat_runs_consumes:
  assumes f: "\<And>s s'. s' \<in> set (f s) \<Longrightarrow> \<exists>u. consumes s s' u"
  shows "s' \<in> set (repeat_runs g f n s) \<Longrightarrow> \<exists>u. consumes s s' u"
proof (induction n arbitrary: s s')
  case 0
  then show ?case by (metis consumes_Nil empty_set list.simps(15) repeat_runs.simps(1) singletonD)
next
  case (Suc n)
  then consider "s' = s"
    | s1 where "s1 \<in> set (f s)" "s' \<in> set (repeat_runs g f n s1)"
    by (auto simp: Let_def split: if_splits)
  then show ?case
  proof cases
    case 1
    then show ?thesis by (metis consumes_Nil)
  next
    case 2
    then show ?thesis using f Suc.IH consumes_trans by metis
  qed
qed

lemma runs_consumes: "s' \<in> set (runs r s) \<Longrightarrow> \<exists>u. consumes s s' u \<and> min_width r \<le> length u"
proof (induction r arbitrary: s s')
  case (Cls P)
  then obtain b x t cs where "s = (b, x # t, cs)" "s' = (x # b, t, cs)"
    by (cases s rule: prod_cases3) (auto split: list.splits if_splits)
  then have "consumes s s' [x]" by (simp add: consumes_def)
  then show ?case by force
next
  case (Seq r q)
  then obtain s1 where "s1 \<in> set (runs r s)" "s' \<in> set (runs q s1)" by auto
  with Seq.IH obtain u v where "consumes s s1 u" "min_width r \<le> length u"
    "consumes s1 s' v" "min_width q \<le> length v" by meson
  then show ?case by (intro exI [of _ "u @ v"]) (auto intro: consumes_trans)
next
  case (Star g r)
  have "\<exists>u. consumes s1 s2 u" if "s2 \<in> set (runs r s1)" for s1 s2
    using Star.IH [OF that] by blast
  from repeat_runs_consumes [where f = "runs r", OF this] Star.prems
  show ?case by auto
next
  case (Group n r)
  then obtain s1 where s1: "s1 \<in> set (runs r s)"
    and s': "fst s' = fst s1" "fst (snd s') = fst (snd s1)"
    by auto
  from Group.IH [OF s1] obtain u where "consumes s s1 u" "min_width r \<le> length u" by blast
  with s' show ?case by (auto simp: consumes_def)
qed (fastforce simp: consumes_def split: prod.splits if_splits)+

lemma match_at_SomeD:
  assumes "match_at r b t = Some m"
  shows "t = found_text m @ found_after m" and "min_width r \<le> length (found_text m)"
proof -
  from assms obtain b' t' cs ss where runs: "runs r (b, t, []) = (b', t', cs) # ss"
    and m: "m = \<lparr>found_text = take (length t - length t') t, found_groups = cs, found_after = t'\<rparr>"
    by (auto simp: match_at_def split: list.splits)
  then have "(b', t', cs) \<in> set (runs r (b, t, []))" by simp
  then obtain u where "t = u @ t'" and "min_width r \<le> length u"
    using runs_consumes [of "(b', t', cs)" r "(b, t, [])"] by (auto simp: consumes_def)
  with m show "t = found_text m @ found_after m" and "min_width r \<le> length (found_text m)"
    by auto
qed

text \<open>A pattern of positive width has no empty match, so the scanner misses none.\<close>

lemma match_at_not_empty: "0 < min_width r \<Longrightarrow> match_at r b t = Some m \<Longrightarrow> found_text m \<noteq> []"
  using match_at_SomeD(2) by fastforce

text \<open>The pass over a text loses nothing: putting every match back gives the text.\<close>

lemma rewrite_scan: "rewrite found_text (scan r b s) = s"
proof (induction r b s rule: scan.induct)
  case (2 r b x xs)
  show ?case
  proof (cases "match_at r b (x # xs)")
    case None
    with 2 show ?thesis by simp
  next
    case (Some m)
    then have split: "x # xs = found_text m @ found_after m" by (rule match_at_SomeD)
    show ?thesis
    proof (cases "found_text m = []")
      case True
      with 2 Some show ?thesis by simp
    next
      case False
      with 2 Some have "rewrite found_text (scan r b (x # xs)) =
        found_text m @ drop (length (found_text m)) (x # xs)" by simp
      with split show ?thesis by simp
    qed
  qed
qed simp

lemma rewrite_cong:
  "(\<And>m. Matched m \<in> set gs \<Longrightarrow> f m = g m) \<Longrightarrow> rewrite f gs = rewrite g gs"
  by (induction f gs rule: rewrite.induct) auto

lemma matches_of_simps [simp]:
  "matches_of [] = []"
  "matches_of (Skipped c # gs) = matches_of gs"
  "matches_of (Matched m # gs) = m # matches_of gs"
  by (simp_all add: matches_of_def List.map_filter_def)

lemma set_matches_of: "m \<in> set (matches_of gs) \<longleftrightarrow> Matched m \<in> set gs"
proof (induction gs)
  case (Cons g gs)
  then show ?case by (cases g) auto
qed simp

lemma re_sub_same: "(\<And>m. m \<in> set (finditer r s) \<Longrightarrow> f m = found_text m) \<Longrightarrow> re_sub r f s = s"
  unfolding re_sub_def scan_text_def finditer_def set_matches_of
  by (metis rewrite_cong rewrite_scan)

text \<open>The fuel of a repetition suffices: more of it changes nothing.\<close>

lemma repeat_runs_fuel: "remaining s \<le> n \<Longrightarrow> repeat_runs g f n s = repeat_runs g f (remaining s) s"
proof (induction n arbitrary: s rule: less_induct)
  case (less n)
  show ?case
  proof (cases "remaining s")
    case 0
    then show ?thesis by (cases n) simp_all
  next
    case (Suc k)
    then obtain m where n: "n = Suc m" and "k \<le> m" using less.prems by (cases n) auto
    have same: "repeat_runs g f m s' = repeat_runs g f k s'" if "remaining s' < remaining s" for s'
    proof -
      from that Suc have "remaining s' \<le> k" by simp
      moreover from this \<open>k \<le> m\<close> have "remaining s' \<le> m" by simp
      ultimately show ?thesis
        using less.IH [of m s'] less.IH [of k s'] n \<open>k \<le> m\<close> by simp
    qed
    have "map (repeat_runs g f m) (filter (\<lambda>s'. remaining s' < remaining s) (f s))
      = map (repeat_runs g f k) (filter (\<lambda>s'. remaining s' < remaining s) (f s))"
      by (rule map_cong) (auto dest: same)
    then show ?thesis unfolding n Suc by (simp only: repeat_runs.simps Suc Let_def)
  qed
qed

text \<open>A greedy run of one character class: every prefix of the longest run, longest first.\<close>

lemma runs_star_cls_Nil [simp]: "runs (Star g (Cls P)) (b, [], cs) = [(b, [], cs)]"
  by (simp add: remaining_def)

lemma runs_star_cls_stop: "\<not> P x \<Longrightarrow> runs (Star g (Cls P)) (b, x # t, cs) = [(b, x # t, cs)]"
  by (simp add: remaining_def)

lemma runs_star_cls_step: "P x \<Longrightarrow> runs (Star True (Cls P)) (b, x # t, cs)
    = runs (Star True (Cls P)) (x # b, t, cs) @ [(b, x # t, cs)]"
  by (simp add: remaining_def)

lemma hd_runs_star_cls:
  "\<exists>ss. runs (Star True (Cls P)) (b, t, cs)
        = (rev (takeWhile P t) @ b, dropWhile P t, cs) # ss"
proof (induction t arbitrary: b)
  case Nil
  show ?case by (simp only: runs_star_cls_Nil) simp
next
  case (Cons x t)
  then obtain ss where ss: "runs (Star True (Cls P)) (x # b, t, cs)
      = (rev (takeWhile P t) @ x # b, dropWhile P t, cs) # ss" by blast
  show ?case
  proof (cases "P x")
    case True
    with ss show ?thesis by (simp add: runs_star_cls_step del: runs.simps)
  next
    case False
    then show ?thesis by (simp add: runs_star_cls_stop del: runs.simps)
  qed
qed

lemma runs_lit: "runs (lit p) (b, t, cs) =
    (if startswith t p then [(rev p @ b, drop (length p) t, cs)] else [])"
proof (induction p arbitrary: b t)
  case Nil
  then show ?case by (simp add: startswith_def)
next
  case (Cons c p)
  then show ?case by (cases t) (auto simp: startswith_def)
qed

lemma min_width_lit [simp]: "min_width (lit p) = length p"
  by (induction p) auto

section \<open>Deterministic parts of a pattern\<close>

declare runs.simps(2,5) [simp del]

lemma runs_cls [simp]:
  "runs (Cls P) (b, [], cs) = []"
  "runs (Cls P) (b, x # t, cs) = (if P x then [(x # b, t, cs)] else [])"
  by (simp_all add: runs.simps(2))

lemma runs_single: "runs (lit [d]) = runs (Cls (\<lambda>x. x = d))"
proof
  fix s :: rx_state
  obtain b t cs where s: "s = (b, t, cs)" by (rule prod_cases3)
  show "runs (lit [d]) s = runs (Cls (\<lambda>x. x = d)) s"
    unfolding s by (cases t) simp_all
qed

lemmas runs_star_cls = runs_star_cls_Nil runs_star_cls_stop runs_star_cls_step

lemma runs_Seq_hd:
  "runs r s = x # xs \<Longrightarrow> runs q x = y # ys \<Longrightarrow> \<exists>zs. runs (Seq r q) s = y # zs"
  by simp

lemma hd_runs_plus:
  "takeWhile P t \<noteq> [] \<Longrightarrow> \<exists>ss. runs (plus_rx (Cls P)) (b, t, cs)
     = (rev (takeWhile P t) @ b, dropWhile P t, cs) # ss"
proof -
  assume "takeWhile P t \<noteq> []"
  then obtain x u where t: "t = x # u" "P x" by (cases t) (auto split: if_splits)
  obtain ss where "runs (Star True (Cls P)) (x # b, u, cs)
      = (rev (takeWhile P u) @ x # b, dropWhile P u, cs) # ss"
    using hd_runs_star_cls by blast
  with t show ?thesis by (simp add: plus_rx_def)
qed

lemma runs_plus_Nil:
  "takeWhile P t = [] \<Longrightarrow> runs (plus_rx (Cls P)) (b, t, cs) = []"
  by (cases t) (auto simp: plus_rx_def split: if_splits)

definition stop_at :: "char \<Rightarrow> string \<Rightarrow> string \<Rightarrow> string \<Rightarrow> captures \<Rightarrow> rx_state list" where
  "stop_at d b w u cs =
     (case u of [] \<Rightarrow> [] | x # v \<Rightarrow> if x = d then [(d # rev w @ b, v, cs)] else [])"

lemma stop_at_Cons [simp]: "stop_at d b (x # w) u cs = stop_at d (x # b) w u cs"
  by (simp add: stop_at_def split: list.splits)

lemma stop_at_Nil [simp]: "stop_at d b w [] cs = []"
  by (simp add: stop_at_def)

lemma runs_star_then_stop:
  assumes "\<not> P d"
  shows "concat (map (runs (Cls (\<lambda>x. x = d))) (runs (Star True (Cls P)) (b, t, cs)))
    = stop_at d b (takeWhile P t) (dropWhile P t) cs"
proof (induction t arbitrary: b)
  case (Cons x t)
  show ?case
  proof (cases "P x")
    case True
    with assms have "x \<noteq> d" by auto
    with True show ?thesis by (simp add: runs_star_cls Cons.IH)
  qed (simp add: runs_star_cls stop_at_def)
qed simp

lemma runs_plus_then_stop:
  assumes "\<not> P d"
  shows "runs (Seq (plus_rx (Cls P)) (lit [d])) (b, t, cs)
    = (if takeWhile P t = [] then [] else stop_at d b (takeWhile P t) (dropWhile P t) cs)"
  unfolding runs.simps(3) runs_single
  using runs_star_then_stop [of P d, OF assms]
  by (cases t) (simp_all add: plus_rx_def)

lemma plus_empty_iff:
  "runs (plus_rx (Cls P)) (b, t, cs) = [] \<longleftrightarrow> takeWhile P t = []"
  using hd_runs_plus [of P t b cs] runs_plus_Nil [of P t b cs] by fastforce

lemma hd_of_concat:
  "concat (map f xs) = y # ys \<Longrightarrow> \<exists>x ys'. x \<in> set xs \<and> f x = y # ys'"
proof (induction xs)
  case (Cons x xs)
  then show ?case by (cases "f x") auto
qed simp

section \<open>The first match\<close>

definition no_match :: "rx \<Rightarrow> string \<Rightarrow> string \<Rightarrow> bool" where
  "no_match r b t = (case match_at r b t of None \<Rightarrow> True | Some m \<Rightarrow> found_text m = [])"

fun clear_before :: "rx \<Rightarrow> string \<Rightarrow> string \<Rightarrow> string \<Rightarrow> bool" where
  "clear_before r b [] t = True"
| "clear_before r b (x # a) t = (no_match r b (x # a @ t) \<and> clear_before r (x # b) a t)"

lemma scan_no_match: "no_match r b (x # s) \<Longrightarrow> scan r b (x # s) = Skipped x # scan r (x # b) s"
  by (auto simp: no_match_def split: option.splits)

lemma scan_match:
  assumes "match_at r b t = Some m" and "found_text m \<noteq> []"
  shows "scan r b t = Matched m # scan r (rev (found_text m) @ b) (found_after m)"
proof -
  from assms(1) have t: "t = found_text m @ found_after m" by (rule match_at_SomeD)
  moreover from assms(2) obtain x xs where "found_text m @ found_after m = x # xs"
    by (cases "found_text m") auto
  ultimately have "t = x # xs" by simp
  moreover from t have "drop (length (found_text m)) t = found_after m"
    by (metis append_eq_conv_conj)
  ultimately show ?thesis using assms by simp
qed

lemma scan_first_found:
  assumes "matches_of (scan r b s) = m # ms"
  shows "\<exists>a. s = a @ found_text m @ found_after m \<and> clear_before r b a (found_text m @ found_after m)
    \<and> match_at r (rev a @ b) (found_text m @ found_after m) = Some m \<and> found_text m \<noteq> []"
  using assms
proof (induction r b s rule: scan.induct)
  case (2 r b x xs)
  show ?case
  proof (cases "no_match r b (x # xs)")
    case True
    then have "matches_of (scan r (x # b) xs) = m # ms"
      using "2.prems" by (simp add: scan_no_match del: scan.simps)
    with True "2.IH" obtain a where
      "xs = a @ found_text m @ found_after m" "clear_before r (x # b) a (found_text m @ found_after m)"
      "match_at r (rev a @ x # b) (found_text m @ found_after m) = Some m" "found_text m \<noteq> []"
      by (auto simp: no_match_def split: option.splits)
    with True show ?thesis by (intro exI [of _ "x # a"]) simp
  next
    case False
    then obtain m' where m': "match_at r b (x # xs) = Some m'" "found_text m' \<noteq> []"
      by (auto simp: no_match_def split: option.splits)
    with "2.prems" have "m' = m" by (simp add: scan_match del: scan.simps)
    with m' match_at_SomeD(1) [OF m'(1)] show ?thesis by (intro exI [of _ "[]"]) simp
  qed
qed simp

lemma scan_clear:
  "clear_before r b a t \<Longrightarrow> scan r b (a @ t) = map Skipped a @ scan r (rev a @ b) t"
  by (induction a arbitrary: b) (simp_all add: scan_no_match del: scan.simps)

lemma rewrite_first_skipped [simp]: "rewrite_first f (map Skipped a @ gs) = a @ rewrite_first f gs"
  by (induction a) simp_all

lemma matches_of_skipped [simp]: "matches_of (map Skipped a @ gs) = matches_of gs"
  by (induction a) simp_all

lemma scan_at_first:
  assumes "clear_before r b a t" and "match_at r (rev a @ b) t = Some m" and "found_text m \<noteq> []"
  shows "rewrite_first f (scan r b (a @ t)) = a @ f m @ found_after m"
    and "matches_of (scan r b (a @ t)) \<noteq> []"
  using assms by (simp_all add: scan_clear scan_match rewrite_scan del: scan.simps)

section \<open>Replacement templates\<close>

text \<open>
  A replacement given to \<open>re.sub\<close> as a string is a template: a backslash starts an escape
  or a reference to a group (of the names \<open>gs\<close>, in order), and an ill-formed one raises
  \<open>re.error\<close> (or IndexError for an unknown name) before any match is looked for.
\<close>

datatype template_part = Lit char | Ref nat

definition backslash :: char where
  [str_simps]: "backslash = CHR 0x5C"

definition is_octal :: "char \<Rightarrow> bool" where
  [str_simps]: "is_octal c = (48 \<le> code_of c \<and> code_of c \<le> 55)"

fun octal_value :: "string \<Rightarrow> nat" where
  "octal_value s = foldl (\<lambda>n c. 8 * n + digit_value c) 0 s"

definition escape_char :: "char \<Rightarrow> char option" where
  [str_simps]: "escape_char c = map_of
     [(CHR ''a'', char_of (7 :: nat)), (CHR ''b'', char_of (8 :: nat)), (CHR ''f'', char_of (12 :: nat)),
      (CHR ''n'', char_of (10 :: nat)), (CHR ''r'', char_of (13 :: nat)), (CHR ''t'', char_of (9 :: nat)),
      (CHR ''v'', char_of (11 :: nat)), (backslash, backslash)] c"

fun position :: "'a \<Rightarrow> 'a list \<Rightarrow> nat option" where
  "position x [] = None"
| "position x (y # ys) = (if x = y then Some 0 else map_option Suc (position x ys))"

text \<open>One escape, the text after its backslash: its part and the length it takes.\<close>

definition group_part :: "string list \<Rightarrow> nat \<Rightarrow> nat \<Rightarrow> (template_part list \<times> nat) option" where
  [str_simps]: "group_part gs i n = (if i \<le> length gs then Some ([Ref i], n) else None)"

definition named_group :: "string list \<Rightarrow> string \<Rightarrow> (template_part list \<times> nat) option" where
  [str_simps]: "named_group gs s =
     (case s of
        [] \<Rightarrow> None
      | c # cs \<Rightarrow>
          let name = takeWhile (\<lambda>x. x \<noteq> CHR ''>'') cs; n = length name + 3
          in if c \<noteq> CHR ''<'' \<or> name = [] \<or> length name = length cs then None
             else if list_all is_decimal name then group_part gs (value_of_digits 0 name) n
             else (case position name gs of None \<Rightarrow> None | Some i \<Rightarrow> Some ([Ref (Suc i)], n)))"

definition template_escape :: "string list \<Rightarrow> string \<Rightarrow> (template_part list \<times> nat) option" where
  [str_simps]: "template_escape gs s =
     (case s of
        [] \<Rightarrow> None
      | c # cs \<Rightarrow>
          if c = CHR ''g'' then named_group gs cs
          else if c = CHR ''0'' then
            (let digits = takeWhile is_octal (take 2 cs)
             in Some ([Lit (char_of (octal_value digits))], Suc (length digits)))
          else if is_decimal c then
            (let d = take 1 (takeWhile is_decimal cs); e = take 1 (takeWhile is_octal (drop 1 cs))
             in if d \<noteq> [] \<and> is_octal c \<and> list_all is_octal d \<and> e \<noteq> []
                then (if 255 < octal_value (c # d @ e) then None
                      else Some ([Lit (char_of (octal_value (c # d @ e)))], 3))
                else group_part gs (value_of_digits 0 (c # d)) (Suc (length d)))
          else (case escape_char c of
                  Some x \<Rightarrow> Some ([Lit x], 1)
                | None \<Rightarrow> if is_ascii_alnum c then None else Some ([Lit backslash, Lit c], 1)))"

function parse_template :: "string list \<Rightarrow> string \<Rightarrow> template_part list option" where
  "parse_template gs [] = Some []"
| "parse_template gs (c # cs) =
     (if c \<noteq> backslash then map_option ((#) (Lit c)) (parse_template gs cs)
      else (case template_escape gs cs of
              None \<Rightarrow> None
            | Some (parts, n) \<Rightarrow> map_option ((@) parts) (parse_template gs (drop n cs))))"
  by pat_completeness auto
termination
  by (relation "measure (\<lambda>(gs, s). length s)") auto

fun expand_template :: "string list \<Rightarrow> template_part list \<Rightarrow> found \<Rightarrow> string" where
  "expand_template gs [] m = []"
| "expand_template gs (Lit c # ps) m = c # expand_template gs ps m"
| "expand_template gs (Ref 0 # ps) m = found_text m @ expand_template gs ps m"
| "expand_template gs (Ref (Suc i) # ps) m = group m (gs ! i) @ expand_template gs ps m"

lemma parse_template_plain: "backslash \<notin> set t \<Longrightarrow> parse_template gs t = Some (map Lit t)"
  by (induction t) auto

lemma expand_plain [simp]: "expand_template gs (map Lit t) m = t"
  by (induction t) auto

end
