(* ===== verification/Migrations.thy ===== *)
theory Migrations
  imports Application Py_Re User_Repository "HOL-Library.AList"
begin

text \<open>
  The database schema and how it comes about: the revision 0001_create_auth_tables.py with its
  operations on a schema, the table declarations of the SQLAlchemy models, and migrations/env.py,
  which hands the database URL to Alembic through a ConfigParser.
\<close>

section \<open>Schemas\<close>

datatype column_type =
    Integer_Type
  | String_Type nat
  | Boolean_Type
  | Uuid_Type
  | Text_Type
  | Date_Time_Type bool

record column =
  cl_name :: string
  cl_type :: column_type
  cl_nullable :: bool

datatype constraint =
    Primary_Key string "string list"
  | Unique string "string list"
  | Foreign_Key string "string list" string "string list" \<comment> \<open>name, columns, referred table and columns\<close>

record table =
  tb_name :: string
  tb_columns :: "column list"
  tb_constraints :: "constraint list"

record index =
  ix_name :: string
  ix_table :: string
  ix_columns :: "string list"

record db_schema =
  sc_tables :: "table list"
  sc_indexes :: "index list"

section \<open>Operations of a revision\<close>

text \<open>
  What the operations of \<open>alembic.op\<close> do to a schema, as SQL defines the statements they issue:
  a table or index that exists is not created again, one that does not exist is not
  dropped, a table that another one refers to is not dropped, and dropping a table drops its
  indexes.
\<close>

datatype ddl_error = Already_Exists string | Does_Not_Exist string | Referenced string

definition create_table :: "table \<Rightarrow> db_schema \<Rightarrow> ddl_error + db_schema" where
  "create_table t s =
     (if tb_name t \<in> tb_name ` set (sc_tables s) then Inl (Already_Exists (tb_name t))
      else Inr (s\<lparr>sc_tables := sc_tables s @ [t]\<rparr>))"

definition create_index :: "index \<Rightarrow> db_schema \<Rightarrow> ddl_error + db_schema" where
  "create_index i s =
     (if ix_name i \<in> ix_name ` set (sc_indexes s) then Inl (Already_Exists (ix_name i))
      else if ix_table i \<notin> tb_name ` set (sc_tables s) then Inl (Does_Not_Exist (ix_table i))
      else Inr (s\<lparr>sc_indexes := sc_indexes s @ [i]\<rparr>))"

definition drop_index :: "string \<Rightarrow> db_schema \<Rightarrow> ddl_error + db_schema" where
  "drop_index name s =
     (if name \<notin> ix_name ` set (sc_indexes s) then Inl (Does_Not_Exist name)
      else Inr (s\<lparr>sc_indexes := filter (\<lambda>i. ix_name i \<noteq> name) (sc_indexes s)\<rparr>))"

fun refers_to :: "string \<Rightarrow> constraint \<Rightarrow> bool" where
  "refers_to name (Foreign_Key _ _ referred _) = (referred = name)"
| "refers_to name _ = False"

definition drop_table :: "string \<Rightarrow> db_schema \<Rightarrow> ddl_error + db_schema" where
  "drop_table name s =
     (if name \<notin> tb_name ` set (sc_tables s) then Inl (Does_Not_Exist name)
      else if list_ex (\<lambda>t. tb_name t \<noteq> name \<and> list_ex (refers_to name) (tb_constraints t)) (sc_tables s)
      then Inl (Referenced name)
      else Inr \<lparr>sc_tables = filter (\<lambda>t. tb_name t \<noteq> name) (sc_tables s),
                sc_indexes = filter (\<lambda>i. ix_table i \<noteq> name) (sc_indexes s)\<rparr>)"

fun run_operations :: "(db_schema \<Rightarrow> ddl_error + db_schema) list \<Rightarrow> db_schema \<Rightarrow> ddl_error + db_schema" where
  "run_operations [] s = Inr s"
| "run_operations (f # fs) s = (case f s of Inl e \<Rightarrow> Inl e | Inr s' \<Rightarrow> run_operations fs s')"

section \<open>The revision\<close>

definition col :: "string \<Rightarrow> column_type \<Rightarrow> bool \<Rightarrow> column" where
  "col name type nullable = \<lparr>cl_name = name, cl_type = type, cl_nullable = nullable\<rparr>"

definition users_table :: table where
  "users_table = \<lparr>tb_name = ''users'',
     tb_columns = [
       col ''id'' Integer_Type False, col ''username'' (String_Type 150) False,
       col ''email'' (String_Type 320) False, col ''first_name'' (String_Type 150) False,
       col ''last_name'' (String_Type 150) False, col ''password_hash'' (String_Type 255) False,
       col ''is_active'' Boolean_Type False, col ''is_staff'' Boolean_Type False,
       col ''is_superuser'' Boolean_Type False],
     tb_constraints = [
       Primary_Key ''pk_users'' [''id''], Unique ''uq_users_email'' [''email''],
       Unique ''uq_users_username'' [''username'']]\<rparr>"

definition refresh_sessions_table :: table where
  "refresh_sessions_table = \<lparr>tb_name = ''refresh_sessions'',
     tb_columns = [
       col ''id'' Uuid_Type False, col ''refresh_token_hash'' (String_Type 128) False,
       col ''user_id'' Integer_Type False, col ''user_agent'' Text_Type False,
       col ''ip_address_trace'' Text_Type False, col ''created_at'' (Date_Time_Type True) False,
       col ''last_used_at'' (Date_Time_Type True) True, col ''expires_at'' (Date_Time_Type True) False,
       col ''revoked_at'' (Date_Time_Type True) True, col ''rotation_counter'' Integer_Type False],
     tb_constraints = [
       Foreign_Key ''fk_refresh_sessions_user_id_users'' [''user_id''] ''users'' [''id''],
       Primary_Key ''pk_refresh_sessions'' [''id''],
       Unique ''uq_refresh_sessions_refresh_token_hash'' [''refresh_token_hash'']]\<rparr>"

definition upgrade :: "db_schema \<Rightarrow> ddl_error + db_schema" where
  "upgrade = run_operations
     [create_table users_table, create_table refresh_sessions_table,
      create_index \<lparr>ix_name = ''ix_refresh_sessions_user_id'', ix_table = ''refresh_sessions'',
        ix_columns = [''user_id'']\<rparr>]"

definition downgrade :: "db_schema \<Rightarrow> ddl_error + db_schema" where
  "downgrade = run_operations
     [drop_index ''ix_refresh_sessions_user_id'', drop_table ''refresh_sessions'', drop_table ''users'']"

section \<open>The declarations of the models\<close>

text \<open>
  \<open>Mapped[...]\<close> and \<open>mapped_column(...)\<close>: a column is nullable when its annotation allows
  \<open>None\<close>, and a foreign key without a type has the type of the column it refers to.
\<close>

record mapped_column =
  mc_name :: string
  mc_type :: "column_type option"
  mc_optional :: bool
  mc_primary_key :: bool
  mc_foreign_key :: "(string \<times> string) option"
  mc_index :: bool

record table_declaration =
  de_tablename :: string
  de_columns :: "mapped_column list"
  de_uniques :: "(string \<times> string list) list" \<comment> \<open>the \<open>UniqueConstraint\<close>s of \<open>__table_args__\<close>, each with its name\<close>

definition mapped :: "string \<Rightarrow> column_type \<Rightarrow> mapped_column" where
  "mapped name type = \<lparr>mc_name = name, mc_type = Some type, mc_optional = False, mc_primary_key = False,
     mc_foreign_key = None, mc_index = False\<rparr>"

definition user_model_declaration :: table_declaration where
  "user_model_declaration = \<lparr>de_tablename = ''users'',
     de_columns = [
       (mapped ''id'' Integer_Type)\<lparr>mc_primary_key := True\<rparr>,
       mapped ''username'' (String_Type 150), mapped ''email'' (String_Type 320),
       mapped ''first_name'' (String_Type 150), mapped ''last_name'' (String_Type 150),
       mapped ''password_hash'' (String_Type 255), mapped ''is_active'' Boolean_Type,
       mapped ''is_staff'' Boolean_Type, mapped ''is_superuser'' Boolean_Type],
     de_uniques = [(''uq_users_username'', [''username'']), (''uq_users_email'', [''email''])]\<rparr>"

definition refresh_session_model_declaration :: table_declaration where
  "refresh_session_model_declaration = \<lparr>de_tablename = ''refresh_sessions'',
     de_columns = [
       (mapped ''id'' Uuid_Type)\<lparr>mc_primary_key := True\<rparr>,
       mapped ''refresh_token_hash'' (String_Type 128),
       \<lparr>mc_name = ''user_id'', mc_type = None, mc_optional = False, mc_primary_key = False,
        mc_foreign_key = Some (''users'', ''id''), mc_index = True\<rparr>,
       mapped ''user_agent'' Text_Type, mapped ''ip_address_trace'' Text_Type,
       mapped ''created_at'' (Date_Time_Type True),
       (mapped ''last_used_at'' (Date_Time_Type True))\<lparr>mc_optional := True\<rparr>,
       mapped ''expires_at'' (Date_Time_Type True),
       (mapped ''revoked_at'' (Date_Time_Type True))\<lparr>mc_optional := True\<rparr>,
       mapped ''rotation_counter'' Integer_Type],
     de_uniques = [(''uq_refresh_sessions_refresh_token_hash'', [''refresh_token_hash''])]\<rparr>"

text \<open>
  The two accounts of the schema agree: the declared columns are those of the revision, with their
  types and nullability, and so are the names and columns of the unique constraints, by which
  the user repository recognizes a duplicate.
\<close>

definition declared_as :: "column \<Rightarrow> mapped_column \<Rightarrow> bool" where
  "declared_as c m = (cl_name c = mc_name m \<and> cl_nullable c = mc_optional m
     \<and> (case mc_type m of None \<Rightarrow> mc_foreign_key m \<noteq> None | Some type \<Rightarrow> cl_type c = type))"

fun unique_of :: "constraint \<Rightarrow> (string \<times> string list) option" where
  "unique_of (Unique n cols) = Some (n, cols)"
| "unique_of _ = None"

lemma user_model_matches_revision:
  "list_all2 declared_as (tb_columns users_table) (de_columns user_model_declaration)"
  "set (List.map_filter unique_of (tb_constraints users_table)) = set (de_uniques user_model_declaration)"
  "set (map fst (List.map_filter unique_of (tb_constraints users_table))) = set postgres_user_unique_constraint_names"
  "set (map (\<lambda>(n, cols). ''unique constraint failed: users.'' @ concat cols)
     (List.map_filter unique_of (tb_constraints users_table))) = set sqlite_user_unique_messages"
  by code_simp+

lemma refresh_session_model_matches_revision:
  "list_all2 declared_as (tb_columns refresh_sessions_table) (de_columns refresh_session_model_declaration)"
  "set (List.map_filter unique_of (tb_constraints refresh_sessions_table)) = set (de_uniques refresh_session_model_declaration)"
  by code_simp+

section \<open>The Alembic environment\<close>

text \<open>
  Alembic keeps its options in a \<open>ConfigParser\<close>, and documents that \<open>set_main_option\<close> is its
  \<open>set\<close>. The interpolation of Python's standard library checks a value when it is set and
  replaces \<open>%(name)s\<close> when it is read, to a depth of ten.
\<close>

datatype config_error = Value_Error | Interpolation_Syntax_Error | Interpolation_Missing_Option | Interpolation_Depth_Error

definition interpolation_key_re :: rx where
  [str_simps]: "interpolation_key_re = seqs
     [lit ''%('', Group ''key'' (plus_rx (Cls (\<lambda>c. c \<noteq> CHR '')''))), lit '')s'']"

text \<open>\<open>value.replace("%%", "")\<close>.\<close>

fun drop_escapes :: "string \<Rightarrow> string" where
  "drop_escapes [] = []"
| "drop_escapes [c] = [c]"
| "drop_escapes (c # d # s) =
     (if c = CHR ''%'' \<and> d = CHR ''%'' then drop_escapes s else c # drop_escapes (d # s))"

definition before_set :: "string \<Rightarrow> config_error + string" where
  "before_set value =
     (if CHR ''%'' \<in> set (re_sub interpolation_key_re (\<lambda>m. []) (drop_escapes value))
      then Inl Value_Error else Inr value)"

fun and_append :: "config_error + string \<Rightarrow> config_error + string \<Rightarrow> config_error + string" where
  "and_append (Inl e) r = Inl e"
| "and_append (Inr x) (Inl e) = Inl e"
| "and_append (Inr x) (Inr y) = Inr (x @ y)"

function interpolate :: "nat \<Rightarrow> (string \<rightharpoonup> string) \<Rightarrow> string \<Rightarrow> config_error + string" where
  "interpolate 0 values s = Inl Interpolation_Depth_Error"
| "interpolate (Suc n) values [] = Inr []"
| "interpolate (Suc n) values (c # cs) =
     (if c \<noteq> CHR ''%'' then and_append (Inr [c]) (interpolate (Suc n) values cs)
      else (case cs of
          [] \<Rightarrow> Inl Interpolation_Syntax_Error
        | d # ds \<Rightarrow>
            if d = CHR ''%'' then and_append (Inr [d]) (interpolate (Suc n) values ds)
            else (case re_match interpolation_key_re (c # cs) of
                None \<Rightarrow> Inl Interpolation_Syntax_Error
              | Some m \<Rightarrow>
                  (case values (str_lower (group m ''key'')) of
                     None \<Rightarrow> Inl Interpolation_Missing_Option
                   | Some v \<Rightarrow>
                       and_append (if CHR ''%'' \<in> set v then interpolate n values v else Inr v)
                         (interpolate (Suc n) values (found_after m))))))"
  by pat_completeness auto
termination
proof (relation "measures [\<lambda>(n, values, s). n, \<lambda>(n, values, s). length s]", goal_cases)
  case (5 n opts c cs d ds m v)
  then show ?case
    using match_at_SomeD [of interpolation_key_re "[]" "c # cs" m] arg_cong [of _ _ length]
    by (fastforce simp: re_match_def interpolation_key_re_def seqs.simps plus_rx_def)
qed auto

text \<open>\<open>dict(parser.items(section))\<close>: every option is read.\<close>

fun read_options :: "(string \<rightharpoonup> string) \<Rightarrow> (string \<times> string) list \<Rightarrow> config_error + (string \<times> string) list" where
  "read_options values [] = Inr []"
| "read_options values ((name, value) # rest) =
     (case interpolate 10 values value of
        Inl e \<Rightarrow> Inl e
      | Inr v \<Rightarrow> (case read_options values rest of Inl e \<Rightarrow> Inl e | Inr vs \<Rightarrow> Inr ((name, v) # vs)))"

datatype env_action =
    Logging_From_File
  | Configure_Offline string
  | Create_Engine string
  | Configure_Connection
  | Run_Migrations
  | Dispose_Engine

text \<open>
  The script: what it did, and the exception it ended with. The options are those of the
  section \<open>[alembic]\<close> and of the parser's defaults.
\<close>

definition run_migrations_offline :: "(string \<rightharpoonup> string) \<Rightarrow> env_action list \<times> config_error option" where
  "run_migrations_offline values =
     (case values ''sqlalchemy.url'' of
        None \<Rightarrow> ([], Some Interpolation_Missing_Option)
      | Some url \<Rightarrow>
          (case interpolate 10 values url of
             Inl e \<Rightarrow> ([], Some e)
           | Inr u \<Rightarrow> ([Configure_Offline u, Run_Migrations], None)))"

definition run_async_migrations ::
    "(string \<times> string) list \<Rightarrow> (string \<rightharpoonup> string) \<Rightarrow> env_action list \<times> config_error option" where
  "run_async_migrations options values =
     (case read_options values options of
        Inl e \<Rightarrow> ([], Some e)
      | Inr section_options \<Rightarrow>
          ([Create_Engine (case map_of section_options ''sqlalchemy.url'' of None \<Rightarrow> [] | Some u \<Rightarrow> u),
            Configure_Connection, Run_Migrations, Dispose_Engine], None))"

definition env_script ::
    "bool \<Rightarrow> bool \<Rightarrow> (string \<times> string) list \<Rightarrow> (string \<times> string) list \<Rightarrow> database_settings \<Rightarrow>
     env_action list \<times> config_error option" where
  "env_script is_offline_mode has_config_file defaults alembic_options settings =
     (let logged = (if has_config_file then [Logging_From_File] else [])
      in case before_set (async_url settings) of
           Inl e \<Rightarrow> (logged, Some e)
         | Inr url \<Rightarrow>
             (let options = AList.update ''sqlalchemy.url'' url alembic_options;
                  values = map_of (options @ defaults);
                  (actions, result) = (if is_offline_mode then run_migrations_offline values
                    else run_async_migrations (AList.merge defaults options) values)
              in (logged @ actions, result)))"

section \<open>Lemmas\<close>

lemma interpolate_plain: "CHR ''%'' \<notin> set s \<Longrightarrow> interpolate (Suc n) opts s = Inr s"
  by (induction s) auto

lemma read_options_plain:
  "list_all (\<lambda>(name, v). CHR ''%'' \<notin> set v) options \<Longrightarrow> read_options opts options = Inr options"
  using interpolate_plain [of _ 9] by (induction options) (auto simp: numeral_eq_Suc)

text \<open>A reference to an option starts with a percent sign and an opening parenthesis.\<close>

lemma interpolation_key_start:
  assumes "match_at interpolation_key_re b (c # t) = Some m"
  shows "c = CHR ''%'' \<and> startswith t ''(''"
  using assms
  by (cases t) (auto simp: match_at_def interpolation_key_re_def runs_lit startswith_def split: if_splits)

lemma no_interpolation_key:
  "\<not> (c = CHR ''%'' \<and> startswith t ''('') \<Longrightarrow> no_match interpolation_key_re b (c # t)"
  using interpolation_key_start [of b c t]
  by (cases "match_at interpolation_key_re b (c # t)") (auto simp: no_match_def)

lemma clear_before_plain: "CHR ''%'' \<notin> set a \<Longrightarrow> clear_before interpolation_key_re b a t"
  by (induction a arbitrary: b) (auto intro!: no_interpolation_key)

lemma drop_escapes_plain: "CHR ''%'' \<notin> set a \<Longrightarrow> drop_escapes (a @ s) = a @ drop_escapes s"
proof (induction a)
  case (Cons c a)
  then show ?case by (cases "a @ s") auto
qed simp

lemma drop_escapes_Cons: "c \<noteq> CHR ''%'' \<Longrightarrow> \<exists>z. drop_escapes (c # s) = c # z"
  by (cases s) auto

lemma rewrite_skipped: "rewrite f (map Skipped a @ gs) = a @ rewrite f gs"
  by (induction a) simp_all

lemma before_set_plain: "CHR ''%'' \<notin> set s \<Longrightarrow> before_set s = Inr s"
  using drop_escapes_plain [of s "[]"] scan_clear [OF clear_before_plain [of s], where t = "[]" and b = "[]"]
  by (simp add: before_set_def re_sub_def scan_text_def rewrite_skipped [of _ _ "[]", simplified])

text \<open>The first percent sign starts neither an escape nor a reference.\<close>

definition lone_percent :: "string \<Rightarrow> bool" where
  "lone_percent s =
     (case dropWhile (\<lambda>c. c \<noteq> CHR ''%'') s of
        [] \<Rightarrow> False
      | [_] \<Rightarrow> True
      | _ # c # _ \<Rightarrow> c \<noteq> CHR ''%'' \<and> c \<noteq> CHR ''('')"

lemma lone_percent_split:
  assumes "lone_percent s"
  shows "\<exists>a b. s = a @ CHR ''%'' # b \<and> CHR ''%'' \<notin> set a \<and> (b = [] \<or> hd b \<noteq> CHR ''%'' \<and> hd b \<noteq> CHR ''('')"
proof -
  let ?a = "takeWhile (\<lambda>c. c \<noteq> CHR ''%'') s"
  from assms obtain d b where b: "dropWhile (\<lambda>c. c \<noteq> CHR ''%'') s = d # b"
    "b = [] \<or> hd b \<noteq> CHR ''%'' \<and> hd b \<noteq> CHR ''(''"
    by (auto simp: lone_percent_def split: list.splits)
  then have "d = CHR ''%''" using hd_dropWhile [of "\<lambda>c. c \<noteq> CHR ''%''" s] by simp
  with b(1) takeWhile_dropWhile_id [of "\<lambda>c. c \<noteq> CHR ''%''" s] have "s = ?a @ CHR ''%'' # b" by simp
  moreover have "CHR ''%'' \<notin> set ?a" by (auto dest: set_takeWhileD)
  ultimately show ?thesis using b(2) by blast
qed

lemma before_set_lone_percent:
  assumes "lone_percent s"
  shows "before_set s = Inl Value_Error"
proof -
  from lone_percent_split [OF assms] obtain a b where s: "s = a @ CHR ''%'' # b" and a: "CHR ''%'' \<notin> set a"
    and b: "b = [] \<or> hd b \<noteq> CHR ''%'' \<and> hd b \<noteq> CHR ''(''" by blast
  obtain z where z: "drop_escapes (CHR ''%'' # b) = CHR ''%'' # z" "z = [] \<or> hd z \<noteq> CHR ''(''"
  proof (cases b)
    case Nil
    then show ?thesis using that [of "[]"] by simp
  next
    case (Cons c b')
    with b have c: "c \<noteq> CHR ''%''" "c \<noteq> CHR ''(''" by simp_all
    from drop_escapes_Cons [OF c(1)] obtain z' where "drop_escapes (c # b') = c # z'" by blast
    with Cons c show ?thesis using that [of "c # z'"] by simp
  qed
  have "clear_before r d (x @ y) t \<longleftrightarrow> clear_before r d x (y @ t) \<and> clear_before r (rev x @ d) y t"
    for r d x y t by (induction x arbitrary: d) auto
  moreover have "no_match interpolation_key_re d (CHR ''%'' # z)" for d
    using z(2) by (intro no_interpolation_key) (cases z; simp add: startswith_def)
  ultimately have "clear_before interpolation_key_re [] (a @ [CHR ''%'']) z"
    using clear_before_plain [OF a] by simp
  from scan_clear [OF this] rewrite_skipped [of "\<lambda>m. []" "a @ [CHR ''%'']"]
  have "CHR ''%'' \<in> set (re_sub interpolation_key_re (\<lambda>m. []) (a @ CHR ''%'' # z))"
    by (simp add: re_sub_def scan_text_def)
  then show ?thesis
    using z(1) by (simp add: before_set_def s drop_escapes_plain [OF a])
qed

text \<open>The schema before a revision: foreign keys and indexes name tables it has.\<close>

definition schema_wf :: "db_schema \<Rightarrow> bool" where
  "schema_wf s =
     (list_all (\<lambda>t. list_all (\<lambda>c. case c of Foreign_Key _ _ referred _ \<Rightarrow> referred \<in> tb_name ` set (sc_tables s)
        | _ \<Rightarrow> True) (tb_constraints t)) (sc_tables s)
      \<and> list_all (\<lambda>i. ix_table i \<in> tb_name ` set (sc_tables s)) (sc_indexes s))"

lemma schema_wf_not_referred:
  assumes "schema_wf s" and "t \<in> set (sc_tables s)" and "c \<in> set (tb_constraints t)"
    and "name \<notin> tb_name ` set (sc_tables s)"
  shows "\<not> refers_to name c"
  using assms by (cases c) (fastforce simp: schema_wf_def list_all_iff)+

section \<open>Properties\<close>

text \<open>
  C25. The downgrade undoes the upgrade: on any schema whose foreign keys and indexes name tables
  it has, when the upgrade goes through, the downgrade goes through after it and gives the
  schema back.
\<close>

theorem downgrade_undoes_upgrade:
  assumes "schema_wf s" and "upgrade s = Inr s'"
  shows "downgrade s' = Inr s"
proof -
  let ?ix = "\<lparr>ix_name = ''ix_refresh_sessions_user_id'', ix_table = ''refresh_sessions'', ix_columns = [''user_id'']\<rparr>"
  from assms(2) have new: "''users'' \<notin> tb_name ` set (sc_tables s)" "''refresh_sessions'' \<notin> tb_name ` set (sc_tables s)"
    "''ix_refresh_sessions_user_id'' \<notin> ix_name ` set (sc_indexes s)"
    and s': "s' = \<lparr>sc_tables = sc_tables s @ [users_table, refresh_sessions_table], sc_indexes = sc_indexes s @ [?ix]\<rparr>"
    by (auto simp: upgrade_def create_table_def create_index_def users_table_def refresh_sessions_table_def
        split: sum.splits if_splits)
  have tables: "filter (\<lambda>t. tb_name t \<noteq> n) (sc_tables s) = sc_tables s" if "n \<notin> tb_name ` set (sc_tables s)" for n
    using that by (auto simp: filter_id_conv)
  have indexes: "filter (\<lambda>i. ix_table i \<noteq> n) (sc_indexes s) = sc_indexes s" if "n \<notin> tb_name ` set (sc_tables s)" for n
    using that assms(1) by (auto simp: filter_id_conv schema_wf_def list_all_iff)
  have ix: "filter (\<lambda>i. ix_name i \<noteq> ''ix_refresh_sessions_user_id'') (sc_indexes s) = sc_indexes s"
    using new(3) by (force simp: filter_id_conv)
  have free: "list_ex (\<lambda>t. tb_name t \<noteq> n \<and> list_ex (refers_to n) (tb_constraints t)) (sc_tables s) = False"
    if "n \<notin> tb_name ` set (sc_tables s)" for n
    using schema_wf_not_referred [OF assms(1) _ _ that] by (auto simp: list_ex_iff)
  have names: "tb_name users_table = ''users''" "tb_name refresh_sessions_table = ''refresh_sessions''"
    "list_ex (refers_to ''refresh_sessions'') (tb_constraints users_table) = False"
    by (simp_all add: users_table_def refresh_sessions_table_def)
  have 1: "drop_index ''ix_refresh_sessions_user_id'' s'
      = Inr \<lparr>sc_tables = sc_tables s @ [users_table, refresh_sessions_table], sc_indexes = sc_indexes s\<rparr>"
    by (simp add: s' drop_index_def ix)
  have 2: "drop_table ''refresh_sessions''
        \<lparr>sc_tables = sc_tables s @ [users_table, refresh_sessions_table], sc_indexes = sc_indexes s\<rparr>
      = Inr \<lparr>sc_tables = sc_tables s @ [users_table], sc_indexes = sc_indexes s\<rparr>"
    by (simp add: drop_table_def names tables [OF new(2)] indexes [OF new(2)] free [OF new(2)])
  have 3: "drop_table ''users'' \<lparr>sc_tables = sc_tables s @ [users_table], sc_indexes = sc_indexes s\<rparr> = Inr s"
    by (simp add: drop_table_def names tables [OF new(1)] indexes [OF new(1)] free [OF new(1)])
  show ?thesis by (simp add: downgrade_def 1 2 3)
qed

definition alembic_schema :: db_schema where
  "alembic_schema = \<lparr>sc_tables = [\<lparr>tb_name = ''alembic_version'',
     tb_columns = [col ''version_num'' (String_Type 32) False],
     tb_constraints = [Primary_Key ''alembic_version_pkc'' [''version_num'']]\<rparr>], sc_indexes = []\<rparr>"

theorem downgrade_undoes_upgrade_witness:
  "\<exists>s'. upgrade alembic_schema = Inr s' \<and> downgrade s' = Inr alembic_schema"
proof -
  have "\<exists>s'. upgrade alembic_schema = Inr s'"
    by (simp add: upgrade_def create_table_def create_index_def alembic_schema_def users_table_def
        refresh_sessions_table_def)
  then obtain s' where s': "upgrade alembic_schema = Inr s'" ..
  have "schema_wf alembic_schema" by code_simp
  from downgrade_undoes_upgrade [OF this s'] s' show ?thesis by blast
qed

text \<open>
  C26. The database URL reaches the migrations only if it has no percent sign: then either mode
  runs the revisions against exactly the service's URL; but a URL with a percent sign that
  starts no reference, as percent-encoded credentials have, ends the script with a ValueError
  before any revision runs, although the service itself connects with that URL.
\<close>

theorem migration_url_percent:
  assumes "list_all (\<lambda>(name, v). CHR ''%'' \<notin> set v) (defaults @ alembic_options)"
    and "map_of defaults ''sqlalchemy.url'' = None"
  shows "(CHR ''%'' \<notin> set (async_url settings) \<longrightarrow>
      env_script is_offline_mode has_config_file defaults alembic_options settings =
      ((if has_config_file then [Logging_From_File] else [])
       @ (if is_offline_mode then [Configure_Offline (async_url settings), Run_Migrations]
          else [Create_Engine (async_url settings), Configure_Connection, Run_Migrations, Dispose_Engine]), None))
    \<and> (lone_percent (async_url settings) \<longrightarrow>
      env_script is_offline_mode has_config_file defaults alembic_options settings =
        (if has_config_file then [Logging_From_File] else [], Some Value_Error))"
proof (intro conjI impI)
  let ?url = "async_url settings"
  let ?options = "AList.update ''sqlalchemy.url'' ?url alembic_options"
  assume url: "CHR ''%'' \<notin> set ?url"
  have "\<forall>x \<in> set (AList.update ''sqlalchemy.url'' ?url os). x = (''sqlalchemy.url'', ?url) \<or> x \<in> set os" for os
    by (induction os) auto
  with assms(1) url have options: "\<forall>x \<in> set ?options. CHR ''%'' \<notin> set (snd x)"
    by (fastforce simp: list_all_iff)
  have "\<forall>x \<in> set (AList.merge d os). x \<in> set d \<or> x \<in> set os" for d os :: "(string \<times> string) list"
  proof (induction os)
    case (Cons kv os)
    have "\<forall>x \<in> set (AList.update k v l). x = (k, v) \<or> x \<in> set l" for k v and l :: "(string \<times> string) list"
      by (induction l) auto
    with Cons show ?case by (cases kv) fastforce
  qed simp
  with options assms(1) have plain: "list_all (\<lambda>(name, v). CHR ''%'' \<notin> set v) (AList.merge defaults ?options)"
    by (fastforce simp: list_all_iff)
  show "env_script is_offline_mode has_config_file defaults alembic_options settings =
      ((if has_config_file then [Logging_From_File] else [])
       @ (if is_offline_mode then [Configure_Offline ?url, Run_Migrations]
          else [Create_Engine ?url, Configure_Connection, Run_Migrations, Dispose_Engine]), None)"
    using interpolate_plain [OF url, of 9] read_options_plain [OF plain]
    by (simp add: env_script_def before_set_plain [OF url] run_migrations_offline_def run_async_migrations_def
        AList.merge_conv' AList.update_conv' numeral_eq_Suc)
next
  assume "lone_percent (async_url settings)"
  from before_set_lone_percent [OF this]
  show "env_script is_offline_mode has_config_file defaults alembic_options settings =
      (if has_config_file then [Logging_From_File] else [], Some Value_Error)"
    by (simp add: env_script_def)
qed

text \<open>A password whose at sign is percent-encoded.\<close>

theorem migration_url_percent_witness:
  "env_script False True [(''here'', ''/app'')] [(''script_location'', ''migrations'')]
     \<lparr>ds_url = ''postgres://u:p%40ss@db/app'', ds_echo = False\<rparr> = ([Logging_From_File], Some Value_Error)
   \<and> env_script False True [(''here'', ''/app'')] [(''script_location'', ''migrations'')]
     \<lparr>ds_url = ''postgres://u:pass@db/app'', ds_echo = False\<rparr> =
       ([Logging_From_File, Create_Engine ''postgresql+psycopg://u:pass@db/app'', Configure_Connection,
         Run_Migrations, Dispose_Engine], None)"
proof -
  have lone: "lone_percent (async_url \<lparr>ds_url = ''postgres://u:p%40ss@db/app'', ds_echo = False\<rparr>)" by code_simp
  have url: "async_url \<lparr>ds_url = ''postgres://u:pass@db/app'', ds_echo = False\<rparr> = ''postgresql+psycopg://u:pass@db/app''"
    by code_simp
  have a: "list_all (\<lambda>(name, v). CHR ''%'' \<notin> set v) ([(''here'', ''/app'')] @ [(''script_location'', ''migrations'')])"
    and b: "map_of [(''here'', ''/app'')] ''sqlalchemy.url'' = None" by simp_all
  show ?thesis
    using migration_url_percent [OF a b, of "\<lparr>ds_url = ''postgres://u:p%40ss@db/app'', ds_echo = False\<rparr>" False True] lone
      migration_url_percent [OF a b, of "\<lparr>ds_url = ''postgres://u:pass@db/app'', ds_echo = False\<rparr>" False True] url
    by simp
qed

end
