(* ===== verification/Schemas.thy ===== *)
theory Schemas
  imports Http_Properties Migrations
begin

text \<open>
  The request bodies (core/*/delivery/fastapi/schemas on foundation/delivery/fastapi/schema.py):
  what pydantic builds from the JSON object of a request, the refusal of everything else
  before the endpoint runs, and the widths of the user columns a registration must fit.
\<close>

section \<open>Bodies and schemas\<close>

text \<open>A decoded JSON object: its keys with their values, of which only strings matter here.\<close>

datatype body_value = Text_Value string | Other_Value

type_synonym body = "(string \<times> body_value) list"

definition body_str :: "string \<Rightarrow> body \<Rightarrow> string option" where
  "body_str name body = (case map_of body name of Some (Text_Value s) \<Rightarrow> Some s | _ \<Rightarrow> None)"

text \<open>\<open>extra="forbid"\<close> of \<open>BaseFastAPISchema\<close>.\<close>

definition only_fields :: "string list \<Rightarrow> body \<Rightarrow> bool" where
  "only_fields names body = list_all (\<lambda>(name, _). name \<in> set names) body"

definition issue_token_request_schema :: "body \<Rightarrow> issue_token_dto option" where
  "issue_token_request_schema body =
     (if \<not> only_fields [''username'', ''password''] body then None
      else (case (body_str ''username'' body, body_str ''password'' body) of
          (Some username, Some password) \<Rightarrow> Some \<lparr>it_username = username, it_password = password\<rparr>
        | _ \<Rightarrow> None))"

definition refresh_token_request_schema :: "body \<Rightarrow> refresh_token_dto option" where
  "refresh_token_request_schema body =
     (if \<not> only_fields [''refresh_token''] body then None
      else map_option (\<lambda>t. \<lparr>rt_refresh_token = t\<rparr>) (body_str ''refresh_token'' body))"

definition revoke_token_request_schema :: "body \<Rightarrow> refresh_token_dto option" where
  "revoke_token_request_schema body =
     (if \<not> only_fields [''refresh_token''] body then None
      else map_option (\<lambda>t. \<lparr>rt_refresh_token = t\<rparr>) (body_str ''refresh_token'' body))"

definition create_user_fields :: "string list" where
  "create_user_fields = [''email'', ''username'', ''first_name'', ''last_name'', ''password'']"

definition create_user_request_schema :: "'w runtime \<Rightarrow> body \<Rightarrow> register_user_dto option" where
  "create_user_request_schema rt body =
     (if \<not> only_fields create_user_fields body then None
      else (case (Option.bind (body_str ''email'' body) (rt_validate_email rt), body_str ''username'' body,
              body_str ''first_name'' body, body_str ''last_name'' body, body_str ''password'' body) of
          (Some email, Some username, Some first_name, Some last_name, Some password) \<Rightarrow>
            if length username \<le> user_name_max_length \<and> length first_name \<le> user_name_max_length
               \<and> length last_name \<le> user_name_max_length \<and> length password \<le> password_max_length
            then Some \<lparr>ru_email = email, ru_username = username, ru_first_name = first_name,
                       ru_last_name = last_name, ru_password = password\<rparr>
            else None
        | _ \<Rightarrow> None))"

text \<open>
  The framework builds the body before it calls the endpoint, and answers a body that the
  schema refuses itself; \<open>unprocessable\<close> stands for its exception, answered 422.
\<close>

definition posted ::
    "(body \<Rightarrow> 'b option) \<Rightarrow> exn \<Rightarrow> ('b \<Rightarrow> ('w, exn, 'a) prog) \<Rightarrow> body \<Rightarrow> ('w, exn, 'a) prog" where
  "posted schema unprocessable endpoint body =
     (case schema body of None \<Rightarrow> raise unprocessable | Some request_body \<Rightarrow> endpoint request_body)"

section \<open>The widths of the columns\<close>

text \<open>
  A row against the \<open>VARCHAR\<close> lengths of the table \<open>users\<close> as the revision creates it;
  PostgreSQL refuses a longer value.
\<close>

definition user_text_columns :: "user_model \<Rightarrow> (string \<times> string) list" where
  "user_text_columns m =
     [(''username'', um_username m), (''email'', um_email m), (''first_name'', um_first_name m),
      (''last_name'', um_last_name m), (''password_hash'', um_password_hash m)]"

definition user_columns_fit :: "user_model \<Rightarrow> bool" where
  "user_columns_fit m =
     list_all (\<lambda>c. case cl_type c of
         String_Type n \<Rightarrow> (case map_of (user_text_columns m) (cl_name c) of None \<Rightarrow> False | Some v \<Rightarrow> length v \<le> n)
       | _ \<Rightarrow> True) (tb_columns users_table)"

section \<open>Lemmas\<close>

lemma user_columns_fit_iff:
  "user_columns_fit m \<longleftrightarrow>
     length (um_username m) \<le> 150 \<and> length (um_email m) \<le> 320 \<and> length (um_first_name m) \<le> 150
     \<and> length (um_last_name m) \<le> 150 \<and> length (um_password_hash m) \<le> 255"
  by (simp add: user_columns_fit_def user_text_columns_def users_table_def col_def)

lemma make_register_user_dto_bounds:
  "make_register_user_dto rt a b c d e = Inr data \<Longrightarrow>
     length (ru_username data) \<le> 150 \<and> length (ru_first_name data) \<le> 150 \<and> length (ru_last_name data) \<le> 150
     \<and> length (ru_password data) \<le> 128 \<and> (\<exists>s. rt_validate_email rt s = Some (ru_email data))"
  by (auto simp: make_register_user_dto_def user_name_max_length_def password_max_length_def
      split: option.splits if_splits)

lemma normalized_bounds:
  "normalize_register_user_data rt data = Inr d \<Longrightarrow>
     length (ru_username d) \<le> 150 \<and> length (ru_first_name d) \<le> 150 \<and> length (ru_last_name d) \<le> 150
     \<and> length (ru_password d) \<le> 128"
  unfolding normalize_register_user_data_def by (drule make_register_user_dto_bounds) blast

text \<open>Every row a registration adds fits, when the e-mail validator and the hash function do.\<close>

lemma registered_row_fits:
  fixes w :: "'db world"
  assumes "v_idle sql_view w"
    and "register_user (world_runtime L) settings sqlalchemy_unit_of_work data w = (Inr x, w')"
    and "\<And>s v. lib_validate_email L s = Some v \<Longrightarrow> length v \<le> 320"
    and "\<And>p h. length p \<le> 128 \<Longrightarrow> h \<in> hashes_of L p \<Longrightarrow> length h \<le> 255"
  shows "\<exists>m. t_users (committed_of w') = t_users (committed_of w) @ [m] \<and> user_columns_fit m"
proof -
  from transacts_ok [OF app.register_user_transacts assms(1,2)] obtain d p m h where
    d: "normalize_register_user_data (world_runtime L :: 'db world runtime) data = Inr d"
    and p: "persist_user_data (world_runtime L :: 'db world runtime) d = Inr p"
    and h: "h \<in> hashes_of L (ru_password data)" and m: "values_of m = new_user_values p h"
    and t: "committed_of w' = (committed_of w)\<lparr>t_users := t_users (committed_of w) @ [m]\<rparr>"
    by (fastforce simp: committed_of_def)
  from normalized_bounds [OF d] have b: "length (ru_username d) \<le> 150" "length (ru_first_name d) \<le> 150"
    "length (ru_last_name d) \<le> 150" "length (ru_password d) \<le> 128" by auto
  from normalized_values [OF d] have "ru_password d = ru_password data" by simp
  with b(4) h assms(4) have "length h \<le> 255" by simp
  with persisted_values [OF p m] b assms(3) [of "ru_email d" "um_email m"] have "user_columns_fit m"
    by (simp add: user_columns_fit_iff)
  with t show ?thesis by auto
qed

section \<open>Properties\<close>

text \<open>
  C16. The schema of a registration accepts exactly the objects with the five fields and no other,
  each a string, the e-mail valid and the others within their lengths; in particular a
  body that names \<open>is_staff\<close> or any other column is refused before anything runs.
\<close>

theorem create_user_schema_accepts:
  "create_user_request_schema rt body = Some data \<longleftrightarrow>
     fst ` set body = set create_user_fields
     \<and> (\<exists>email. map_of body ''email'' = Some (Text_Value email) \<and> rt_validate_email rt email = Some (ru_email data))
     \<and> map_of body ''username'' = Some (Text_Value (ru_username data))
     \<and> map_of body ''first_name'' = Some (Text_Value (ru_first_name data))
     \<and> map_of body ''last_name'' = Some (Text_Value (ru_last_name data))
     \<and> map_of body ''password'' = Some (Text_Value (ru_password data))
     \<and> length (ru_username data) \<le> 150 \<and> length (ru_first_name data) \<le> 150
     \<and> length (ru_last_name data) \<le> 150 \<and> length (ru_password data) \<le> 128"
proof -
  have fields: "list_all (\<lambda>(n, _). n \<in> set ns) b = (fst ` set b \<subseteq> set ns)" for ns and b :: body
    by (induction b) auto
  have str: "body_str n b = Some v \<longleftrightarrow> map_of b n = Some (Text_Value v)" for n b v
    by (auto simp: body_str_def split: option.splits body_value.splits)
  have key: "map_of b n = Some v \<Longrightarrow> n \<in> fst ` set b" for b :: body and n v
    by (drule map_of_SomeD) force
  have all: "set create_user_fields \<subseteq> fst ` set body"
    if "map_of body ''email'' = Some a" "map_of body ''username'' = Some b" "map_of body ''first_name'' = Some c"
      "map_of body ''last_name'' = Some d" "map_of body ''password'' = Some e" for a b c d e
    using that [THEN key] by (simp add: create_user_fields_def)
  have opened: "create_user_request_schema rt body = Some data \<longleftrightarrow>
     fst ` set body \<subseteq> set create_user_fields
     \<and> (\<exists>email. body_str ''email'' body = Some email \<and> rt_validate_email rt email = Some (ru_email data))
     \<and> body_str ''username'' body = Some (ru_username data) \<and> body_str ''first_name'' body = Some (ru_first_name data)
     \<and> body_str ''last_name'' body = Some (ru_last_name data) \<and> body_str ''password'' body = Some (ru_password data)
     \<and> length (ru_username data) \<le> 150 \<and> length (ru_first_name data) \<le> 150
     \<and> length (ru_last_name data) \<le> 150 \<and> length (ru_password data) \<le> 128"
    by (cases data)
      (auto simp: create_user_request_schema_def only_fields_def fields user_name_max_length_def
        password_max_length_def bind_eq_Some_conv split: option.splits if_splits)
  show ?thesis
    unfolding opened str using all by (metis subset_antisym equalityD1)
qed

text \<open>
  C17. A registration fits its row: when the e-mail validator answers at most 254 characters and
  the hash of a password of at most 128 has at most 255, a POST whose registration succeeds
  has added one row whose values are within the lengths of their columns, so the database
  never refuses a registration that the schema let through for a value that is too long.
\<close>

theorem registration_fits_columns:
  fixes w :: "'db world"
  assumes "v_idle sql_view w"
    and "posted (create_user_request_schema (world_runtime L :: 'db world runtime)) unprocessable
      (create_user_endpoint (world_runtime L) settings sqlalchemy_unit_of_work) body w = (Inr x, w')"
    and "\<And>s v. lib_validate_email L s = Some v \<Longrightarrow> length v \<le> 254"
    and "\<And>p h. length p \<le> 128 \<Longrightarrow> h \<in> hashes_of L p \<Longrightarrow> length h \<le> 255"
  shows "\<exists>m. t_users (committed_of w') = t_users (committed_of w) @ [m] \<and> user_columns_fit m"
proof -
  from assms(2) obtain body' where
    run: "create_user_endpoint (world_runtime L) settings sqlalchemy_unit_of_work body' w = (Inr x, w')"
    by (auto simp: posted_def raise_def split: option.splits)
  obtain data usr where "register_user (world_runtime L) settings sqlalchemy_unit_of_work data w = (Inr usr, w')"
    using run
    by (auto simp: create_user_endpoint_def handler_runs bind_p_def of_result_def ret_def raise_def
        split: prod.splits sum.splits)
  moreover have "length v \<le> 320" if "lib_validate_email L s = Some v" for s v
    using assms(3) [OF that] by simp
  ultimately show ?thesis using registered_row_fits [OF assms(1)] assms(4) by blast
qed

text \<open>The sample libraries with a validator that refuses what is longer than an address may be.\<close>

definition bounded_lib :: lib where
  "bounded_lib = sample_lib\<lparr>lib_validate_email :=
     (\<lambda>s. if CHR ''@'' \<in> set s \<and> length s \<le> 254 then Some s else None)\<rparr>"

definition carol_body :: body where
  "carol_body = [(''email'', Text_Value ''carol@Example.ORG''), (''username'', Text_Value '' carol ''),
     (''first_name'', Text_Value ''C''), (''last_name'', Text_Value ''D''), (''password'', Text_Value ''correct horse'')]"

theorem registration_fits_columns_witness:
  "\<exists>m. t_users (committed_of (snd (posted (create_user_request_schema (world_runtime bounded_lib :: memory world runtime)) ValidationError
       (create_user_endpoint (world_runtime bounded_lib) sample_policy sqlalchemy_unit_of_work) carol_body
       (world_of sample_tables)))) = t_users (committed_of (world_of sample_tables)) @ [m] \<and> user_columns_fit m"
proof -
  let ?run = "posted (create_user_request_schema (world_runtime bounded_lib :: memory world runtime)) ValidationError
       (create_user_endpoint (world_runtime bounded_lib) sample_policy sqlalchemy_unit_of_work) carol_body
       (world_of sample_tables)"
  have "map_option us_username (case fst ?run of Inr x \<Rightarrow> Some x | Inl e \<Rightarrow> None) = Some ''carol''" by code_simp
  then obtain x where "fst ?run = Inr x" by (cases "fst ?run") auto
  then have run: "?run = (Inr x, snd ?run)" by (simp add: prod_eq_iff)
  have email: "length v \<le> 254" if "lib_validate_email bounded_lib s = Some v" for s v
    using that by (simp add: bounded_lib_def split: if_splits)
  have hash: "length h \<le> 255" if "length p \<le> 128" "h \<in> hashes_of bounded_lib p" for p h
    using that by (auto simp: bounded_lib_def sample_lib_def hashes_of_def)
  show ?thesis by (rule registration_fits_columns [OF sample_idle run email hash])
qed

end
