(* ===== verification/Rotation_Races.thy ===== *)
theory Rotation_Races
  imports Refresh_Sessions
begin

text \<open>
  Requests that use one refresh token at the same time. A transaction of
  \<open>rotate_refresh_token\<close> or of a revocation reads the session of the token and checks it,
  and later writes; between the two, the transactions of other requests may commit. A
  state of the race is the committed rows with the progress of every request. The row
  lock of \<open>with_for_update\<close>, which SQLite does not have, is left out: any interleaving of
  the statements is allowed, and each UPDATE evaluates its WHERE clause on the committed
  rows, as a database under READ COMMITTED does. A request that replaced no row raises, so
  its transaction is rolled back.
\<close>

section \<open>Requests and steps\<close>

text \<open>A request rotates with the data of its new token, or revokes at an instant.\<close>

datatype attempt =
    Rotate string datetime \<comment> \<open>the hash of its new token, the instant of use\<close>
  | Revoke datetime

datatype progress = Waiting | Checked session_row | Succeeded | Refused

type_synonym race = "tables \<times> (nat \<Rightarrow> progress)"

text \<open>The data \<open>rotate_refresh_token\<close> replaces the hash with, from the row it read.\<close>

definition replace_data :: "string \<Rightarrow> session_row \<Rightarrow> string \<Rightarrow> datetime \<Rightarrow> replace_refresh_session_token_dto" where
  "replace_data token_hash r new_hash used_at =
     \<lparr>rr_session_id = sr_id r, rr_expected_refresh_token_hash = token_hash,
      rr_refresh_token_hash = new_hash, rr_last_used_at = used_at,
      rr_rotation_counter = sr_rotation_counter r + 1\<rparr>"

definition active_row :: "int \<Rightarrow> session_row \<Rightarrow> bool" where
  "active_row now r = (sr_revoked_at r = None \<and> now < sr_expires_at r)"

definition row_of_token :: "string \<Rightarrow> tables \<Rightarrow> session_row option" where
  "row_of_token token_hash t = find (\<lambda>r. sr_refresh_token_hash r = token_hash) (t_sessions t)"

definition update_rows ::
    "(session_row \<Rightarrow> bool) \<Rightarrow> (session_row \<Rightarrow> session_row) \<Rightarrow> tables \<Rightarrow> tables" where
  "update_rows p f t = t\<lparr>t_sessions := map (\<lambda>r. if p r then f r else r) (t_sessions t)\<rparr>"

inductive race_step :: "(nat \<Rightarrow> attempt) \<Rightarrow> string \<Rightarrow> race \<Rightarrow> race \<Rightarrow> bool" for attempts token_hash where
  check: "tasks i = Waiting \<Longrightarrow> row_of_token token_hash t = Some r \<Longrightarrow> active_row now r \<Longrightarrow>
    race_step attempts token_hash (t, tasks) (t, tasks(i := Checked r))"
| refuse: "tasks i = Waiting \<Longrightarrow> row_of_token token_hash t = None \<or>
      (\<exists>r. row_of_token token_hash t = Some r \<and> \<not> active_row now r) \<Longrightarrow>
    race_step attempts token_hash (t, tasks) (t, tasks(i := Refused))"
| rotate: "tasks i = Checked r \<Longrightarrow> attempts i = Rotate new_hash used_at \<Longrightarrow>
    d = replace_data token_hash r new_hash used_at \<Longrightarrow>
    length (filter (replace_guard d) (t_sessions t)) = 1 \<Longrightarrow>
    race_step attempts token_hash (t, tasks)
      (update_rows (replace_guard d) (rotated_row d) t, tasks(i := Succeeded))"
| lose: "tasks i = Checked r \<Longrightarrow> attempts i = Rotate new_hash used_at \<Longrightarrow>
    d = replace_data token_hash r new_hash used_at \<Longrightarrow>
    length (filter (replace_guard d) (t_sessions t)) \<noteq> 1 \<Longrightarrow>
    race_step attempts token_hash (t, tasks) (t, tasks(i := Refused))"
| revoke: "tasks i = Checked r \<Longrightarrow> attempts i = Revoke revoked_at \<Longrightarrow>
    race_step attempts token_hash (t, tasks)
      (update_rows (\<lambda>x. sr_id x = sr_id r) (revoked_row revoked_at) t, tasks(i := Succeeded))"

inductive race_reachable :: "(nat \<Rightarrow> attempt) \<Rightarrow> string \<Rightarrow> tables \<Rightarrow> race \<Rightarrow> bool" for attempts token_hash t0 where
  begun: "race_reachable attempts token_hash t0 (t0, \<lambda>_. Waiting)"
| advance: "race_reachable attempts token_hash t0 s \<Longrightarrow> race_step attempts token_hash s s' \<Longrightarrow>
    race_reachable attempts token_hash t0 s'"

inductive_cases race_stepE: "race_step attempts token_hash s s'"

definition rotated_by :: "(nat \<Rightarrow> attempt) \<Rightarrow> (nat \<Rightarrow> progress) \<Rightarrow> nat \<Rightarrow> bool" where
  "rotated_by attempts tasks i = (tasks i = Succeeded \<and> (\<exists>h at. attempts i = Rotate h at))"

definition revoked_by :: "(nat \<Rightarrow> attempt) \<Rightarrow> (nat \<Rightarrow> progress) \<Rightarrow> nat \<Rightarrow> bool" where
  "revoked_by attempts tasks i = (tasks i = Succeeded \<and> (\<exists>at. attempts i = Revoke at))"

section \<open>The invariant\<close>

text \<open>
  All rows that carry the token's hash have the id \<open>k\<close> of the session it was issued for;
  every request works on that session; after a rotation no row carries the hash; after a
  revocation the session is revoked.
\<close>

definition race_inv :: "(nat \<Rightarrow> attempt) \<Rightarrow> string \<Rightarrow> int \<Rightarrow> race \<Rightarrow> bool" where
  "race_inv attempts token_hash k s =
     (case s of (t, tasks) \<Rightarrow>
        (\<forall>r \<in> set (t_sessions t). sr_refresh_token_hash r = token_hash \<longrightarrow> sr_id r = k)
        \<and> (\<forall>i r. tasks i = Checked r \<longrightarrow> sr_id r = k)
        \<and> (\<forall>i j. rotated_by attempts tasks i \<longrightarrow> rotated_by attempts tasks j \<longrightarrow> i = j)
        \<and> ((\<exists>i. rotated_by attempts tasks i) \<longrightarrow>
             (\<forall>r \<in> set (t_sessions t). sr_refresh_token_hash r \<noteq> token_hash))
        \<and> ((\<exists>i. revoked_by attempts tasks i) \<longrightarrow>
             (\<forall>r \<in> set (t_sessions t). sr_id r = k \<longrightarrow> sr_revoked_at r \<noteq> None)))"

lemma race_inv_begun:
  assumes "schema_ok t" and "row_of_token token_hash t = Some r"
  shows "race_inv attempts token_hash (sr_id r) (t, \<lambda>_. Waiting)"
proof -
  from assms(2) have r: "r \<in> set (t_sessions t)" "sr_refresh_token_hash r = token_hash"
    by (auto simp: row_of_token_def dest: find_SomeD)
  have "x = r" if "x \<in> set (t_sessions t)" "sr_refresh_token_hash x = token_hash" for x
    using session_by_hash_unique [OF assms(1) that(1) r(1)] that(2) r(2) by simp
  then show ?thesis
    by (auto simp: race_inv_def rotated_by_def revoked_by_def)
qed

lemma update_rows_member:
  "x \<in> set (t_sessions (update_rows p f t)) \<longleftrightarrow>
     (\<exists>r \<in> set (t_sessions t). x = (if p r then f r else r))"
  by (auto simp: update_rows_def)

lemma rotated_by_upd:
  "rotated_by attempts (tasks(i := c)) j = (if j = i then c = Succeeded \<and> (\<exists>h at. attempts i = Rotate h at)
     else rotated_by attempts tasks j)"
  "revoked_by attempts (tasks(i := c)) j = (if j = i then c = Succeeded \<and> (\<exists>at. attempts i = Revoke at)
     else revoked_by attempts tasks j)"
  by (simp_all add: rotated_by_def revoked_by_def)

lemma race_inv_step:
  assumes "race_step attempts token_hash s s'" and "race_inv attempts token_hash k s"
    and fresh: "\<And>i h at. attempts i = Rotate h at \<Longrightarrow> h \<noteq> token_hash"
  shows "race_inv attempts token_hash k s'"
  using assms(1,2)
proof (cases rule: race_step.cases)
  case (check tasks i t r now)
  then have "r \<in> set (t_sessions t)" "sr_refresh_token_hash r = token_hash"
    by (auto simp: row_of_token_def dest: find_SomeD)
  with check assms(2) show ?thesis
    by (auto simp: race_inv_def rotated_by_upd split: if_splits)
next
  case (refuse tasks i t now)
  with assms(2) show ?thesis by (auto simp: race_inv_def rotated_by_upd split: if_splits)
next
  case (rotate tasks i r new_hash used_at d t)
  let ?t = "update_rows (replace_guard d) (rotated_row d) t"
  have k: "sr_id r = k" using rotate assms(2) by (auto simp: race_inv_def)
  from rotate(6) have "filter (replace_guard d) (t_sessions t) \<noteq> []" by auto
  then obtain x where "x \<in> set (t_sessions t)" "replace_guard d x"
    by (auto simp: filter_empty_conv)
  then have "\<exists>x \<in> set (t_sessions t). sr_refresh_token_hash x = token_hash"
    using rotate(5) by (auto simp: replace_guard_def replace_data_def)
  with rotate(1) assms(2) have none: "\<not> rotated_by attempts tasks j" for j
    by (auto simp: race_inv_def)
  have new: "new_hash \<noteq> token_hash" using rotate(4) fresh by blast
  have same: "\<forall>y \<in> set (t_sessions t). sr_refresh_token_hash y = token_hash \<longrightarrow> sr_id y = k"
    using rotate(1) assms(2) by (simp add: race_inv_def)
  have gone: "sr_refresh_token_hash x \<noteq> token_hash" if x: "x \<in> set (t_sessions ?t)" for x
  proof -
    from x obtain y where y: "y \<in> set (t_sessions t)"
      "x = (if replace_guard d y then rotated_row d y else y)"
      by (auto simp: update_rows_member)
    show ?thesis
    proof (cases "replace_guard d y")
      case True
      with y new rotate(5) show ?thesis by (simp add: rotated_row_def replace_data_def)
    next
      case False
      with rotate(5) k have "\<not> (sr_id y = k \<and> sr_refresh_token_hash y = token_hash)"
        by (simp add: replace_guard_def replace_data_def)
      with False y same show ?thesis by auto
    qed
  qed
  have dead: "sr_revoked_at x \<noteq> None"
    if x: "x \<in> set (t_sessions ?t)" "sr_id x = k" and j: "revoked_by attempts tasks j" for x j
  proof -
    from x obtain y where y: "y \<in> set (t_sessions t)"
      "x = (if replace_guard d y then rotated_row d y else y)"
      by (auto simp: update_rows_member)
    then have "sr_id y = sr_id x" "sr_revoked_at y = sr_revoked_at x" by (simp_all add: rotated_row_def)
    moreover have "\<forall>y \<in> set (t_sessions t). sr_id y = k \<longrightarrow> sr_revoked_at y \<noteq> None"
      using rotate(1) assms(2) j unfolding race_inv_def by (auto simp only: prod.case)
    ultimately show ?thesis using x(2) y(1) by metis
  qed
  have checked: "\<forall>j r. tasks j = Checked r \<longrightarrow> sr_id r = k"
    using rotate(1) assms(2) unfolding race_inv_def by (simp only: prod.case) blast
  have r': "rotated_by attempts (tasks(i := Succeeded)) j \<Longrightarrow> j = i" for j
    using none by (simp add: rotated_by_upd split: if_splits)
  have v': "revoked_by attempts (tasks(i := Succeeded)) j \<Longrightarrow> revoked_by attempts tasks j" for j
    using rotate(4) by (auto simp: rotated_by_upd split: if_splits)
  have "sr_id x = k" if "(tasks(i := Succeeded)) j = Checked x" for j x
    using that checked by (auto split: if_splits)
  then show ?thesis
    unfolding rotate(2) race_inv_def prod.case
    using gone dead r' v' by blast
next
  case (lose tasks i r new_hash used_at d t)
  with assms(2) show ?thesis by (auto simp: race_inv_def rotated_by_upd split: if_splits)
next
  case (revoke tasks i r revoked_at t)
  let ?t = "update_rows (\<lambda>x. sr_id x = sr_id r) (revoked_row revoked_at) t"
  from revoke(1) assms(2) have inv: "race_inv attempts token_hash k (t, tasks)" by simp
  with revoke(3) have k: "sr_id r = k" by (simp add: race_inv_def)
  have row: "\<exists>y \<in> set (t_sessions t). sr_id x = sr_id y \<and> sr_refresh_token_hash x = sr_refresh_token_hash y
      \<and> (sr_id x = k \<longrightarrow> sr_revoked_at x \<noteq> None)" if x: "x \<in> set (t_sessions ?t)" for x
  proof -
    from x obtain y where "y \<in> set (t_sessions t)" "x = (if sr_id y = sr_id r then revoked_row revoked_at y else y)"
      by (auto simp: update_rows_member)
    with k show ?thesis by (intro bexI [of _ y]) (simp_all add: revoked_row_def)
  qed
  have "rotated_by attempts (tasks(i := Succeeded)) j = rotated_by attempts tasks j" for j
    using revoke(3,4) by (auto simp: rotated_by_def)
  moreover have "sr_id x = k" if "(tasks(i := Succeeded)) j = Checked x" for j x
    using that inv by (auto simp: race_inv_def split: if_splits)
  moreover have "sr_id x = k" if x: "x \<in> set (t_sessions ?t)" and h: "sr_refresh_token_hash x = token_hash" for x
  proof -
    from row [OF x] obtain y where "y \<in> set (t_sessions t)" "sr_id x = sr_id y"
      "sr_refresh_token_hash y = token_hash" using h by auto
    with inv show ?thesis by (simp add: race_inv_def)
  qed
  moreover have "sr_refresh_token_hash x \<noteq> token_hash"
    if j: "rotated_by attempts tasks j" and x: "x \<in> set (t_sessions ?t)" for j x
  proof -
    from row [OF x] obtain y where y: "y \<in> set (t_sessions t)"
      "sr_refresh_token_hash x = sr_refresh_token_hash y" by auto
    from inv j have "\<forall>y \<in> set (t_sessions t). sr_refresh_token_hash y \<noteq> token_hash"
      unfolding race_inv_def prod.case by blast
    with y show ?thesis by simp
  qed
  moreover have "\<forall>x \<in> set (t_sessions ?t). sr_id x = k \<longrightarrow> sr_revoked_at x \<noteq> None"
    using row by blast
  moreover have "\<forall>j l. rotated_by attempts tasks j \<longrightarrow> rotated_by attempts tasks l \<longrightarrow> j = l"
    using inv unfolding race_inv_def prod.case by blast
  ultimately show ?thesis unfolding revoke(2) race_inv_def prod.case by blast
qed

lemma race_invariant:
  assumes "race_reachable attempts token_hash t0 s" and "schema_ok t0"
    and "row_of_token token_hash t0 = Some r"
    and "\<And>i h at. attempts i = Rotate h at \<Longrightarrow> h \<noteq> token_hash"
  shows "race_inv attempts token_hash (sr_id r) s"
  using assms(1)
proof (induction rule: race_reachable.induct)
  case begun
  show ?case by (rule race_inv_begun [OF assms(2,3)])
next
  case (advance s s')
  from race_inv_step [OF advance(2) advance.IH assms(4)] show ?case .
qed

section \<open>Properties\<close>

definition fresh_hashes :: "string \<Rightarrow> (nat \<Rightarrow> attempt) \<Rightarrow> bool" where
  "fresh_hashes token_hash attempts = (\<forall>i h at. attempts i = Rotate h at \<longrightarrow> h \<noteq> token_hash)"

text \<open>
  C11. Of any number of requests that present one refresh token at the same time, at most one
  rotates it, however their statements interleave and without the row lock; and once one of
  them has revoked the session, the session stays revoked, so a token pair that a
  concurrent rotation handed out is refused from then on.
\<close>

theorem one_rotation_wins:
  assumes "race_reachable attempts token_hash t0 (t, tasks)" and "schema_ok t0"
    and "row_of_token token_hash t0 = Some r0" and "fresh_hashes token_hash attempts"
  shows "(\<forall>i j. rotated_by attempts tasks i \<and> rotated_by attempts tasks j \<longrightarrow> i = j)
    \<and> ((\<exists>i. revoked_by attempts tasks i) \<longrightarrow>
         (\<forall>r \<in> set (t_sessions t). sr_id r = sr_id r0 \<longrightarrow> \<not> active_row now r))"
proof -
  have "race_inv attempts token_hash (sr_id r0) (t, tasks)"
    using race_invariant [OF assms(1-3)] assms(4) by (auto simp: fresh_hashes_def)
  then show ?thesis by (auto simp: race_inv_def active_row_def)
qed

text \<open>Two requests check the same row; the first one rotates, the second one is refused.\<close>

definition race_row :: session_row where
  "race_row = \<lparr>sr_id = 1, sr_refresh_token_hash = ''h'', sr_user_id = 1, sr_user_agent = [],
     sr_ip_address_trace = [], sr_created_at = 0, sr_last_used_at = None, sr_expires_at = 9,
     sr_revoked_at = None, sr_rotation_counter = 0\<rparr>"

definition race_user :: user_model where
  "race_user = \<lparr>um_id = 1, um_username = ''a'', um_email = ''a'', um_first_name = [],
     um_last_name = [], um_password_hash = [], um_is_active = True, um_is_staff = False,
     um_is_superuser = False\<rparr>"

definition race_tables :: tables where
  "race_tables = \<lparr>t_users = [race_user], t_sessions = [race_row]\<rparr>"

definition race_attempts :: "nat \<Rightarrow> attempt" where
  "race_attempts i = Rotate (''n'' @ replicate i CHR ''x'') (dt_utc 3)"

lemma two_requests_race:
  "\<exists>t tasks. race_reachable race_attempts ''h'' race_tables (t, tasks)
     \<and> tasks 0 = Succeeded \<and> tasks 1 = Refused"
proof -
  let ?d = "\<lambda>i. replace_data ''h'' race_row (''n'' @ replicate i CHR ''x'') (dt_utc 3)"
  let ?t = "update_rows (replace_guard (?d 0)) (rotated_row (?d 0)) race_tables"
  have row: "row_of_token ''h'' race_tables = Some race_row" "active_row 5 race_row"
    by (simp_all add: row_of_token_def race_tables_def race_row_def active_row_def)
  have "race_reachable race_attempts ''h'' race_tables (race_tables, \<lambda>_. Waiting)"
    by (rule race_reachable.begun)
  then have "race_reachable race_attempts ''h'' race_tables (race_tables, (\<lambda>_. Waiting)(0 := Checked race_row))"
    by (rule race_reachable.advance) (rule race_step.check [OF _ row], simp)
  then have "race_reachable race_attempts ''h'' race_tables
      (race_tables, (\<lambda>_. Waiting)(0 := Checked race_row, 1 := Checked race_row))"
    by (rule race_reachable.advance) (rule race_step.check [OF _ row], simp)
  then have "race_reachable race_attempts ''h'' race_tables
      (?t, (\<lambda>_. Waiting)(0 := Checked race_row, 1 := Checked race_row, 0 := Succeeded))"
    by (rule race_reachable.advance)
      (rule race_step.rotate [where r = race_row], simp_all add: race_attempts_def race_tables_def
        replace_guard_def replace_data_def race_row_def)
  then have "race_reachable race_attempts ''h'' race_tables
      (?t, (\<lambda>_. Waiting)(0 := Checked race_row, 1 := Checked race_row, 0 := Succeeded, 1 := Refused))"
    by (rule race_reachable.advance)
      (rule race_step.lose [where r = race_row and d = "?d 1"], simp_all add: race_attempts_def race_tables_def
        replace_guard_def replace_data_def race_row_def update_rows_def rotated_row_def)
  then show ?thesis by fastforce
qed

lemma one_rotation_wins_witness:
  "\<exists>t tasks. race_reachable race_attempts ''h'' race_tables (t, tasks)
     \<and> rotated_by race_attempts tasks 0 \<and> \<not> rotated_by race_attempts tasks 1"
proof -
  obtain t tasks where run: "race_reachable race_attempts ''h'' race_tables (t, tasks)"
    and tasks: "tasks 0 = Succeeded" "tasks 1 = Refused"
    using two_requests_race by blast
  have "schema_ok race_tables"
    by (simp add: schema_ok_def users_schema_def refresh_sessions_schema_def race_tables_def
      race_user_def race_row_def)
  moreover have "row_of_token ''h'' race_tables = Some race_row"
    by (simp add: row_of_token_def race_tables_def race_row_def)
  moreover have "fresh_hashes ''h'' race_attempts"
    by (simp add: fresh_hashes_def race_attempts_def)
  ultimately have "\<forall>i j. rotated_by race_attempts tasks i \<and> rotated_by race_attempts tasks j \<longrightarrow> i = j"
    using one_rotation_wins [OF run] by blast
  moreover have "rotated_by race_attempts tasks 0"
    using tasks by (simp add: rotated_by_def race_attempts_def)
  ultimately show ?thesis using run by (metis zero_neq_one)
qed

end
