(* ===== verification/Updater_Env.thy ===== *)
theory Updater_Env
  imports Py_Re "HOL-Library.List_Lexorder"
begin

text \<open>
  What the dependency updater (src/management/dependency_updater) runs in: the files of
  the repository, the commands it starts, the lines it prints, and the HTTP and TOML it
  reads. A path is the list of its parts below the repository root, so the order of
  \<open>sorted(paths)\<close> is the lexicographic one on lists of strings. The network, the
  commands, the TOML parser and the speed of the spinner are fields of \<open>updater_env\<close>.
\<close>

section \<open>Results and errors\<close>

datatype json =
    JNull
  | JBool bool
  | JNumber string
  | JStr string
  | JArr "json list"
  | JObj "(string \<times> json) list"

datatype updater_error =
    Runtime_Error string
  | Re_Error
  | Value_Error
  | Key_Error string
  | Type_Error
  | Attribute_Error
  | File_Not_Found_Error
  | Called_Process_Error "string list"
  | Url_Value_Error
  | Uncaught_Fetch_Error
  | Cast_Broken \<comment> \<open>data of another type than a \<open>cast\<close> of the source promises\<close>

type_synonym 'a outcome = "updater_error + 'a"

fun and_then :: "'a outcome \<Rightarrow> ('a \<Rightarrow> 'b outcome) \<Rightarrow> 'b outcome" where
  "and_then (Inl e) k = Inl e"
| "and_then (Inr x) k = k x"

fun map_outcome :: "('a \<Rightarrow> 'b outcome) \<Rightarrow> 'a list \<Rightarrow> 'b list outcome" where
  "map_outcome f [] = Inr []"
| "map_outcome f (x # xs) =
     and_then (f x) (\<lambda>y. and_then (map_outcome f xs) (\<lambda>ys. Inr (y # ys)))"

text \<open>A dict that \<open>json\<close> or \<open>tomllib\<close> built: a repeated key keeps its last value.\<close>

definition json_get :: "(string \<times> json) list \<Rightarrow> string \<Rightarrow> json option" where
  [str_simps]: "json_get kvs k = map_of (rev kvs) k"

definition get_or :: "(string \<times> json) list \<Rightarrow> string \<Rightarrow> json \<Rightarrow> json" where
  [str_simps]: "get_or kvs k d = (case json_get kvs k of None \<Rightarrow> d | Some v \<Rightarrow> v)"

fun as_dict :: "json \<Rightarrow> (string \<times> json) list outcome" where
  "as_dict (JObj kvs) = Inr kvs"
| "as_dict _ = Inl Cast_Broken"

fun as_list :: "json \<Rightarrow> json list outcome" where
  "as_list (JArr xs) = Inr xs"
| "as_list _ = Inl Cast_Broken"

fun as_str :: "json \<Rightarrow> string outcome" where
  "as_str (JStr s) = Inr s"
| "as_str _ = Inl Cast_Broken"

section \<open>The updates and options\<close>

type_synonym path = "string list"

record dependency_update =
  old_requirement :: string
  new_requirement :: string

record action_update =
  au_file_path :: path
  au_repository :: string
  au_old_ref :: string
  au_new_ref :: string

record container_image_update =
  cu_file_path :: path
  cu_old_ref :: string
  cu_new_ref :: string

record update_options =
  dry_run :: bool
  upgrade_lock :: bool
  update_pyproject :: bool
  update_actions :: bool
  update_containers :: bool

definition default_options :: update_options where
  "default_options = \<lparr>dry_run = False, upgrade_lock = True, update_pyproject = True,
     update_actions = True, update_containers = True\<rparr>"

record update_summary =
  dependency_updates :: "dependency_update list"
  action_updates :: "action_update list"
  container_updates :: "container_image_update list"

section \<open>The environment\<close>

record json_response =
  payload :: json
  link :: "string option"

text \<open>What \<open>urlopen\<close> and \<open>json.load\<close> do with a request.\<close>

datatype fetch_outcome =
    Fetched json_response
  | Os_Error
  | Url_Error
  | Json_Decode_Error
  | Fetch_Raises

type_synonym headers = "(string \<times> string) list"

type_synonym files = "(path \<times> string) list"

record updater_env =
  urlopen :: "string \<Rightarrow> headers \<Rightarrow> fetch_outcome"
  netloc_ok :: "string \<Rightarrow> bool"
  toml_loads :: "string \<Rightarrow> (string \<times> json) list outcome"
  process :: "string list \<Rightarrow> files \<Rightarrow> bool \<times> files"
  isatty :: bool
  extra_frames :: "string \<Rightarrow> nat"
  names_completed :: "string list \<Rightarrow> string list"
  images_completed :: "(string \<times> string option) list \<Rightarrow> (string \<times> string option) list"

record updater_world =
  files :: files
  commands :: "string list list"
  stdout :: string

type_synonym 'a updater = "(updater_world, updater_error, 'a) prog"

section \<open>Files\<close>

text \<open>Text mode reads with universal newlines.\<close>

fun newlines_from :: "bool \<Rightarrow> string \<Rightarrow> string" where
  "newlines_from after_cr [] = []"
| "newlines_from after_cr (c # cs) =
     (if code_of c = 13 then char_of (10 :: nat) # newlines_from True cs
      else if after_cr \<and> code_of c = 10 then newlines_from False cs
      else c # newlines_from False cs)"

definition universal_newlines :: "string \<Rightarrow> string" where
  "universal_newlines s = newlines_from False s"

definition read_text :: "path \<Rightarrow> string updater" where
  [prog_defs]: "read_text p = (\<lambda>w. case map_of (files w) p of
       None \<Rightarrow> (Inl File_Not_Found_Error, w)
     | Some t \<Rightarrow> (Inr (universal_newlines t), w))"

text \<open>Assigning to a key of a dict, which keeps the place of a key it has.\<close>

fun dict_set :: "'k \<Rightarrow> 'v \<Rightarrow> ('k \<times> 'v) list \<Rightarrow> ('k \<times> 'v) list" where
  "dict_set k v [] = [(k, v)]"
| "dict_set k v ((q, s) # fs) = (if q = k then (q, v) # fs else (q, s) # dict_set k v fs)"

definition write_text :: "path \<Rightarrow> string \<Rightarrow> unit updater" where
  [prog_defs]: "write_text p t = modify (\<lambda>w. w\<lparr>files := dict_set p t (files w)\<rparr>)"

definition file_paths :: "path list updater" where
  [prog_defs]: "file_paths = gets (\<lambda>w. map fst (files w))"

text \<open>\<open>directory.rglob("*")\<close> and \<open>directory.iterdir()\<close>, the files among their results.\<close>

definition below :: "path \<Rightarrow> path list \<Rightarrow> path list" where
  "below d ps = filter (\<lambda>p. length d < length p \<and> take (length d) p = d) ps"

definition directly_in :: "path \<Rightarrow> path list \<Rightarrow> path list" where
  "directly_in d ps = filter (\<lambda>p. p \<noteq> [] \<and> butlast p = d) ps"

definition file_name :: "path \<Rightarrow> string" where
  "file_name p = (if p = [] then [] else last p)"

text \<open>\<open>path.suffix\<close>: from the last dot of the name, leading dots apart.\<close>

definition path_suffix :: "path \<Rightarrow> string" where
  "path_suffix p =
     (let body = dropWhile (\<lambda>c. c = CHR ''.'') (file_name p)
      in if CHR ''.'' \<in> set body
         then CHR ''.'' # rev (takeWhile (\<lambda>c. c \<noteq> CHR ''.'') (rev body)) else [])"

text \<open>\<open>tuple(sorted(paths))\<close> of a set of paths.\<close>

definition sorted_set :: "'a :: linorder list \<Rightarrow> 'a list" where
  "sorted_set xs = sort (remdups xs)"

definition write_line :: "string \<Rightarrow> unit updater" where
  [prog_defs]: "write_line s = modify (\<lambda>w. w\<lparr>stdout := stdout w @ s @ [char_of (10 :: nat)]\<rparr>)"

definition write_out :: "string \<Rightarrow> unit updater" where
  [prog_defs]: "write_out s = modify (\<lambda>w. w\<lparr>stdout := stdout w @ s\<rparr>)"

section \<open>HTTP\<close>

text \<open>\<open>urlparse(url).scheme\<close>, with the \<open>ValueError\<close> of an ill-formed authority.\<close>

definition is_scheme_char :: "char \<Rightarrow> bool" where
  [str_simps]: "is_scheme_char c = (is_ascii_alnum c \<or> c \<in> {CHR ''+'', CHR ''-'', CHR ''.''})"

definition clean_url :: "string \<Rightarrow> string" where
  [str_simps]: "clean_url u =
     filter (\<lambda>c. code_of c \<notin> {9, 10, 13}) (dropWhile (\<lambda>c. code_of c \<le> 32) u)"

definition split_scheme :: "string \<Rightarrow> string \<times> string" where
  [str_simps]: "split_scheme u =
     (case partition_at (CHR '':'') u of (a, found, d) \<Rightarrow>
        if found \<and> a \<noteq> [] \<and> is_ascii_alnum (hd a) \<and> \<not> is_decimal (hd a) \<and> list_all is_scheme_char a
        then (str_lower a, d) else ([], u))"

definition url_netloc :: "string \<Rightarrow> string" where
  [str_simps]: "url_netloc rest =
     (if startswith rest ''//''
      then takeWhile (\<lambda>c. c \<notin> {CHR ''/'', CHR ''?'', CHR ''#''}) (drop 2 rest) else [])"

definition url_scheme :: "updater_env \<Rightarrow> string \<Rightarrow> string outcome" where
  [str_simps]: "url_scheme env u =
     (case split_scheme (clean_url u) of (scheme, rest) \<Rightarrow>
        if startswith rest ''//'' \<and> \<not> netloc_ok env (url_netloc rest) then Inl Url_Value_Error
        else Inr scheme)"

definition json_response_of :: "updater_env \<Rightarrow> string \<Rightarrow> headers \<Rightarrow> json_response option outcome" where
  "json_response_of env u hs =
     and_then (url_scheme env u) (\<lambda>scheme.
       if scheme \<noteq> ''https'' then Inr None
       else (case urlopen env u hs of
           Fetched r \<Rightarrow> Inr (Some r)
         | Os_Error \<Rightarrow> Inr None
         | Url_Error \<Rightarrow> Inr None
         | Json_Decode_Error \<Rightarrow> Inr None
         | Fetch_Raises \<Rightarrow> Inl Uncaught_Fetch_Error))"

section \<open>Resolving in parallel\<close>

text \<open>
  \<open>_resolve_in_parallel\<close>: the pool runs at most \<open>max_workers\<close> resolvers at a time, takes
  the next entry of its queue when a worker is free, any running resolver may finish
  first, and \<open>as_completed\<close> may yield any finished future next (those that are finished when it
  is called come in no order). A state holds the queue, the entries being resolved, those whose
  futures are finished, and those read by the loop, in the order of its iterations.
\<close>

definition max_parallel_workers :: nat where
  "max_parallel_workers = 8"

definition max_workers :: "'k list \<Rightarrow> nat" where
  "max_workers entries = min max_parallel_workers (length entries)"

type_synonym 'k pool = "'k list \<times> 'k list \<times> 'k list \<times> 'k list"

inductive pool_step :: "nat \<Rightarrow> 'k pool \<Rightarrow> 'k pool \<Rightarrow> bool" for n where
  start: "length running < n \<Longrightarrow>
    pool_step n (k # queue, running, finished, read) (queue, k # running, finished, read)"
| finish: "pool_step n (queue, before @ k # after, finished, read)
    (queue, before @ after, k # finished, read)"
| yield: "pool_step n (queue, running, before @ k # after, read)
    (queue, running, before @ after, read @ [k])"

inductive pool_runs :: "nat \<Rightarrow> 'k list \<Rightarrow> 'k pool \<Rightarrow> bool" for n entries where
  submitted: "pool_runs n entries (entries, [], [], [])"
| step: "pool_runs n entries s \<Longrightarrow> pool_step n s s' \<Longrightarrow> pool_runs n entries s'"

text \<open>The loop over \<open>as_completed\<close>: results are stored as their futures complete, and the
  first future read that raised ends the loop with its exception.\<close>

fun collect_results ::
    "('k \<Rightarrow> 'v outcome) \<Rightarrow> ('k \<rightharpoonup> 'v) \<Rightarrow> 'k list \<Rightarrow> ('k \<rightharpoonup> 'v) outcome" where
  "collect_results f resolved [] = Inr resolved"
| "collect_results f resolved (k # ks) =
     and_then (f k) (\<lambda>v. collect_results f (resolved(k \<mapsto> v)) ks)"

definition resolve_in_parallel ::
    "('k list \<Rightarrow> 'k list) \<Rightarrow> 'k list \<Rightarrow> ('k \<Rightarrow> 'v outcome) \<Rightarrow> ('k \<rightharpoonup> 'v) outcome" where
  "resolve_in_parallel completed entries f =
     (if entries = [] then Inr Map.empty else collect_results f Map.empty (completed entries))"

inductive_cases pool_stepE: "pool_step n s s'"

section \<open>Laws\<close>

lemma pool_invariant:
  assumes "pool_runs n entries (queue, running, finished, read)"
  shows "mset (queue @ running @ finished @ read) = mset entries \<and> length running \<le> n"
proof -
  have "pool_runs n entries s \<Longrightarrow>
      (case s of (q, r, f, d) \<Rightarrow> mset (q @ r @ f @ d) = mset entries \<and> length r \<le> n)" for s
  proof (induction rule: pool_runs.induct)
    case (step s s')
    from step.hyps(2) step.IH show ?case by (cases rule: pool_step.cases) auto
  qed simp
  with assms show ?thesis by fastforce
qed

lemma pool_runs_steps: "pool_runs n entries s \<Longrightarrow> (pool_step n ^^ m) s s' \<Longrightarrow> pool_runs n entries s'"
  by (induction m arbitrary: s') (simp, metis relpowp_Suc_E pool_runs.step)

text \<open>What is left to do for each entry: to start it, to finish it, and to read its future.\<close>

definition work_left :: "'k pool \<Rightarrow> nat" where
  "work_left s = (case s of (queue, running, finished, read) \<Rightarrow>
     3 * length queue + 2 * length running + length finished)"

lemma pool_step_work: "pool_step n s s' \<Longrightarrow> work_left s = Suc (work_left s')"
  by (cases rule: pool_step.cases) (auto simp: work_left_def)

text \<open>The pool is never stuck with work left, so it can run to the end.\<close>

lemma pool_progress:
  assumes "0 < n" and "work_left s \<noteq> 0"
  shows "\<exists>s'. pool_step n s s'"
proof -
  obtain queue running finished read where s: "s = (queue, running, finished, read)" by (rule prod_cases4)
  show ?thesis
  proof (cases running)
    case (Cons k r)
    have "pool_step n (queue, k # r, finished, read) (queue, r, k # finished, read)"
      using pool_step.finish [of n queue "[]" k r] by simp
    then show ?thesis unfolding s Cons by blast
  next
    case running: Nil
    show ?thesis
    proof (cases finished)
      case (Cons k f)
      have "pool_step n (queue, running, k # f, read) (queue, running, f, read @ [k])"
        using pool_step.yield [of n queue running "[]" k f] by simp
      then show ?thesis unfolding s Cons by blast
    next
      case Nil
      with assms(2) running obtain k q where "queue = k # q" by (cases queue) (auto simp: s work_left_def)
      with running assms(1) pool_step.start [of running n k q finished read] show ?thesis unfolding s by auto
    qed
  qed
qed

lemma pool_completes:
  assumes "0 < n"
  shows "work_left s = m \<Longrightarrow> \<exists>order. (pool_step n ^^ m) s ([], [], [], order)"
proof (induction m arbitrary: s)
  case 0
  then show ?case by (cases s) (auto simp: work_left_def)
next
  case (Suc m)
  with pool_progress [OF assms, of s] obtain s' where s': "pool_step n s s'" by auto
  with Suc.prems have "work_left s' = m" by (simp add: pool_step_work)
  from Suc.IH [OF this] s' show ?case by (meson relpowp_Suc_I2)
qed

lemma collect_results_ok:
  assumes "\<And>k. k \<in> set ks \<Longrightarrow> f k = Inr (g k)"
  shows "collect_results f resolved ks
    = Inr (\<lambda>k. if k \<in> set ks then Some (g k) else resolved k)"
  using assms
proof (induction ks arbitrary: resolved)
  case (Cons k ks)
  then show ?case by (auto intro!: ext)
qed simp

lemma collect_results_fails:
  assumes "k \<in> set ks" and "f k = Inl e"
  shows "\<exists>k' e'. k' \<in> set ks \<and> f k' = Inl e' \<and> collect_results f resolved ks = Inl e'"
  using assms
proof (induction ks arbitrary: resolved)
  case (Cons k0 ks)
  show ?case
  proof (cases "f k0")
    case (Inl e0)
    then show ?thesis by auto
  next
    case (Inr v)
    with Cons show ?thesis by fastforce
  qed
qed simp

lemma and_then_Inr_iff [simp]: "and_then r k = Inr y \<longleftrightarrow> (\<exists>x. r = Inr x \<and> k x = Inr y)"
  by (cases r) auto

lemma map_of_dict_set: "map_of (dict_set k v d) = (map_of d)(k \<mapsto> v)"
  by (induction d) (auto intro!: ext)

lemma map_fst_dict_set: "k \<in> set (map fst d) \<Longrightarrow> map fst (dict_set k v d) = map fst d"
  by (induction d) (auto simp: image_iff, force)

lemma newlines_no_cr: "c \<in> set (newlines_from b s) \<Longrightarrow> code_of c \<noteq> 13"
  by (induction s arbitrary: b) (auto split: if_splits)

lemma newlines_id: "(\<And>c. c \<in> set s \<Longrightarrow> code_of c \<noteq> 13) \<Longrightarrow> newlines_from False s = s"
  by (induction s) auto

lemma universal_newlines_idem [simp]: "universal_newlines (universal_newlines s) = universal_newlines s"
  unfolding universal_newlines_def by (rule newlines_id) (rule newlines_no_cr)

end
