(* ===== verification/Dependency_Bounds.thy ===== *)
theory Dependency_Bounds
  imports Updater_Env
begin

text \<open>
  sync_pyproject_dependency_versions.py: the lower bounds of the direct requirements of
  \<open>pyproject.toml\<close> are raised to the locked or the latest published version.
\<close>

section \<open>Versions\<close>

definition version_prefix_re :: rx where
  [str_simps]: "version_prefix_re = Group ''release''
     (Seq (plus_rx (Cls is_decimal)) (star_rx (Seq (lit ''.'') (plus_rx (Cls is_decimal)))))"

definition int_of_part :: "string \<Rightarrow> int outcome" where
  [str_simps]: "int_of_part p = (case int_of_str p of None \<Rightarrow> Inl Value_Error | Some i \<Rightarrow> Inr i)"

definition version_key :: "string \<Rightarrow> int list option outcome" where
  [str_simps]: "version_key v =
     (case re_match version_prefix_re v of
        None \<Rightarrow> Inr None
      | Some m \<Rightarrow> and_then (map_outcome int_of_part (split_on (CHR ''.'') (group m ''release'')))
                    (\<lambda>key. Inr (Some key)))"

definition compare_keys :: "int list \<Rightarrow> int list \<Rightarrow> int" where
  [str_simps]: "compare_keys left_key right_key =
     (let max_length = max (length left_key) (length right_key);
          normalized_left = left_key @ replicate (max_length - length left_key) 0;
          normalized_right = right_key @ replicate (max_length - length right_key) 0
      in if normalized_left < normalized_right then -1
         else if normalized_left > normalized_right then 1 else 0)"

definition compare_versions :: "string \<Rightarrow> string \<Rightarrow> int option outcome" where
  [str_simps]: "compare_versions left right =
     and_then (version_key left) (\<lambda>left_key. and_then (version_key right) (\<lambda>right_key.
       case (left_key, right_key) of
         (Some l, Some r) \<Rightarrow> Inr (Some (compare_keys l r))
       | _ \<Rightarrow> Inr None))"

section \<open>Requirements\<close>

definition is_name_char :: "char \<Rightarrow> bool" where
  [str_simps]: "is_name_char c = (is_ascii_alnum c \<or> c \<in> {CHR ''_'', CHR ''.'', CHR ''-''})"

definition name_re :: rx where
  [str_simps]: "name_re =
     Seq (Group ''name'' (plus_rx (Cls is_name_char)))
         (opt (Group ''extras'' (seqs
            [lit ''['', plus_rx (Cls (\<lambda>c. c \<noteq> CHR '']'')), lit '']''])))"

definition is_bound_char :: "char \<Rightarrow> bool" where
  [str_simps]: "is_bound_char c = (c \<notin> {CHR '','', CHR '';'', CHR '' ''})"

definition lower_bound_re :: rx where
  [str_simps]: "lower_bound_re = seqs
     [Group ''operator'' (Alt (lit ''>='') (lit ''>'')), star_rx (Cls is_space),
      plus_rx (Cls is_bound_char)]"

definition upper_bound_re :: rx where
  [str_simps]: "upper_bound_re = seqs
     [Alt (Bol False) (lit '',''), star_rx (Cls is_space),
      Group ''operator'' (Alt (lit ''<='') (lit ''<'')), star_rx (Cls is_space),
      Group ''version'' (plus_rx (Cls is_bound_char))]"

definition requirement_name :: "string \<Rightarrow> string option" where
  [str_simps]: "requirement_name requirement =
     map_option (\<lambda>m. group m ''name'') (re_match name_re requirement)"

definition with_lower_bound :: "string \<Rightarrow> string \<Rightarrow> string outcome" where
  [str_simps]: "with_lower_bound requirement version =
     (case partition_at (CHR '';'') requirement of (marker_prefix, separator, marker_suffix) \<Rightarrow>
        case re_match name_re marker_prefix of
          None \<Rightarrow> Inr requirement
        | Some m \<Rightarrow>
            let requirement_prefix = group m ''name'' @ group m ''extras'';
                specifier = strip (found_after m);
                finish = (\<lambda>updated. Inr (if separator then updated @ '';'' @ marker_suffix else updated))
            in if specifier = [] then finish (requirement_prefix @ ''>='' @ version)
               else if re_search lower_bound_re specifier \<noteq> None then
                 (case parse_template [''operator''] (''>='' @ version) of
                    None \<Rightarrow> Inl Re_Error
                  | Some parts \<Rightarrow> finish (requirement_prefix @
                      re_sub_once lower_bound_re (expand_template [''operator''] parts) specifier))
               else finish (requirement_prefix @ ''>='' @ version @ '','' @ specifier))"

fun check_bounds :: "string \<Rightarrow> found list \<Rightarrow> bool outcome" where
  "check_bounds version [] = Inr True"
| "check_bounds version (upper_bound # rest) =
     and_then (compare_versions version (group upper_bound ''version'')) (\<lambda>comparison.
       case comparison of
         None \<Rightarrow> Inr False
       | Some c \<Rightarrow>
           if group upper_bound ''operator'' = ''<'' \<and> c \<ge> 0 then Inr False
           else if group upper_bound ''operator'' = ''<='' \<and> c > 0 then Inr False
           else check_bounds version rest)"

definition satisfies_upper_bounds :: "string \<Rightarrow> string \<Rightarrow> bool outcome" where
  [str_simps]: "satisfies_upper_bounds requirement version =
     (case partition_at (CHR '';'') requirement of (marker_prefix, _, _) \<Rightarrow>
        case re_match name_re marker_prefix of
          None \<Rightarrow> Inr True
        | Some m \<Rightarrow> check_bounds version (finditer upper_bound_re (strip (found_after m))))"

definition canonical_separator_re :: rx where
  [str_simps]: "canonical_separator_re =
     plus_rx (Cls (\<lambda>c. c \<in> {CHR ''-'', CHR ''_'', CHR ''.''}))"

definition canonical_name :: "string \<Rightarrow> string" where
  [str_simps]: "canonical_name name = str_lower (re_sub canonical_separator_re (\<lambda>_. ''-'') name)"

definition target_dependency_version ::
    "string \<Rightarrow> (string \<rightharpoonup> string) \<Rightarrow> (string \<Rightarrow> string option outcome) \<Rightarrow> string option outcome" where
  "target_dependency_version requirement locked latest_version_resolver =
     (case requirement_name requirement of
        None \<Rightarrow> Inr None
      | Some dependency_name \<Rightarrow>
          and_then (case locked (canonical_name dependency_name) of
                      Some v \<Rightarrow> Inr (Some v)
                    | None \<Rightarrow> latest_version_resolver dependency_name)
            (\<lambda>target. case target of
                None \<Rightarrow> Inr None
              | Some target_version \<Rightarrow>
                  and_then (satisfies_upper_bounds requirement target_version)
                    (\<lambda>ok. Inr (if ok then Some target_version else None))))"

section \<open>The project files\<close>

definition group_requirements :: "json \<Rightarrow> json list outcome" where
  "group_requirements groups =
     and_then (as_dict groups) (\<lambda>kvs. and_then (map_outcome as_list (map snd kvs)) (\<lambda>ls. Inr (concat ls)))"

definition direct_requirements :: "(string \<times> json) list \<Rightarrow> json list outcome" where
  "direct_requirements pyproject_data =
     (case json_get pyproject_data ''project'' of
        None \<Rightarrow> Inl (Key_Error ''project'')
      | Some project \<Rightarrow>
          and_then (as_dict project) (\<lambda>project.
          and_then (as_list (get_or project ''dependencies'' (JArr []))) (\<lambda>own.
          and_then (group_requirements (get_or pyproject_data ''dependency-groups'' (JObj []))) (\<lambda>grouped.
          and_then (as_dict (get_or pyproject_data ''build-system'' (JObj []))) (\<lambda>build_system.
          and_then (as_list (get_or build_system ''requires'' (JArr []))) (\<lambda>required.
          Inr (own @ grouped @ required)))))))"

text \<open>The functions of \<open>re\<close> raise TypeError for an argument that is not a string.\<close>

fun text_argument :: "json \<Rightarrow> string outcome" where
  "text_argument (JStr s) = Inr s"
| "text_argument _ = Inl Type_Error"

fun locked_entries :: "json list \<Rightarrow> (string \<rightharpoonup> string) \<Rightarrow> (string \<rightharpoonup> string) outcome" where
  "locked_entries [] locked = Inr locked"
| "locked_entries (p # ps) locked =
     and_then (as_dict p) (\<lambda>package.
     case json_get package ''name'' of
       None \<Rightarrow> Inl (Key_Error ''name'')
     | Some n \<Rightarrow> and_then (text_argument n) (\<lambda>name.
         case json_get package ''version'' of
           None \<Rightarrow> Inl (Key_Error ''version'')
         | Some v \<Rightarrow> and_then (as_str v) (\<lambda>version.
             locked_entries ps (locked(canonical_name name \<mapsto> version)))))"

definition read_toml :: "updater_env \<Rightarrow> path \<Rightarrow> (string \<times> json) list updater" where
  "read_toml env p = bind_p (read_text p) (\<lambda>t. of_result (toml_loads env t))"

definition locked_versions :: "updater_env \<Rightarrow> path \<Rightarrow> (string \<rightharpoonup> string) updater" where
  "locked_versions env uv_lock_path =
     bind_p (read_toml env uv_lock_path) (\<lambda>uv_lock.
       of_result (and_then (as_list (get_or uv_lock ''package'' (JArr [])))
         (\<lambda>packages. locked_entries packages Map.empty)))"

definition latest_pypi_version :: "updater_env \<Rightarrow> string \<Rightarrow> string option outcome" where
  "latest_pypi_version env package_name =
     and_then (json_response_of env (''https://pypi.org/pypi/'' @ package_name @ ''/json'') [])
       (\<lambda>response. case response of
           None \<Rightarrow> Inr None
         | Some r \<Rightarrow> (case payload r of
             JObj kvs \<Rightarrow> (case get_or kvs ''info'' (JObj []) of
                 JObj info \<Rightarrow> (case json_get info ''version'' of
                     None \<Rightarrow> Inr None
                   | Some JNull \<Rightarrow> Inr None
                   | Some (JStr v) \<Rightarrow> Inr (Some v)
                   | Some _ \<Rightarrow> Inl Cast_Broken)
               | _ \<Rightarrow> Inr None)
           | _ \<Rightarrow> Inr None))"

section \<open>The synchronisation\<close>

definition quoted :: "string \<Rightarrow> string" where
  [str_simps]: "quoted s = [CHR 0x22] @ s @ [CHR 0x22]"

fun sync_requirements ::
    "(string \<rightharpoonup> string) \<Rightarrow> (string \<Rightarrow> string option outcome) \<Rightarrow> json list \<Rightarrow> string \<Rightarrow>
     dependency_update list \<Rightarrow> (string \<times> dependency_update list) outcome" where
  "sync_requirements locked resolver [] updated_text updates = Inr (updated_text, updates)"
| "sync_requirements locked resolver (r # rest) updated_text updates =
     and_then (text_argument r) (\<lambda>requirement.
     and_then (target_dependency_version requirement locked resolver) (\<lambda>target.
     case target of
       None \<Rightarrow> sync_requirements locked resolver rest updated_text updates
     | Some target_version \<Rightarrow>
         and_then (with_lower_bound requirement target_version) (\<lambda>updated_requirement.
         if updated_requirement = requirement
         then sync_requirements locked resolver rest updated_text updates
         else if \<not> contains (quoted requirement) updated_text
         then Inl (Runtime_Error
           (''Could not find dependency requirement in pyproject.toml: '' @ requirement))
         else sync_requirements locked resolver rest
           (replace_first (quoted requirement) (quoted updated_requirement) updated_text)
           (updates @ [\<lparr>old_requirement = requirement, new_requirement = updated_requirement\<rparr>]))))"

definition pyproject_path :: path where
  "pyproject_path = [''pyproject.toml'']"

definition uv_lock_path :: path where
  "uv_lock_path = [''uv.lock'']"

definition sync_pyproject_dependency_versions ::
    "updater_env \<Rightarrow> bool \<Rightarrow> (string \<Rightarrow> string option outcome) option \<Rightarrow> dependency_update list updater" where
  "sync_pyproject_dependency_versions env dry latest_version_resolver =
     bind_p (read_text pyproject_path) (\<lambda>pyproject_text.
     bind_p (read_toml env pyproject_path) (\<lambda>pyproject_data.
     bind_p (locked_versions env uv_lock_path) (\<lambda>locked.
     let resolver = (case latest_version_resolver of Some r \<Rightarrow> r | None \<Rightarrow> latest_pypi_version env)
     in bind_p (of_result (and_then (direct_requirements pyproject_data) (\<lambda>requirements.
          sync_requirements locked resolver requirements pyproject_text []))) (\<lambda>(updated_text, updates).
        if updates \<noteq> [] \<and> \<not> dry
        then bind_p (write_text pyproject_path updated_text) (\<lambda>_. ret updates)
        else ret updates))))"

end
