(* ===== verification/Requirement_Text.thy ===== *)
theory Requirement_Text
  imports Dependency_Bounds
begin

text \<open>
  How the updater reads and rewrites one requirement: what the patterns of the name, the
  extras and the lower bound match, and that a rewritten requirement is read back with
  the same name and the new bound.
\<close>

section \<open>Names and extras\<close>

definition extras_of :: "string \<Rightarrow> (string \<times> string) option" where
  "extras_of t =
     (case t of
        [] \<Rightarrow> None
      | c # u \<Rightarrow>
          if c \<noteq> CHR ''['' \<or> takeWhile (\<lambda>x. x \<noteq> CHR '']'') u = [] then None
          else (case dropWhile (\<lambda>x. x \<noteq> CHR '']'') u of
                  [] \<Rightarrow> None
                | d # v \<Rightarrow> Some (CHR ''['' # takeWhile (\<lambda>x. x \<noteq> CHR '']'') u @ [CHR '']''], v)))"

definition extras_rx :: rx where
  "extras_rx = seqs [lit ''['', plus_rx (Cls (\<lambda>c. c \<noteq> CHR '']'')), lit '']'']"

lemma dropWhile_to_stop: "dropWhile (\<lambda>x. x \<noteq> a) u = d # v \<Longrightarrow> d = a \<and> u = takeWhile (\<lambda>x. x \<noteq> a) u @ a # v"
  by (metis (full_types) dropWhile_eq_Cons_conv)

lemma extras_of_split: "extras_of t = Some (e, v) \<Longrightarrow> t = e @ v"
  by (auto simp: extras_of_def dest!: dropWhile_to_stop split: list.splits if_splits)

lemma runs_extras: "runs extras_rx (b, t, cs) =
    (case extras_of t of None \<Rightarrow> [] | Some (e, v) \<Rightarrow> [(rev e @ b, v, cs)])"
proof (cases t)
  case Nil
  then show ?thesis by (simp add: extras_rx_def extras_of_def)
next
  case (Cons c u)
  have step: "runs extras_rx (b, t, cs) = (if c = CHR ''[''
      then runs (Seq (plus_rx (Cls (\<lambda>c. c \<noteq> CHR '']''))) (lit '']'')) (c # b, u, cs) else [])"
    using Cons by (simp add: extras_rx_def)
  have rest: "runs (Seq (plus_rx (Cls (\<lambda>c. c \<noteq> CHR '']''))) (lit '']'')) (c # b, u, cs)
    = (if takeWhile (\<lambda>c. c \<noteq> CHR '']'') u = [] then []
       else stop_at (CHR '']'') (c # b) (takeWhile (\<lambda>c. c \<noteq> CHR '']'') u)
         (dropWhile (\<lambda>c. c \<noteq> CHR '']'') u) cs)"
    by (rule runs_plus_then_stop) simp
  show ?thesis
  proof (cases "dropWhile (\<lambda>c. c \<noteq> CHR '']'') u")
    case Nil
    then show ?thesis
      unfolding step rest by (simp add: extras_of_def Cons del: dropWhile_eq_Nil_conv)
  next
    case d: (Cons d v)
    then have "d = CHR '']''" by (rule dropWhile_to_stop [THEN conjunct1])
    with d show ?thesis
      unfolding step rest by (simp add: extras_of_def Cons stop_at_def)
  qed
qed

text \<open>What the pattern of a requirement's name matches.\<close>

lemma re_match_name:
  "re_match name_re s =
     (let n = takeWhile is_name_char s; t = dropWhile is_name_char s
      in if n = [] then None
         else case extras_of t of
           None \<Rightarrow> Some \<lparr>found_text = n, found_groups = [(''name'', n)], found_after = t\<rparr>
         | Some (e, v) \<Rightarrow> Some \<lparr>found_text = n @ e,
             found_groups = [(''extras'', e), (''name'', n)], found_after = v\<rparr>)"
proof -
  define n where "n = takeWhile is_name_char s"
  define t where "t = dropWhile is_name_char s"
  have s: "s = n @ t" by (simp add: n_def t_def)
  have re: "name_re = Seq (Group ''name'' (plus_rx (Cls is_name_char))) (opt (Group ''extras'' extras_rx))"
    by (simp add: name_re_def extras_rx_def)
  show ?thesis
  proof (cases "n = []")
    case True
    then have "runs (plus_rx (Cls is_name_char)) ([], s, []) = []"
      unfolding n_def by (rule runs_plus_Nil)
    then have "runs name_re ([], s, []) = []" by (simp add: re)
    with True show ?thesis by (simp add: re_match_def match_at_def n_def)
  next
    case False
    then obtain ss where "runs (plus_rx (Cls is_name_char)) ([], s, []) = (rev n, t, []) # ss"
      using hd_runs_plus [of is_name_char s "[]" "[]"] by (auto simp: n_def t_def)
    then have "\<exists>zs. runs name_re ([], s, [])
      = (case extras_of t of None \<Rightarrow> (rev n, t, [(''name'', n)])
         | Some (e, v) \<Rightarrow> (rev e @ rev n, v, [(''extras'', e), (''name'', n)])) # zs"
      by (cases "extras_of t") (auto simp: re opt_def runs_extras)
    then obtain zs where runs: "runs name_re ([], s, [])
      = (case extras_of t of None \<Rightarrow> (rev n, t, [(''name'', n)])
         | Some (e, v) \<Rightarrow> (rev e @ rev n, v, [(''extras'', e), (''name'', n)])) # zs" ..
    have "re_match name_re s = (case extras_of t of
        None \<Rightarrow> Some \<lparr>found_text = n, found_groups = [(''name'', n)], found_after = t\<rparr>
      | Some (e, v) \<Rightarrow> Some \<lparr>found_text = n @ e,
          found_groups = [(''extras'', e), (''name'', n)], found_after = v\<rparr>)"
    proof (cases "extras_of t")
      case None
      have "take (length s - length t) s = n" by (simp add: s)
      with None show ?thesis by (simp add: re_match_def match_at_def runs)
    next
      case (Some p)
      then obtain e v where p: "extras_of t = Some (e, v)" by (cases p) simp
      with extras_of_split have "t = e @ v" by blast
      then have "take (length s - length v) s = n @ e" by (simp add: s)
      with p show ?thesis by (simp add: re_match_def match_at_def runs)
    qed
    with False show ?thesis by (simp add: Let_def flip: n_def t_def)
  qed
qed

section \<open>Lower bounds\<close>

fun bound_ahead :: "string \<Rightarrow> bool" where
  "bound_ahead [] = False"
| "bound_ahead (c # cs) = (is_bound_char c \<or> (is_space c \<and> bound_ahead cs))"

definition bound_rx :: rx where
  "bound_rx = Seq (star_rx (Cls is_space)) (plus_rx (Cls is_bound_char))"

lemma runs_bound_empty: "runs bound_rx (b, u, cs) = [] \<longleftrightarrow> \<not> bound_ahead u"
proof (induction u arbitrary: b)
  case Nil
  then show ?case by (simp add: bound_rx_def star_rx_def plus_empty_iff)
next
  case (Cons x u)
  have split: "runs bound_rx (b, x # u, cs) = (if is_space x then runs bound_rx (x # b, u, cs) else [])
      @ runs (plus_rx (Cls is_bound_char)) (b, x # u, cs)"
    by (simp add: bound_rx_def star_rx_def runs_star_cls)
  show ?case unfolding split by (simp add: plus_empty_iff Cons.IH)
qed

lemma runs_bound_first:
  assumes "runs bound_rx s = (b', u', cs') # ss"
  shows "u' = [] \<or> \<not> is_bound_char (hd u')"
proof -
  from assms obtain b u cs ys where *: "runs (plus_rx (Cls is_bound_char)) (b, u, cs) = (b', u', cs') # ys"
    by (auto simp: bound_rx_def dest!: hd_of_concat)
  then have "takeWhile is_bound_char u \<noteq> []" using runs_plus_Nil by fastforce
  from hd_runs_plus [OF this, of b cs] * have "u' = dropWhile is_bound_char u" by auto
  then show ?thesis by (metis hd_dropWhile)
qed

lemma lower_bound_re_runs: "runs lower_bound_re (b, t, cs) =
    (if startswith t ''>='' then runs bound_rx (''=>'' @ b, drop 2 t, (''operator'', ''>='') # cs) else [])
    @ (if startswith t ''>'' then runs bound_rx (CHR ''>'' # b, drop 1 t, (''operator'', ''>'') # cs) else [])"
  by (simp add: lower_bound_re_def runs_lit numeral_2_eq_2 del: lit.simps flip: bound_rx_def)

lemma no_match_lower:
  "no_match lower_bound_re b t \<longleftrightarrow> \<not> (\<exists>u. t = CHR ''>'' # u \<and> bound_ahead u)"
proof -
  have "0 < min_width lower_bound_re"
    by (simp add: lower_bound_re_def plus_rx_def star_rx_def)
  then have "no_match lower_bound_re b t \<longleftrightarrow> match_at lower_bound_re b t = None"
    using match_at_not_empty by (auto simp: no_match_def split: option.splits)
  also have "\<dots> \<longleftrightarrow> runs lower_bound_re (b, t, []) = []"
    by (simp add: match_at_def split: list.splits)
  also have "\<dots> \<longleftrightarrow> \<not> (\<exists>u. t = CHR ''>'' # u \<and> bound_ahead u)"
    unfolding lower_bound_re_runs
    by (cases t; cases "tl t") (auto simp: runs_bound_empty startswith_def is_bound_char_def)
  finally show ?thesis .
qed


lemma bound_ahead_stop: "bound_ahead (a @ CHR ''>'' # t) = bound_ahead (a @ CHR ''>'' # t')"
  by (induction a) (auto simp: is_bound_char_def)

lemma clear_before_lower:
  "clear_before lower_bound_re b a (CHR ''>'' # t) = clear_before lower_bound_re b a (CHR ''>'' # t')"
proof (induction a arbitrary: b)
  case (Cons x a)
  then show ?case
    using bound_ahead_stop [of a t t'] by (simp add: no_match_lower)
qed simp

text \<open>The text of a version a requirement can carry.\<close>

definition version_text :: "string \<Rightarrow> bool" where
  [str_simps]: "version_text v =
     (v \<noteq> [] \<and> list_all (\<lambda>c. is_bound_char c \<and> \<not> is_space c \<and> c \<noteq> backslash) v)"

lemma takeWhile_version:
  "version_text v \<Longrightarrow> u = [] \<or> \<not> is_bound_char (hd u) \<Longrightarrow>
     takeWhile is_bound_char (v @ u) = v \<and> dropWhile is_bound_char (v @ u) = u"
  by (cases u) (auto simp: version_text_def list_all_iff takeWhile_append dropWhile_append)

lemma match_lower:
  assumes "version_text v" and "u = [] \<or> \<not> is_bound_char (hd u)"
  shows "\<exists>m. match_at lower_bound_re b (''>='' @ v @ u) = Some m
    \<and> found_text m = ''>='' @ v \<and> found_after m = u"
proof -
  from assms(1) obtain c v' where v: "v = c # v'" "\<not> is_space c" by (cases v) (auto simp: version_text_def)
  have tw: "takeWhile is_bound_char (v @ u) = v" and dw: "dropWhile is_bound_char (v @ u) = u"
    using takeWhile_version [OF assms] by auto
  from tw v obtain ss where "runs (plus_rx (Cls is_bound_char)) (''=>'' @ b, v @ u, [(''operator'', ''>='')])
    = (rev v @ ''=>'' @ b, u, [(''operator'', ''>='')]) # ss"
    using hd_runs_plus [of is_bound_char "v @ u" "''=>'' @ b"] dw by fastforce
  with v have "\<exists>zs. runs bound_rx (''=>'' @ b, v @ u, [(''operator'', ''>='')])
    = (rev v @ ''=>'' @ b, u, [(''operator'', ''>='')]) # zs"
    by (simp add: bound_rx_def star_rx_def runs_star_cls)
  then obtain zs where "runs lower_bound_re (b, ''>='' @ v @ u, [])
    = (rev v @ ''=>'' @ b, u, [(''operator'', ''>='')]) # zs"
    by (auto simp: lower_bound_re_runs startswith_def)
  then show ?thesis by (simp add: match_at_def)
qed

lemma lower_bound_match_edges:
  assumes "match_at lower_bound_re b t = Some m"
  shows "\<exists>w. t = CHR ''>'' # w" and "found_after m = [] \<or> \<not> is_bound_char (hd (found_after m))"
proof -
  from assms obtain b' t' cs ss where runs: "runs lower_bound_re (b, t, []) = (b', t', cs) # ss"
    and after: "found_after m = t'"
    by (auto simp: match_at_def split: list.splits)
  from runs show "\<exists>w. t = CHR ''>'' # w"
    by (cases t) (auto simp: lower_bound_re_runs startswith_def split: if_splits)
  from runs obtain s' ys where "runs bound_rx s' = (b', t', cs) # ys"
    unfolding lower_bound_re_runs
    by (auto simp: append_eq_Cons_conv split: if_splits)
  then show "found_after m = [] \<or> \<not> is_bound_char (hd (found_after m))"
    using runs_bound_first after by simp
qed

section \<open>Rewritten specifiers\<close>

definition bounded_specifier :: "string \<Rightarrow> string \<Rightarrow> string" where
  "bounded_specifier v spec =
     (if spec = [] then ''>='' @ v
      else if re_search lower_bound_re spec \<noteq> None
      then re_sub_once lower_bound_re (\<lambda>_. ''>='' @ v) spec
      else ''>='' @ v @ '','' @ spec)"

text \<open>A specifier whose first lower bound is \<open>>=v\<close>.\<close>

definition bounded_by :: "string \<Rightarrow> string \<Rightarrow> bool" where
  "bounded_by v spec = (\<exists>a u. spec = a @ ''>='' @ v @ u \<and>
     clear_before lower_bound_re [] a (''>='' @ v @ u) \<and> (u = [] \<or> \<not> is_bound_char (hd u)))"

lemma re_search_none: "re_search r s = None \<longleftrightarrow> matches_of (scan r [] s) = []"
  by (simp add: re_search_def finditer_def scan_text_def split: list.splits)

lemma bounded_specifier_fixed:
  assumes "version_text v" and "bounded_by v spec"
  shows "bounded_specifier v spec = spec"
proof -
  from assms(2) obtain a u where spec: "spec = a @ ''>='' @ v @ u"
    and clear: "clear_before lower_bound_re [] a (''>='' @ v @ u)"
    and u: "u = [] \<or> \<not> is_bound_char (hd u)" by (auto simp: bounded_by_def)
  from match_lower [OF assms(1) u, of "rev a"] obtain m where
    m: "match_at lower_bound_re (rev a @ []) (''>='' @ v @ u) = Some m"
    and after: "found_after m = u" and ne: "found_text m \<noteq> []" by auto
  from scan_at_first [OF clear m ne] after show ?thesis
    unfolding bounded_specifier_def re_search_none re_sub_once_def scan_text_def spec
    by simp
qed

lemma bounded_specifier_bounded:
  assumes "version_text v"
  shows "bounded_by v (bounded_specifier v spec)"
proof (cases "spec = []")
  case True
  then show ?thesis unfolding bounded_by_def
    by (intro exI [of _ "[]"]) (simp add: bounded_specifier_def)
next
  case False
  show ?thesis
  proof (cases "matches_of (scan lower_bound_re [] spec)")
    case Nil
    with False have "bounded_specifier v spec = [] @ ''>='' @ v @ '','' @ spec"
      by (simp add: bounded_specifier_def re_search_none)
    then show ?thesis unfolding bounded_by_def
      by (intro exI [of _ "[]"] exI [of _ "'','' @ spec"]) (simp add: is_bound_char_def)
  next
    case (Cons m ms)
    from scan_first_found [OF Cons] obtain a where
      spec: "spec = a @ found_text m @ found_after m"
      and clear: "clear_before lower_bound_re [] a (found_text m @ found_after m)"
      and m: "match_at lower_bound_re (rev a @ []) (found_text m @ found_after m) = Some m"
      and ne: "found_text m \<noteq> []" by blast
    from lower_bound_match_edges [OF m] obtain w where
      w: "found_text m @ found_after m = CHR ''>'' # w"
      and edge: "found_after m = [] \<or> \<not> is_bound_char (hd (found_after m))" by blast
    from scan_at_first(1) [OF clear m ne, of "\<lambda>_. ''>='' @ v"] Cons False
    have "bounded_specifier v spec = a @ ''>='' @ v @ found_after m"
      by (simp add: bounded_specifier_def re_search_none re_sub_once_def scan_text_def flip: spec)
    moreover from clear w have "clear_before lower_bound_re [] a (''>='' @ v @ found_after m)"
      using clear_before_lower by fastforce
    ultimately show ?thesis using edge unfolding bounded_by_def by blast
  qed
qed

lemma bounded_specifier_text:
  assumes v: "version_text v" and spec: "strip spec = spec"
  shows "strip (bounded_specifier v spec) = bounded_specifier v spec"
    and "hd (bounded_specifier v spec) = CHR ''>'' \<or> (spec \<noteq> [] \<and> hd (bounded_specifier v spec) = hd spec)"
    and "CHR '';'' \<notin> set spec \<Longrightarrow> CHR '';'' \<notin> set (bounded_specifier v spec)"
    and "bounded_specifier v spec \<noteq> []"
proof -
  have vl: "v \<noteq> []" "\<not> is_space (last v)" "CHR '';'' \<notin> set v"
    using v by (auto simp: version_text_def list_all_iff is_bound_char_def)
  have gt: "\<not> is_space (CHR ''>'')" by (simp add: is_space_def code_of_def)
  have ends: "spec \<noteq> [] \<Longrightarrow> \<not> is_space (hd spec) \<and> \<not> is_space (last spec)"
    using strip_ends [of spec] spec by simp
  consider "bounded_specifier v spec = ''>='' @ v"
    | "bounded_specifier v spec = ''>='' @ v @ '','' @ spec" "spec \<noteq> []"
    | a and m :: found where "spec = a @ found_text m @ found_after m" "found_text m \<noteq> []"
        "hd (found_text m) = CHR ''>''" "bounded_specifier v spec = a @ ''>='' @ v @ found_after m"
  proof (cases "spec = [] \<or> matches_of (scan lower_bound_re [] spec) = []")
    case True
    then show ?thesis
      using that(1) that(2) unfolding bounded_specifier_def re_search_none by (cases "spec = []") auto
  next
    case False
    then obtain m ms where "matches_of (scan lower_bound_re [] spec) = m # ms"
      by (cases "matches_of (scan lower_bound_re [] spec)") auto
    from scan_first_found [OF this] obtain a where
      s: "spec = a @ found_text m @ found_after m"
      and clear: "clear_before lower_bound_re [] a (found_text m @ found_after m)"
      and m: "match_at lower_bound_re (rev a @ []) (found_text m @ found_after m) = Some m"
      and ne: "found_text m \<noteq> []" by blast
    from lower_bound_match_edges(1) [OF m] ne have gt': "hd (found_text m) = CHR ''>''"
      by (cases "found_text m") auto
    from scan_at_first(1) [OF clear m ne, of "\<lambda>_. ''>='' @ v"] False
    have bs: "bounded_specifier v spec = a @ ''>='' @ v @ found_after m"
      by (simp add: bounded_specifier_def re_search_none re_sub_once_def scan_text_def flip: s)
    show ?thesis by (rule that(3) [OF s ne gt' bs])
  qed
  then have "\<not> is_space (hd (bounded_specifier v spec)) \<and> \<not> is_space (last (bounded_specifier v spec))
    \<and> (hd (bounded_specifier v spec) = CHR ''>'' \<or> (spec \<noteq> [] \<and> hd (bounded_specifier v spec) = hd spec))
    \<and> (CHR '';'' \<notin> set spec \<longrightarrow> CHR '';'' \<notin> set (bounded_specifier v spec))
    \<and> bounded_specifier v spec \<noteq> []"
  proof cases
    case 1
    with vl gt show ?thesis by simp
  next
    case 2
    with vl gt ends show ?thesis by simp
  next
    case 3
    from 3(1) ends have "a \<noteq> [] \<Longrightarrow> \<not> is_space (hd a)" and
      "found_after m \<noteq> [] \<Longrightarrow> \<not> is_space (last (found_after m))" by auto
    with 3 vl gt show ?thesis
      by (cases "a = []"; cases "found_after m = []") auto
  qed
  then show "strip (bounded_specifier v spec) = bounded_specifier v spec"
    and "hd (bounded_specifier v spec) = CHR ''>'' \<or> (spec \<noteq> [] \<and> hd (bounded_specifier v spec) = hd spec)"
    and "CHR '';'' \<notin> set spec \<Longrightarrow> CHR '';'' \<notin> set (bounded_specifier v spec)"
    and "bounded_specifier v spec \<noteq> []"
    using strip_id by auto
qed

lemma with_lower_bound_unfold:
  assumes "version_text v"
  shows "with_lower_bound r v =
     (case partition_at (CHR '';'') r of (marker_prefix, separator, marker_suffix) \<Rightarrow>
        case re_match name_re marker_prefix of
          None \<Rightarrow> Inr r
        | Some m \<Rightarrow> Inr (group m ''name'' @ group m ''extras''
            @ bounded_specifier v (strip (found_after m))
            @ (if separator then '';'' @ marker_suffix else [])))"
proof -
  have "backslash \<notin> set (''>='' @ v)"
    using assms by (auto simp: version_text_def list_all_iff backslash_def)
  then have "parse_template [''operator''] (''>='' @ v) = Some (map Lit (''>='' @ v))"
    by (rule parse_template_plain)
  moreover have "expand_template [''operator''] (map Lit (''>='' @ v)) = (\<lambda>_. ''>='' @ v)"
    by (rule ext) (rule expand_plain)
  ultimately show ?thesis
    unfolding with_lower_bound_def bounded_specifier_def
    by (simp add: Let_def split: prod.splits option.splits)
qed

lemma set_strip: "set (strip s) \<subseteq> set s"
  by (auto simp: strip_def lstrip_def rstrip_def dest!: set_dropWhileD)

text \<open>The part of a requirement before its specifier is read back as it was.\<close>

lemma re_match_name_append:
  assumes "n \<noteq> []" and "list_all is_name_char n" and "u = [] \<or> \<not> is_name_char (hd u)"
  shows "re_match name_re (n @ u) =
     (case extras_of u of
           None \<Rightarrow> Some \<lparr>found_text = n, found_groups = [(''name'', n)], found_after = u\<rparr>
         | Some (e, v) \<Rightarrow> Some \<lparr>found_text = n @ e,
             found_groups = [(''extras'', e), (''name'', n)], found_after = v\<rparr>)"
proof -
  have "takeWhile is_name_char (n @ u) = n \<and> dropWhile is_name_char (n @ u) = u"
    using assms by (cases u) (auto simp: list_all_iff takeWhile_append dropWhile_append)
  with assms(1) show ?thesis by (simp add: re_match_name Let_def)
qed

lemma name_prefix_stable:
  assumes "re_match name_re s = Some m"
    and "q = [] \<or> (\<not> is_name_char (hd q) \<and> hd q \<noteq> CHR ''['')"
  shows "\<exists>m'. re_match name_re (group m ''name'' @ group m ''extras'' @ q) = Some m'
    \<and> group m' ''name'' = group m ''name'' \<and> group m' ''extras'' = group m ''extras'' \<and> found_after m' = q"
proof -
  define n where "n = takeWhile is_name_char s"
  define t where "t = dropWhile is_name_char s"
  have n: "n \<noteq> []" using assms(1) by (auto simp: re_match_name n_def Let_def split: if_splits)
  have "list_all is_name_char n" by (auto simp: n_def list_all_iff dest: set_takeWhileD)
  note append = re_match_name_append [OF n this]
  show ?thesis
  proof (cases "extras_of t")
    case None
    then have m: "m = \<lparr>found_text = n, found_groups = [(''name'', n)], found_after = t\<rparr>"
      using assms(1) n by (simp add: re_match_name Let_def flip: n_def t_def)
    have "extras_of q = None"
      using assms(2) by (auto simp: extras_of_def split: list.splits)
    with append [of q] assms(2) m show ?thesis by (auto simp: group_def)
  next
    case (Some p)
    then obtain e w where p: "extras_of t = Some (e, w)" by (cases p) simp
    then have m: "m = \<lparr>found_text = n @ e, found_groups = [(''extras'', e), (''name'', n)], found_after = w\<rparr>"
      using assms(1) n by (simp add: re_match_name Let_def flip: n_def t_def)
    from p obtain x where x: "e = CHR ''['' # x @ [CHR '']'']" "x \<noteq> []" "CHR '']'' \<notin> set x"
      by (auto simp: extras_of_def split: list.splits if_splits
        dest!: dropWhile_to_stop dest: set_takeWhileD)
    then have "takeWhile (\<lambda>c. c \<noteq> CHR '']'') (x @ CHR '']'' # q) = x"
      and "dropWhile (\<lambda>c. c \<noteq> CHR '']'') (x @ CHR '']'' # q) = CHR '']'' # q"
      by (auto simp: takeWhile_append dropWhile_append)
    with x have "extras_of (e @ q) = Some (e, q)"
      by (simp add: extras_of_def)
    moreover have "\<not> is_name_char (hd (e @ q))"
      using x by (simp add: is_name_char_def is_ascii_alnum_def is_decimal_def code_of_def)
    ultimately show ?thesis
      using append [of "e @ q"] m by (auto simp: group_def)
  qed
qed

lemma name_match_split:
  assumes "re_match name_re s = Some m"
  shows "s = group m ''name'' @ group m ''extras'' @ found_after m"
proof -
  define n where "n = takeWhile is_name_char s"
  define t where "t = dropWhile is_name_char s"
  have s: "s = n @ t" by (simp add: n_def t_def)
  have n: "n \<noteq> []" using assms by (auto simp: re_match_name n_def Let_def split: if_splits)
  show ?thesis
  proof (cases "extras_of t")
    case None
    then show ?thesis
      using assms n by (auto simp: re_match_name Let_def group_def simp flip: n_def t_def) (rule s)
  next
    case (Some p)
    then obtain e w where p: "extras_of t = Some (e, w)" by (cases p) simp
    then have m: "m = \<lparr>found_text = n @ e, found_groups = [(''extras'', e), (''name'', n)], found_after = w\<rparr>"
      using assms n by (simp add: re_match_name Let_def flip: n_def t_def)
    from extras_of_split [OF p] s have "s = n @ e @ w" by simp
    with m show ?thesis by (simp add: group_def)
  qed
qed

lemma requirement_name_eq: "requirement_name s =
    (if takeWhile is_name_char s = [] then None else Some (takeWhile is_name_char s))"
  by (auto simp: requirement_name_def re_match_name Let_def group_def split: option.splits)

lemma requirement_name_match: "re_match name_re s = Some m \<Longrightarrow> requirement_name s = Some (group m ''name'')"
  by (simp add: requirement_name_def)

lemma requirement_name_marker: "requirement_name (s @ '';'' @ z) = requirement_name s"
proof -
  have "\<not> is_name_char (CHR '';'')" by (simp add: is_name_char_def is_ascii_alnum_def is_decimal_def code_of_def)
  then have "takeWhile is_name_char (s @ '';'' @ z) = takeWhile is_name_char s"
    by (induction s) auto
  then show ?thesis by (simp add: requirement_name_eq)
qed

end
