(* ===== verification/Dependency_Properties.thy ===== *)
theory Dependency_Properties
  imports Requirement_Text
begin

text \<open>
  What makes the synchronisation of \<open>pyproject.toml\<close> correct: setting a bound twice is
  setting it once, versions are ordered as their keys, and a chosen version respects the
  upper bounds of its requirement.
\<close>

section \<open>The order of versions\<close>

text \<open>A key without its trailing zeros.\<close>

definition strip_zeros :: "int list \<Rightarrow> int list" where
  "strip_zeros key = rev (dropWhile (\<lambda>i. i = 0) (rev key))"

definition padded :: "nat \<Rightarrow> int list \<Rightarrow> int list" where
  "padded n key = key @ replicate (n - length key) 0"

definition first_part :: "int list \<Rightarrow> int" where
  "first_part key = (case key of [] \<Rightarrow> 0 | x # _ \<Rightarrow> x)"

lemma padded_Suc: "length key \<le> Suc n \<Longrightarrow> padded (Suc n) key = first_part key # padded n (tl key)"
  by (cases key) (auto simp: padded_def first_part_def)

lemma strip_zeros_Cons: "strip_zeros (x # key) =
    (if x = 0 \<and> strip_zeros key = [] then [] else x # strip_zeros key)"
  by (auto simp: strip_zeros_def dropWhile_append)

lemma strip_zeros_split: "strip_zeros key =
    (if first_part key = 0 \<and> strip_zeros (tl key) = [] then []
     else first_part key # strip_zeros (tl key))"
  by (cases key) (auto simp: strip_zeros_Cons first_part_def, simp add: strip_zeros_def)

lemma padded_order:
  assumes "length a \<le> n" and "length b \<le> n" and "list_all ((\<le>) 0) a" and "list_all ((\<le>) 0) b"
  shows "(padded n a < padded n b \<longleftrightarrow> strip_zeros a < strip_zeros b)
    \<and> (padded n a = padded n b \<longleftrightarrow> strip_zeros a = strip_zeros b)"
  using assms
proof (induction n arbitrary: a b)
  case 0
  then show ?case by (simp add: padded_def)
next
  case (Suc n)
  have part: "0 \<le> first_part a" "0 \<le> first_part b" "list_all ((\<le>) 0) (tl a)" "list_all ((\<le>) 0) (tl b)"
    using Suc.prems by (cases a; cases b; simp add: first_part_def)+
  then have "(padded n (tl a) < padded n (tl b) \<longleftrightarrow> strip_zeros (tl a) < strip_zeros (tl b))
    \<and> (padded n (tl a) = padded n (tl b) \<longleftrightarrow> strip_zeros (tl a) = strip_zeros (tl b))"
    using Suc.prems by (intro Suc.IH) auto
  with part Suc.prems show ?case
    by (auto simp: padded_Suc strip_zeros_split [of a] strip_zeros_split [of b] neq_Nil_conv)
qed

lemma compare_keys_strip:
  assumes "list_all ((\<le>) 0) a" and "list_all ((\<le>) 0) b"
  shows "compare_keys a b = (if strip_zeros a < strip_zeros b then -1
    else if strip_zeros a = strip_zeros b then 0 else 1)"
proof -
  let ?n = "max (length a) (length b)"
  have "(padded ?n a < padded ?n b \<longleftrightarrow> strip_zeros a < strip_zeros b)
    \<and> (padded ?n a = padded ?n b \<longleftrightarrow> strip_zeros a = strip_zeros b)"
    using assms by (intro padded_order) auto
  then show ?thesis by (auto simp: compare_keys_def Let_def simp flip: padded_def)
qed

section \<open>Keys are lists of natural numbers\<close>

text \<open>A pattern all of whose character classes lie in \<open>Q\<close> reads and captures only such
  characters.\<close>

primrec rx_within :: "(char \<Rightarrow> bool) \<Rightarrow> rx \<Rightarrow> bool" where
  "rx_within Q Empty = True"
| "rx_within Q (Cls P) = (\<forall>c. P c \<longrightarrow> Q c)"
| "rx_within Q (Seq r q) = (rx_within Q r \<and> rx_within Q q)"
| "rx_within Q (Alt r q) = (rx_within Q r \<and> rx_within Q q)"
| "rx_within Q (Star g r) = rx_within Q r"
| "rx_within Q (Group n r) = rx_within Q r"
| "rx_within Q (Bol m) = True"
| "rx_within Q (Eol m) = True"
| "rx_within Q Word_Edge = True"
| "rx_within Q (Not_Behind P) = True"
| "rx_within Q (Not_Ahead r) = True"

definition read_within :: "(char \<Rightarrow> bool) \<Rightarrow> rx_state \<Rightarrow> rx_state \<Rightarrow> bool" where
  "read_within Q s s' = ((\<exists>u. fst s' = u @ fst s \<and> list_all Q u)
     \<and> (\<forall>n x. (n, x) \<in> set (snd (snd s')) \<longrightarrow> (n, x) \<in> set (snd (snd s)) \<or> list_all Q x))"

lemma read_within_refl [simp]: "read_within Q s s"
  by (simp add: read_within_def)

lemma read_within_trans: "read_within Q s s' \<Longrightarrow> read_within Q s' s'' \<Longrightarrow> read_within Q s s''"
  unfolding read_within_def by (metis append.assoc list_all_append)

lemma repeat_runs_within:
  assumes "\<And>s s'. s' \<in> set (f s) \<Longrightarrow> read_within Q s s'"
  shows "s' \<in> set (repeat_runs g f n s) \<Longrightarrow> read_within Q s s'"
proof (induction n arbitrary: s)
  case (Suc n)
  then consider "s' = s" | s1 where "s1 \<in> set (f s)" "s' \<in> set (repeat_runs g f n s1)"
    by (auto simp: Let_def split: if_splits)
  then show ?case using assms Suc.IH read_within_trans by cases (simp, blast)
qed simp

lemma runs_within: "rx_within Q r \<Longrightarrow> s' \<in> set (runs r s) \<Longrightarrow> read_within Q s s'"
proof (induction r arbitrary: s s')
  case (Cls P)
  obtain b t cs where s: "s = (b, t, cs)" by (rule prod_cases3)
  with Cls show ?case by (cases t) (auto simp: read_within_def split: if_splits)
next
  case (Seq r q)
  then obtain s1 where "s1 \<in> set (runs r s)" "s' \<in> set (runs q s1)" by auto
  with Seq have "read_within Q s s1" "read_within Q s1 s'" by simp_all
  then show ?case by (rule read_within_trans)
next
  case (Star g r)
  then have "\<And>s s'. s' \<in> set (runs r s) \<Longrightarrow> read_within Q s s'" by simp
  from repeat_runs_within [where f = "runs r", OF this] Star.prems(2)
  show ?case by (simp add: runs.simps(5))
next
  case (Group n r)
  then obtain s1 where "s1 \<in> set (runs r s)"
    and s': "s' = (fst s1, fst (snd s1),
      (n, rev (take (length (fst s1) - length (fst s)) (fst s1))) # snd (snd s1))"
    by auto
  with Group have "read_within Q s s1" by simp
  with s' show ?case by (auto simp: read_within_def)
qed (auto split: prod.splits if_splits)

lemma match_group_within:
  assumes "rx_within Q r" and "match_at r b t = Some m"
  shows "list_all Q (group m n)"
proof -
  from assms(2) obtain b' t' ss where "runs r (b, t, []) = (b', t', found_groups m) # ss"
    by (auto simp: match_at_def split: list.splits)
  then have "read_within Q (b, t, []) (b', t', found_groups m)"
    using runs_within [OF assms(1)] by simp
  then show ?thesis
    by (auto simp: read_within_def group_def split: option.splits dest: map_of_SomeD)
qed

lemma set_split_on: "p \<in> set (split_on c s) \<Longrightarrow> set p \<subseteq> set s"
proof (induction s arbitrary: p)
  case (Cons x s)
  then show ?case by (fastforce split: if_splits list.splits)
qed simp

lemma int_of_part_nonneg:
  assumes "list_all is_decimal p" and "int_of_part p = Inr i"
  shows "0 \<le> i"
proof -
  have "\<And>c. is_decimal c \<Longrightarrow> c \<noteq> CHR ''-''" using decimal_not_special by blast
  with assms show ?thesis
    by (auto simp: int_of_part_def int_of_str_def strip_decimals Let_def
        split: option.splits list.splits if_splits)
qed

lemma map_outcome_list_all:
  "map_outcome f xs = Inr ys \<Longrightarrow> \<forall>x\<in>set xs. \<forall>y. f x = Inr y \<longrightarrow> P y \<Longrightarrow> list_all P ys"
  by (induction xs arbitrary: ys) auto

lemma version_key_nonneg:
  assumes "version_key v = Inr (Some key)"
  shows "list_all ((\<le>) 0) key"
proof -
  let ?Q = "\<lambda>c. is_decimal c \<or> c = CHR ''.''"
  from assms obtain m where m: "match_at version_prefix_re [] v = Some m"
    and key: "map_outcome int_of_part (split_on (CHR ''.'') (group m ''release'')) = Inr key"
    by (auto simp: version_key_def re_match_def split: option.splits)
  have "rx_within ?Q version_prefix_re"
    by (simp add: version_prefix_re_def plus_rx_def star_rx_def)
  then have "list_all ?Q (group m ''release'')" using m by (rule match_group_within)
  then have "list_all is_decimal p" if "p \<in> set (split_on (CHR ''.'') (group m ''release''))" for p
    using set_split_on [OF that] split_no_sep [OF that] by (fastforce simp: list_all_iff)
  with int_of_part_nonneg have "\<forall>p\<in>set (split_on (CHR ''.'') (group m ''release'')).
    \<forall>i. int_of_part p = Inr i \<longrightarrow> 0 \<le> i" by blast
  with key show ?thesis by (rule map_outcome_list_all)
qed

section \<open>Upper bounds\<close>

text \<open>The upper bounds read from a requirement, and a version that satisfies one.\<close>

definition upper_bounds_of :: "string \<Rightarrow> found list" where
  "upper_bounds_of requirement =
     (case partition_at (CHR '';'') requirement of (marker_prefix, _, _) \<Rightarrow>
        case re_match name_re marker_prefix of
          None \<Rightarrow> []
        | Some m \<Rightarrow> finditer upper_bound_re (strip (found_after m)))"

definition within_bound :: "string \<Rightarrow> found \<Rightarrow> bool" where
  "within_bound v upper_bound =
     (case compare_versions v (group upper_bound ''version'') of
        Inr (Some c) \<Rightarrow> (if group upper_bound ''operator'' = ''<'' then c < 0
                        else if group upper_bound ''operator'' = ''<='' then c \<le> 0 else True)
      | _ \<Rightarrow> False)"

lemma check_bounds_ok: "check_bounds v bounds = Inr True \<Longrightarrow> list_all (within_bound v) bounds"
  by (induction bounds) (auto simp: within_bound_def split: option.splits if_splits)

section \<open>Properties\<close>

definition operator_first :: "string \<Rightarrow> bool" where
  [str_simps]: "operator_first requirement =
     (case partition_at (CHR '';'') requirement of (marker_prefix, _, _) \<Rightarrow>
        case re_match name_re marker_prefix of
          None \<Rightarrow> True
        | Some m \<Rightarrow> let s = strip (found_after m)
            in s = [] \<or> (\<not> is_name_char (hd s) \<and> hd s \<noteq> CHR ''[''))"

lemma lower_bound_settles:
  assumes "with_lower_bound requirement v = Inr updated"
    and "version_text v" and "operator_first requirement"
  shows "with_lower_bound updated v = Inr updated
    \<and> requirement_name updated = requirement_name requirement"
proof -
  obtain mp sep sf where part: "partition_at (CHR '';'') requirement = (mp, sep, sf)"
    by (rule prod_cases3)
  note rejoin = partition_at_rejoin [OF part]
  show ?thesis
  proof (cases "re_match name_re mp")
    case None
    with assms part show ?thesis by (simp add: with_lower_bound_unfold)
  next
    case (Some m)
    define spec where "spec = strip (found_after m)"
    define q where "q = bounded_specifier v spec"
    define p where "p = group m ''name'' @ group m ''extras''"
    have updated: "updated = p @ q @ (if sep then '';'' @ sf else [])"
      using assms(1) part Some by (simp add: with_lower_bound_unfold [OF assms(2)] p_def q_def spec_def)
    have "strip spec = spec" by (simp add: spec_def)
    note shape = bounded_specifier_text [OF assms(2) this, folded q_def]
    have "CHR '';'' \<notin> set mp" using part by (rule partition_at_before)
    with name_match_split [OF Some] have "CHR '';'' \<notin> set p" "CHR '';'' \<notin> set (found_after m)"
      by (auto simp: p_def)
    moreover have "set spec \<subseteq> set (found_after m)" unfolding spec_def by (rule set_strip)
    ultimately have semi: "CHR '';'' \<notin> set (p @ q)" using shape(3) by auto
    have part': "partition_at (CHR '';'') updated = (p @ q, sep, if sep then sf else [])"
      unfolding updated using partition_at_append [OF semi, of sf] partition_at_none [OF semi] by simp
    have "\<not> is_name_char (CHR ''>'')" by (simp add: is_name_char_def is_ascii_alnum_def is_decimal_def code_of_def)
    then have "q = [] \<or> (\<not> is_name_char (hd q) \<and> hd q \<noteq> CHR ''['')"
      using shape(2) assms(3) part Some by (auto simp: operator_first_def spec_def Let_def)
    from name_prefix_stable [OF Some this] obtain m' where
      m': "re_match name_re (p @ q) = Some m'" "group m' ''name'' = group m ''name''"
        "group m' ''extras'' = group m ''extras''" "found_after m' = q"
      by (auto simp: p_def)
    have "bounded_specifier v q = q"
      using assms(2) bounded_specifier_bounded [OF assms(2), of spec] bounded_specifier_fixed
      by (simp add: q_def)
    then have "with_lower_bound updated v = Inr updated"
      using part' m' shape(1) updated by (simp add: with_lower_bound_unfold [OF assms(2)] p_def)
    moreover have "requirement_name updated = Some (group m ''name'')"
      using requirement_name_match [OF m'(1)] m'(2) requirement_name_marker [of "p @ q" sf] updated
      by (cases sep) simp_all
    moreover have "requirement_name requirement = Some (group m ''name'')"
      using requirement_name_match [OF Some] requirement_name_marker [of mp sf] rejoin
      by (cases sep) simp_all
    ultimately show ?thesis by simp
  qed
qed

text \<open>
  C27. Setting a lower bound is idempotent: a requirement whose lower bound was set to a version
  is left as it is when the bound is set to that version again, and it still names the
  same package, for every requirement whose specifier starts with an operator.
\<close>

theorem with_lower_bound_twice:
  assumes "with_lower_bound requirement v = Inr updated"
    and "version_text v" and "operator_first requirement"
  shows "with_lower_bound updated v = Inr updated
    \<and> requirement_name updated = requirement_name requirement"
  using assms by (rule lower_bound_settles)

lemma with_lower_bound_twice_witness:
  "with_lower_bound ''uv_build>=0.11.8,<0.12.0'' ''0.11.8'' = Inr ''uv_build>=0.11.8,<0.12.0''
   \<and> requirement_name ''uv_build>=0.11.8,<0.12.0'' = requirement_name ''uv_build >0.11,<0.12.0''"
  by (rule with_lower_bound_twice) code_simp+





















text \<open>
  C29. Versions compare as their keys without trailing zeros do, lexicographically: so
  \<open>1.0\<close> and \<open>1\<close> are equal, the order is total, and it does not depend on the padding.
\<close>

theorem compare_versions_order:
  assumes "version_key left = Inr (Some a)" and "version_key right = Inr (Some b)"
  shows "compare_versions left right =
    Inr (Some (if strip_zeros a < strip_zeros b then -1
               else if strip_zeros a = strip_zeros b then 0 else 1))"
  using assms compare_keys_strip [OF version_key_nonneg version_key_nonneg, OF assms]
  by (simp add: compare_versions_def)

lemma compare_versions_order_witness:
  "compare_versions ''1.10'' ''1.9.0'' = Inr (Some 1)"
  using compare_versions_order [of "''1.10''" "[1, 10]" "''1.9.0''" "[1, 9, 0]"] by code_simp

text \<open>
  C30. The version chosen for a requirement is the locked one, or the resolver's for a
  package that is not locked, and it satisfies every upper bound of the requirement.
\<close>

theorem target_dependency_version_safe:
  assumes "target_dependency_version requirement locked resolver = Inr (Some v)"
  shows "\<exists>name. requirement_name requirement = Some name
    \<and> (case locked (canonical_name name) of Some w \<Rightarrow> v = w | None \<Rightarrow> resolver name = Inr (Some v))
    \<and> list_all (within_bound v) (upper_bounds_of requirement)"
proof -
  from assms obtain name where name: "requirement_name requirement = Some name"
    by (auto simp: target_dependency_version_def split: option.splits)
  with assms have "satisfies_upper_bounds requirement v = Inr True"
    by (auto simp: target_dependency_version_def split: option.splits if_splits)
  then have "list_all (within_bound v) (upper_bounds_of requirement)"
    by (auto simp: satisfies_upper_bounds_def upper_bounds_of_def dest: check_bounds_ok
        split: prod.splits option.splits)
  with assms name show ?thesis
    by (auto simp: target_dependency_version_def split: option.splits if_splits)
qed

lemma target_dependency_version_safe_witness:
  "list_all (within_bound ''0.11.8'') (upper_bounds_of ''uv_build>=0.11.0,<0.12.0'')"
proof -
  have "target_dependency_version ''uv_build>=0.11.0,<0.12.0'' Map.empty
      (\<lambda>n. Inr (Some ''0.11.8'')) = Inr (Some ''0.11.8'')" by code_simp
  from target_dependency_version_safe [OF this] show ?thesis by blast
qed

section \<open>Requirements the rewriting breaks\<close>

text \<open>
  Only \<open><\<close> and \<open><=\<close> are read as upper bounds: a pinned requirement of a package outside
  the lock file, as those of \<open>build-system.requires\<close> are, gets a lower bound above its pin,
  and a direct reference gets a bound in front of its URL.
\<close>

lemma pinned_build_requirement_contradicts:
  "sync_requirements Map.empty (\<lambda>_. Inr (Some ''80.1'')) [JStr ''setuptools==70.0'']
     (quoted ''setuptools==70.0'') []
   = Inr (quoted ''setuptools>=80.1,==70.0'',
       [\<lparr>old_requirement = ''setuptools==70.0'', new_requirement = ''setuptools>=80.1,==70.0''\<rparr>])"
  by code_simp

text \<open>
  The first occurrence of the quoted requirement is replaced, also where it is a comment: the
  requirement stays as it was, the update is reported, and a second run finds it again.
\<close>

lemma comment_is_rewritten_instead:
  "sync_requirements Map.empty (\<lambda>_. Inr (Some ''2.0'')) [JStr ''pkg>=1.0'']
     (''# not '' @ quoted ''pkg>=1.0'' @ [CHR 0x0A] @ quoted ''pkg>=1.0'') []
   = Inr (''# not '' @ quoted ''pkg>=2.0'' @ [CHR 0x0A] @ quoted ''pkg>=1.0'',
       [\<lparr>old_requirement = ''pkg>=1.0'', new_requirement = ''pkg>=2.0''\<rparr>])"
  by code_simp

lemma direct_reference_loses_its_form:
  "with_lower_bound ''pkg @ https://host/pkg.whl'' ''2.0'' = Inr ''pkg>=2.0,@ https://host/pkg.whl''"
  by code_simp

end
