(* ===== verification/Container_Images.thy ===== *)
theory Container_Images
  imports Dependency_Bounds "HOL-Library.Product_Lexorder" "HOL-Library.Option_ord"
begin

text \<open>
  update_container_image_versions.py: image references of Dockerfiles and Compose files
  are parsed, the tags of their repositories are listed from Docker Hub or ghcr.io, the
  best compatible tag is chosen by rank, and the references are replaced in the
  definition files and the documentation.
\<close>

section \<open>Patterns\<close>

definition is_quote :: "char \<Rightarrow> bool" where
  [str_simps]: "is_quote c = (c = CHR 0x22 \<or> c = CHR 0x27)"

definition is_nonspace :: "char \<Rightarrow> bool" where
  [str_simps]: "is_nonspace c = (\<not> is_space c)"

definition digits_rx :: "nat \<Rightarrow> rx" where
  [str_simps]: "digits_rx n = seqs (replicate n (Cls is_decimal))"

definition compose_image_re :: rx where
  [str_simps]: "compose_image_re = seqs
     [Bol True,
      Group ''prefix'' (seqs [star_rx (Cls is_space), lit ''image:'', star_rx (Cls is_space), opt (Cls is_quote)]),
      Group ''image'' (plus_rx (Cls (\<lambda>c. is_nonspace c \<and> \<not> is_quote c))),
      Group ''suffix'' (seqs [opt (Cls is_quote), star_rx (Cls is_space),
        opt (Seq (lit ''#'') (star_rx (Cls not_newline)))]),
      Eol True]"

definition docker_from_re :: rx where
  [str_simps]: "docker_from_re = seqs
     [Bol True,
      Group ''prefix'' (seqs [star_rx (Cls is_space), lit_nocase ''FROM'', plus_rx (Cls is_space),
        opt (seqs [lit_nocase ''--platform='', plus_rx (Cls is_nonspace), plus_rx (Cls is_space)])]),
      Group ''image'' (plus_rx (Cls is_nonspace)),
      Group ''suffix'' (star_rx (Cls not_newline)),
      Eol True]"

definition version_rx :: rx where
  [str_simps]: "version_rx =
     Seq (plus_rx (Cls is_decimal)) (star_rx (Seq (lit ''.'') (plus_rx (Cls is_decimal))))"

definition container_version_re :: rx where
  [str_simps]: "container_version_re = seqs
     [Group ''prefix'' (Star False (Cls not_newline)),
      Group ''version'' (Seq (opt (lit ''v'')) version_rx),
      Group ''suffix'' (Alt (Eol False)
        (Seq (Cls (\<lambda>c. c \<in> {CHR ''-'', CHR ''_''})) (star_rx (Cls not_newline))))]"

definition release_tag_re :: rx where
  [str_simps]: "release_tag_re = seqs
     [Bol False, lit ''RELEASE.'',
      Group ''date'' (seqs [digits_rx 4, lit ''-'', digits_rx 2, lit ''-'', digits_rx 2]), lit ''T'',
      Group ''time'' (seqs [digits_rx 2, lit ''-'', digits_rx 2, lit ''-'', digits_rx 2]), lit ''Z'',
      Group ''suffix'' (star_rx (Cls not_newline)), Eol False]"

definition container_build_suffix_re :: rx where
  [str_simps]: "container_build_suffix_re = seqs
     [lit ''-p'', Group ''build'' (plus_rx (Cls is_decimal)), Eol False]"

definition ghcr_next_link_re :: rx where
  [str_simps]: "ghcr_next_link_re = seqs
     [lit ''<'', Group ''url'' (plus_rx (Cls (\<lambda>c. c \<noteq> CHR ''>''))), lit ''>;'',
      star_rx (Cls is_space), lit ''rel='', lit [CHR 0x22], lit ''next'', lit [CHR 0x22]]"

definition is_ref_char :: "char \<Rightarrow> bool" where
  [str_simps]: "is_ref_char c =
     (is_ascii_alnum c \<or> c \<in> {CHR ''_'', CHR '':'', CHR ''/'', CHR ''@'', CHR ''-''})"

definition container_ref_leading_boundary :: rx where
  [str_simps]: "container_ref_leading_boundary = Not_Behind (\<lambda>c. is_ref_char c \<or> c = CHR ''.'')"

definition container_ref_trailing_boundary :: rx where
  [str_simps]: "container_ref_trailing_boundary = Not_Ahead
     (Alt (Cls is_ref_char) (Seq (lit ''.'') (Cls (\<lambda>c. is_ascii_alnum c \<or> c = CHR ''_''))))"

definition container_ref_pattern :: "string \<Rightarrow> rx" where
  [str_simps]: "container_ref_pattern image_ref =
     Seq container_ref_leading_boundary (Seq (lit image_ref) container_ref_trailing_boundary)"

section \<open>References\<close>

record container_image =
  ci_repository :: string
  ci_tag :: "string option"
  ci_digest :: "string option"

record container_image_reference =
  cr_file_path :: path
  cr_image_ref :: string

record container_tag_version =
  tv_prefix :: string
  tv_version :: "int list"
  tv_suffix :: string

definition parse_container_image_ref :: "string \<Rightarrow> container_image option" where
  [str_simps]: "parse_container_image_ref image_ref =
     (if startswith image_ref ''${'' then None
      else (case partition_at (CHR ''@'') image_ref of (ref_without_digest, separator, digest) \<Rightarrow>
        let last_slash_index = rfind ref_without_digest (CHR ''/'');
            tag_separator_index = rfind ref_without_digest (CHR '':'');
            (repository, tag) =
              (if tag_separator_index > last_slash_index
               then (take (nat tag_separator_index) ref_without_digest,
                     Some (drop (nat (tag_separator_index + 1)) ref_without_digest))
               else (ref_without_digest, None))
        in if repository = [] then None
           else Some \<lparr>ci_repository = repository,
             ci_tag = (if tag = Some [] then None else tag),
             ci_digest = (if separator then Some digest else None)\<rparr>))"

definition should_skip_container_image :: "container_image \<Rightarrow> bool" where
  [str_simps]: "should_skip_container_image img =
     (if ci_digest img \<noteq> None then True
      else if ci_repository img = ''scratch'' \<or> startswith (ci_repository img) ''localhost/''
      then True
      else ci_tag img = Some ''local'')"

definition container_image_ref_with_tag :: "container_image \<Rightarrow> string \<Rightarrow> string" where
  [str_simps]: "container_image_ref_with_tag img tag = ci_repository img @ '':'' @ tag"

definition should_replace_bare_container_doc_ref :: "container_image \<Rightarrow> string \<Rightarrow> bool" where
  [str_simps]: "should_replace_bare_container_doc_ref img image_ref =
     (ci_tag img = Some ''latest'' \<and> image_ref \<noteq> ci_repository img \<and>
      contains ''/'' (ci_repository img))"

definition container_image_refs_from_text :: "string \<Rightarrow> string list" where
  [str_simps]: "container_image_refs_from_text text =
     concat (map (\<lambda>pattern. map (\<lambda>m. group m ''image'') (finditer pattern text))
       [compose_image_re, docker_from_re])"

section \<open>Files\<close>

definition is_container_definition_path :: "path \<Rightarrow> bool" where
  "is_container_definition_path p =
     (let name = str_lower (file_name p)
      in startswith name ''dockerfile'' \<or>
         name \<in> {''compose.yaml'', ''compose.yml''} \<or> startswith name ''docker-compose'')"

definition container_definition_paths :: "path list \<Rightarrow> path list" where
  "container_definition_paths ps = sorted_set
     (filter is_container_definition_path (directly_in [] ps) @
      filter is_container_definition_path (below [''docker''] ps))"

definition container_reference_paths :: "path list \<Rightarrow> path list" where
  "container_reference_paths ps = sorted_set
     (container_definition_paths ps @
      filter (\<lambda>p. p = [''README.md'']) ps @
      filter (\<lambda>p. path_suffix p \<in> {''.md'', ''.yaml'', ''.yml''}) (below [''docs''] ps))"

fun references_in :: "path list \<Rightarrow> container_image_reference list updater" where
  "references_in [] = ret []"
| "references_in (p # ps) =
     bind_p (read_text p) (\<lambda>text.
     bind_p (references_in ps) (\<lambda>rest.
       ret (map (\<lambda>r. \<lparr>cr_file_path = p, cr_image_ref = r\<rparr>) (container_image_refs_from_text text) @ rest)))"

definition container_image_references :: "container_image_reference list updater" where
  "container_image_references =
     bind_p file_paths (\<lambda>ps. references_in (container_definition_paths ps))"

section \<open>Ranking of tags\<close>

type_synonym rank = "nat \<times> int list \<times> nat"

definition container_version_key :: "string \<Rightarrow> int list option outcome" where
  [str_simps]: "container_version_key version =
     (case re_match version_prefix_re (removeprefix version ''v'') of
        None \<Rightarrow> Inr None
      | Some m \<Rightarrow> and_then (map_outcome int_of_part (split_on (CHR ''.'') (group m ''release'')))
                    (\<lambda>key. Inr (Some key)))"

definition container_tag_version_of :: "string \<Rightarrow> container_tag_version option outcome" where
  [str_simps]: "container_tag_version_of tag =
     (case re_match container_version_re tag of
        None \<Rightarrow> Inr None
      | Some m \<Rightarrow> and_then (container_version_key (group m ''version'')) (\<lambda>version.
          case version of
            None \<Rightarrow> Inr None
          | Some v \<Rightarrow> Inr (Some \<lparr>tv_prefix = group m ''prefix'', tv_version = v,
                                 tv_suffix = group m ''suffix''\<rparr>)))"

definition suffix_preference :: "string \<Rightarrow> nat" where
  [str_simps]: "suffix_preference suffix =
     (if suffix = [] \<or> re_fullmatch container_build_suffix_re suffix \<noteq> None then 3 else 2)"

definition container_version_with_build_suffix :: "container_tag_version \<Rightarrow> int list outcome" where
  [str_simps]: "container_version_with_build_suffix version =
     (case re_fullmatch container_build_suffix_re (tv_suffix version) of
        None \<Rightarrow> Inr (tv_version version)
      | Some m \<Rightarrow> and_then (int_of_part (group m ''build'')) (\<lambda>b. Inr (tv_version version @ [b])))"

definition release_container_tag_rank :: "string \<Rightarrow> rank option outcome" where
  [str_simps]: "release_container_tag_rank tag =
     (case re_match release_tag_re tag of
        None \<Rightarrow> Inr None
      | Some m \<Rightarrow> and_then (map_outcome int_of_part
            (split_on (CHR ''-'') (group m ''date'') @ split_on (CHR ''-'') (group m ''time'')))
          (\<lambda>release_key. Inr (Some (2, release_key, suffix_preference (group m ''suffix'')))))"

definition container_tag_rank :: "string \<Rightarrow> rank option outcome" where
  [str_simps]: "container_tag_rank tag =
     and_then (release_container_tag_rank tag) (\<lambda>release_rank.
       case release_rank of
         Some r \<Rightarrow> Inr (Some r)
       | None \<Rightarrow> and_then (container_tag_version_of tag) (\<lambda>version.
           case version of
             None \<Rightarrow> Inr None
           | Some v \<Rightarrow> and_then (container_version_with_build_suffix v)
               (\<lambda>key. Inr (Some (1, key, suffix_preference (tv_suffix v))))))"

fun best_ranked_from :: "(string \<times> rank) option \<Rightarrow> string list \<Rightarrow> string option outcome" where
  "best_ranked_from best [] = Inr (map_option fst best)"
| "best_ranked_from best (tag # tags) =
     and_then (container_tag_rank tag) (\<lambda>rank.
       case rank of
         None \<Rightarrow> best_ranked_from best tags
       | Some r \<Rightarrow> best_ranked_from
           (case best of
              None \<Rightarrow> Some (tag, r)
            | Some (best_tag, best_rank) \<Rightarrow> if r > best_rank then Some (tag, r) else best) tags)"

definition best_ranked_container_tag :: "string list \<Rightarrow> string option outcome" where
  "best_ranked_container_tag tags = best_ranked_from None tags"

definition is_python_runtime_repository :: "string \<Rightarrow> bool" where
  "is_python_runtime_repository repository =
     (repository \<in> {''python'', ''library/python'', ''docker.io/library/python''})"

definition python_version_prefix_length :: nat where
  "python_version_prefix_length = 2"

definition required_container_version_prefix :: "string \<Rightarrow> string \<Rightarrow> int list \<Rightarrow> int list" where
  "required_container_version_prefix repository current_tag version =
     (if is_python_runtime_repository repository \<and> python_version_prefix_length \<le> length version
      then take python_version_prefix_length version
      else if startswith current_tag ''python'' \<and> python_version_prefix_length \<le> length version
      then take python_version_prefix_length version
      else take 1 version)"

definition matches_container_tag_variant ::
    "string \<Rightarrow> container_tag_version \<Rightarrow> int list \<Rightarrow> bool outcome" where
  "matches_container_tag_variant tag current_version version_prefix =
     and_then (container_tag_version_of tag) (\<lambda>candidate.
       case candidate of
         None \<Rightarrow> Inr False
       | Some v \<Rightarrow> Inr (tv_prefix v = tv_prefix current_version \<and>
           tv_suffix v = tv_suffix current_version \<and>
           take (length version_prefix) (tv_version v) = version_prefix))"

fun filter_outcome :: "('a \<Rightarrow> bool outcome) \<Rightarrow> 'a list \<Rightarrow> 'a list outcome" where
  "filter_outcome p [] = Inr []"
| "filter_outcome p (x # xs) =
     and_then (p x) (\<lambda>keep. and_then (filter_outcome p xs)
       (\<lambda>rest. Inr (if keep then x # rest else rest)))"

definition best_same_variant_container_tag :: "string \<Rightarrow> string \<Rightarrow> string list \<Rightarrow> string option outcome" where
  "best_same_variant_container_tag repository current_tag tags =
     and_then (container_tag_version_of current_tag) (\<lambda>current.
       case current of
         None \<Rightarrow> Inr None
       | Some current_version \<Rightarrow>
           and_then (filter_outcome (\<lambda>tag. matches_container_tag_variant tag current_version
               (required_container_version_prefix repository current_tag (tv_version current_version))) tags)
             best_ranked_container_tag)"

definition best_pinned_floating_container_tag :: "string \<Rightarrow> string list \<Rightarrow> string option outcome" where
  "best_pinned_floating_container_tag current_tag tags =
     best_ranked_container_tag (filter (\<lambda>tag. endswith tag (''-'' @ current_tag)) tags)"

definition best_compatible_container_tag :: "string \<Rightarrow> string \<Rightarrow> string list \<Rightarrow> string option outcome" where
  "best_compatible_container_tag repository current_tag tags =
     and_then (best_same_variant_container_tag repository current_tag tags) (\<lambda>versioned_match.
       if versioned_match \<noteq> None \<and> versioned_match \<noteq> Some current_tag then Inr versioned_match
       else and_then (best_pinned_floating_container_tag current_tag tags) (\<lambda>pinned_floating_match.
         if pinned_floating_match \<noteq> None \<and> pinned_floating_match \<noteq> Some current_tag
         then Inr pinned_floating_match else Inr None))"

section \<open>Registries\<close>

definition docker_io_registry :: string where
  [str_simps]: "docker_io_registry = ''docker.io''"

definition max_registry_pages :: nat where
  "max_registry_pages = 20"

definition docker_hub_path :: "string \<Rightarrow> string" where
  [str_simps]: "docker_hub_path repository =
     (if contains ''/'' repository then repository else ''library/'' @ repository)"

definition container_registry_and_path :: "string \<Rightarrow> string \<times> string" where
  [str_simps]: "container_registry_and_path repository =
     (case partition_at (CHR ''/'') repository of (first_component, separator, remaining_path) \<Rightarrow>
        if first_component = docker_io_registry \<and> separator
        then (docker_io_registry, docker_hub_path remaining_path)
        else if (CHR ''.'' \<in> set first_component \<or> CHR '':'' \<in> set first_component
                 \<or> first_component = ''localhost'') \<and> separator
        then (first_component, remaining_path)
        else (docker_io_registry, docker_hub_path repository))"

fun str_items :: "json list \<Rightarrow> string list" where
  "str_items [] = []"
| "str_items (JStr s # js) = s # str_items js"
| "str_items (_ # js) = str_items js"

fun docker_hub_payload_tag_name :: "json \<Rightarrow> json list" where
  "docker_hub_payload_tag_name (JObj kvs) = [get_or kvs ''name'' JNull]"
| "docker_hub_payload_tag_name _ = []"

definition tag_names_from_docker_hub_payload :: "(string \<times> json) list \<Rightarrow> string list" where
  "tag_names_from_docker_hub_payload pl =
     (case get_or pl ''results'' (JArr []) of
        JArr results \<Rightarrow> str_items (concat (map docker_hub_payload_tag_name results))
      | _ \<Rightarrow> [])"

text \<open>A response whose payload is a dict, with its link.\<close>

definition response_dict :: "json_response option \<Rightarrow> ((string \<times> json) list \<times> string option) option" where
  [str_simps]: "response_dict response =
     (case response of
        None \<Rightarrow> None
      | Some r \<Rightarrow> (case payload r of JObj kvs \<Rightarrow> Some (kvs, link r) | _ \<Rightarrow> None))"

text \<open>\<open>for _ in range(_MAX_REGISTRY_PAGES)\<close>: the number of pages left is the first argument.\<close>

fun docker_hub_pages :: "updater_env \<Rightarrow> nat \<Rightarrow> string \<Rightarrow> string list \<Rightarrow> string list outcome" where
  "docker_hub_pages env 0 url tags = Inr tags"
| "docker_hub_pages env (Suc n) url tags =
     and_then (json_response_of env url []) (\<lambda>response.
       case response_dict response of
         Some (kvs, _) \<Rightarrow>
           (let tags' = tags @ tag_names_from_docker_hub_payload kvs
            in case json_get kvs ''next'' of
                 Some (JStr next_url) \<Rightarrow>
                   if next_url = [] then Inr tags' else docker_hub_pages env n next_url tags'
               | _ \<Rightarrow> Inr tags')
       | _ \<Rightarrow> Inr tags)"

definition docker_hub_tags :: "updater_env \<Rightarrow> string \<Rightarrow> string list outcome" where
  "docker_hub_tags env repository_path = docker_hub_pages env max_registry_pages
     (''https://hub.docker.com/v2/repositories/'' @ repository_path @ ''/tags?page_size=100'') []"

definition tag_names_from_registry_payload :: "(string \<times> json) list \<Rightarrow> string list" where
  "tag_names_from_registry_payload pl =
     (case get_or pl ''tags'' (JArr []) of JArr tags \<Rightarrow> str_items tags | _ \<Rightarrow> [])"

definition next_ghcr_url :: "string option \<Rightarrow> string option" where
  "next_ghcr_url lnk =
     (case lnk of
        None \<Rightarrow> None
      | Some l \<Rightarrow> (case re_search ghcr_next_link_re l of
          None \<Rightarrow> None
        | Some m \<Rightarrow>
            let url = group m ''url''
            in if startswith url ''/'' then Some (''https://ghcr.io'' @ url) else Some url))"

text \<open>\<open>urllib.parse.quote_plus\<close>, of the UTF-8 bytes of the text.\<close>

definition hex_digit :: "nat \<Rightarrow> char" where
  [str_simps]: "hex_digit n = (if n < 10 then char_of (48 + n) else char_of (55 + n))"

definition percent_byte :: "nat \<Rightarrow> string" where
  [str_simps]: "percent_byte n = [CHR ''%'', hex_digit (n div 16), hex_digit (n mod 16)]"

definition quote_plus_char :: "char \<Rightarrow> string" where
  [str_simps]: "quote_plus_char c =
     (if is_ascii_alnum c \<or> c \<in> {CHR ''_'', CHR ''.'', CHR ''-'', CHR ''~''} then [c]
      else if c = CHR '' '' then ''+''
      else if code_of c < 128 then percent_byte (code_of c)
      else percent_byte (192 + code_of c div 64) @ percent_byte (128 + code_of c mod 64))"

definition quote_plus :: "string \<Rightarrow> string" where
  [str_simps]: "quote_plus s = concat (map quote_plus_char s)"

definition ghcr_token :: "updater_env \<Rightarrow> string \<Rightarrow> string option outcome" where
  "ghcr_token env repository_path =
     and_then (json_response_of env
         (''https://ghcr.io/token?service='' @ quote_plus ''ghcr.io'' @
          ''&scope='' @ quote_plus (''repository:'' @ repository_path @ '':pull'')) [])
       (\<lambda>response. case response_dict response of
           Some (kvs, _) \<Rightarrow>
             (case json_get kvs ''token'' of Some (JStr token) \<Rightarrow> Inr (Some token) | _ \<Rightarrow> Inr None)
         | _ \<Rightarrow> Inr None)"

fun ghcr_pages :: "updater_env \<Rightarrow> string \<Rightarrow> nat \<Rightarrow> string \<Rightarrow> string list \<Rightarrow> string list outcome" where
  "ghcr_pages env token 0 url tags = Inr tags"
| "ghcr_pages env token (Suc n) url tags =
     and_then (json_response_of env url [(''Authorization'', ''Bearer '' @ token)]) (\<lambda>response.
       case response_dict response of
         Some (kvs, l) \<Rightarrow>
           (let tags' = tags @ tag_names_from_registry_payload kvs
            in case next_ghcr_url l of
                 None \<Rightarrow> Inr tags'
               | Some next_url \<Rightarrow> ghcr_pages env token n next_url tags')
       | _ \<Rightarrow> Inr tags)"

definition ghcr_tags :: "updater_env \<Rightarrow> string \<Rightarrow> string list outcome" where
  "ghcr_tags env repository_path =
     and_then (ghcr_token env repository_path) (\<lambda>token.
       case token of
         None \<Rightarrow> Inr []
       | Some tk \<Rightarrow> ghcr_pages env tk max_registry_pages
           (''https://ghcr.io/v2/'' @ repository_path @ ''/tags/list?n=1000'') [])"

definition container_registry_tags :: "updater_env \<Rightarrow> string \<Rightarrow> string list outcome" where
  "container_registry_tags env repository =
     (case container_registry_and_path repository of (registry, repository_path) \<Rightarrow>
        if registry = docker_io_registry then docker_hub_tags env repository_path
        else if registry = ''ghcr.io'' then ghcr_tags env repository_path
        else Inr [])"

definition latest_container_image_tag ::
    "updater_env \<Rightarrow> string \<Rightarrow> string option \<Rightarrow> string option outcome" where
  "latest_container_image_tag env repository current_tag =
     and_then (container_registry_tags env repository) (\<lambda>tags.
       if tags = [] then Inr None
       else (case current_tag of
           None \<Rightarrow> best_ranked_container_tag tags
         | Some t \<Rightarrow> if t = ''latest'' then best_ranked_container_tag tags
                     else best_compatible_container_tag repository t tags))"

section \<open>Replacements\<close>

definition remote_container_images ::
    "container_image_reference list \<Rightarrow> (string \<times> container_image) list" where
  "remote_container_images references =
     List.map_filter (\<lambda>image_ref. case parse_container_image_ref image_ref of
         None \<Rightarrow> None
       | Some i \<Rightarrow> if should_skip_container_image i then None else Some (image_ref, i))
       (sorted_set (map cr_image_ref references))"

text \<open>Sorting the pairs of a repository and a tag compares two tags of one repository: None
  against a string raises TypeError.\<close>

definition sorted_keys ::
    "(string \<times> string option) list \<Rightarrow> (string \<times> string option) list outcome" where
  "sorted_keys keys =
     (if list_ex (\<lambda>(r, t). t = None \<and> list_ex (\<lambda>(r', t'). r' = r \<and> t' \<noteq> None) keys) keys
      then Inl Type_Error else Inr (sorted_set keys))"

type_synonym tag_resolver = "string \<Rightarrow> string option \<Rightarrow> string option outcome"

definition resolve_container_tags ::
    "updater_env \<Rightarrow> container_image list \<Rightarrow> tag_resolver \<Rightarrow>
     (string \<times> string option \<rightharpoonup> string option) outcome" where
  "resolve_container_tags env images latest_tag_resolver =
     and_then (sorted_keys (map (\<lambda>i. (ci_repository i, ci_tag i)) images)) (\<lambda>keys.
       resolve_in_parallel (images_completed env) keys (\<lambda>(r, t). latest_tag_resolver r t))"

fun replacements_for ::
    "(string \<times> string option \<rightharpoonup> string option) \<Rightarrow> (string \<times> container_image) list \<Rightarrow>
     (string \<times> string) list \<Rightarrow> (string \<times> string) list" where
  "replacements_for latest_tags [] replacements = replacements"
| "replacements_for latest_tags ((image_ref, i) # rest) replacements =
     (case latest_tags (ci_repository i, ci_tag i) of
        Some (Some latest_tag) \<Rightarrow>
          (let new_ref = container_image_ref_with_tag i latest_tag
           in replacements_for latest_tags rest
                (if ci_tag i = Some latest_tag \<or> new_ref = image_ref then replacements
                 else let replacements' = dict_set image_ref new_ref replacements
                      in if should_replace_bare_container_doc_ref i image_ref
                            \<and> map_of replacements' (ci_repository i) = None
                         then dict_set (ci_repository i) new_ref replacements'
                         else replacements'))
      | _ \<Rightarrow> replacements_for latest_tags rest replacements)"

definition container_image_replacements ::
    "updater_env \<Rightarrow> container_image_reference list \<Rightarrow> tag_resolver \<Rightarrow> (string \<times> string) list outcome" where
  "container_image_replacements env references latest_tag_resolver =
     (let images = remote_container_images references
      in and_then (resolve_container_tags env (map snd images) latest_tag_resolver)
           (\<lambda>latest_tags. Inr (replacements_for latest_tags images [])))"

definition replace_container_ref_in_text :: "string \<Rightarrow> string \<Rightarrow> string \<Rightarrow> (string \<times> bool) outcome" where
  [str_simps]: "replace_container_ref_in_text text old_ref new_ref =
     (case parse_template [] new_ref of
        None \<Rightarrow> Inl Re_Error
      | Some parts \<Rightarrow>
          let updated_text = re_sub (container_ref_pattern old_ref) (expand_template [] parts) text
          in Inr (updated_text, updated_text \<noteq> text))"

definition replacement_length :: "string \<times> string \<Rightarrow> nat" where
  "replacement_length replacement = length (fst replacement)"

text \<open>\<open>sorted(..., key=_replacement_length, reverse=True)\<close> keeps the order of equal lengths.\<close>

definition ordered_replacements :: "(string \<times> string) list \<Rightarrow> (string \<times> string) list" where
  "ordered_replacements replacements = sort_key (\<lambda>r. - int (replacement_length r)) replacements"

fun replace_refs_in_text ::
    "path \<Rightarrow> (string \<times> string) list \<Rightarrow> string \<Rightarrow> (string \<times> container_image_update list) outcome" where
  "replace_refs_in_text p [] text = Inr (text, [])"
| "replace_refs_in_text p ((old_ref, new_ref) # rest) text =
     and_then (replace_container_ref_in_text text old_ref new_ref) (\<lambda>(updated_text, changed).
     and_then (replace_refs_in_text p rest updated_text) (\<lambda>(final_text, updates).
       Inr (final_text,
            if changed
            then \<lparr>cu_file_path = p, cu_old_ref = old_ref, cu_new_ref = new_ref\<rparr> # updates
            else updates)))"

fun replace_container_refs ::
    "bool \<Rightarrow> (string \<times> string) list \<Rightarrow> path list \<Rightarrow> container_image_update list updater" where
  "replace_container_refs dry ordered [] = ret []"
| "replace_container_refs dry ordered (p # ps) =
     bind_p (read_text p) (\<lambda>original_text.
     bind_p (of_result (replace_refs_in_text p ordered original_text)) (\<lambda>(updated_text, updates).
     bind_p (if updated_text \<noteq> original_text \<and> \<not> dry then write_text p updated_text else ret ()) (\<lambda>_.
     bind_p (replace_container_refs dry ordered ps) (\<lambda>rest. ret (updates @ rest)))))"

definition update_container_image_versions ::
    "updater_env \<Rightarrow> bool \<Rightarrow> tag_resolver option \<Rightarrow> container_image_update list updater" where
  "update_container_image_versions env dry latest_tag_resolver =
     bind_p container_image_references (\<lambda>references.
     let resolver = (case latest_tag_resolver of Some r \<Rightarrow> r | None \<Rightarrow> latest_container_image_tag env)
     in bind_p (of_result (container_image_replacements env references resolver)) (\<lambda>replacements.
          if replacements = [] then ret []
          else bind_p file_paths (\<lambda>ps.
            replace_container_refs dry (ordered_replacements replacements)
              (container_reference_paths ps))))"

end
