(* ===== verification/Github_Actions.thy ===== *)
theory Github_Actions
  imports Updater_Env Dependency_Bounds
begin

text \<open>
  update_github_action_versions.py: the \<open>uses: owner/action@ref\<close> pins of the workflow files
  move to the latest tag when its major version differs, and the \<open>version:\<close> input of the
  steps that use docker/setup-compose-action moves to the latest docker/compose tag.
\<close>

section \<open>Patterns\<close>

definition is_nonspace_nonhash :: "char \<Rightarrow> bool" where
  [str_simps]: "is_nonspace_nonhash c = (\<not> is_space c \<and> c \<noteq> CHR ''#'')"

definition action_uses_re :: rx where
  [str_simps]: "action_uses_re = seqs
     [Group ''prefix'' (seqs [Word_Edge, lit ''uses:'', star_rx (Cls is_space)]),
      Group ''repository'' (seqs [plus_rx (Cls is_name_char), lit ''/'', plus_rx (Cls is_name_char)]),
      lit ''@'', Group ''ref'' (plus_rx (Cls is_nonspace_nonhash))]"

definition yaml_version_re :: rx where
  [str_simps]: "yaml_version_re = seqs
     [Bol False,
      Group ''prefix'' (seqs [star_rx (Cls is_space), lit ''version:'', star_rx (Cls is_space)]),
      Group ''ref'' (plus_rx (Cls is_nonspace_nonhash)),
      Group ''suffix'' (Seq (star_rx (Cls is_space)) (opt (Seq (lit ''#'') (star_rx (Cls not_newline))))),
      Group ''newline'' (Seq (opt (lit [char_of (13 :: nat)])) (opt (lit [char_of (10 :: nat)]))),
      Eol False]"

definition major_ref_re :: rx where
  [str_simps]: "major_ref_re = Seq (lit ''v'') (Group ''major'' (plus_rx (Cls is_decimal)))"

definition setup_compose_action_repository :: string where
  [str_simps]: "setup_compose_action_repository = ''docker/setup-compose-action''"

definition docker_compose_repository :: string where
  [str_simps]: "docker_compose_repository = ''docker/compose''"

section \<open>Action pins\<close>

definition major_version :: "string \<Rightarrow> int option outcome" where
  [str_simps]: "major_version ref =
     (case re_match major_ref_re ref of
        None \<Rightarrow> Inr None
      | Some m \<Rightarrow> and_then (int_of_part (group m ''major'')) (\<lambda>i. Inr (Some i)))"

definition updated_action_ref :: "string \<Rightarrow> string \<Rightarrow> string outcome" where
  [str_simps]: "updated_action_ref current_ref latest_tag =
     and_then (major_version current_ref) (\<lambda>current_major.
     and_then (major_version latest_tag) (\<lambda>latest_major.
       if current_major = None \<or> latest_major = None then Inr current_ref
       else if current_major = latest_major then Inr current_ref
       else Inr latest_tag))"

text \<open>
  The substitution with the closure \<open>replace_action\<close>: the text written for the matches and
  the updates the closure appended, in the order of the matches.
\<close>

definition new_action_ref :: "(string \<rightharpoonup> string option) \<Rightarrow> found \<Rightarrow> string option outcome" where
  "new_action_ref latest_tags m =
     (case latest_tags (group m ''repository'') of
        Some (Some latest_tag) \<Rightarrow>
          and_then (updated_action_ref (group m ''ref'') latest_tag) (\<lambda>new_ref.
            Inr (if new_ref = group m ''ref'' then None else Some new_ref))
      | _ \<Rightarrow> Inr None)"

fun replace_actions ::
    "path \<Rightarrow> (string \<rightharpoonup> string option) \<Rightarrow> segment list \<Rightarrow> (string \<times> action_update list) outcome" where
  "replace_actions p latest_tags [] = Inr ([], [])"
| "replace_actions p latest_tags (Skipped c # gs) =
     and_then (replace_actions p latest_tags gs) (\<lambda>(text, updates). Inr (c # text, updates))"
| "replace_actions p latest_tags (Matched m # gs) =
     and_then (new_action_ref latest_tags m) (\<lambda>new_ref.
     and_then (replace_actions p latest_tags gs) (\<lambda>(text, updates).
       case new_ref of
         None \<Rightarrow> Inr (found_text m @ text, updates)
       | Some r \<Rightarrow> Inr (group m ''prefix'' @ group m ''repository'' @ ''@'' @ r @ text,
           \<lparr>au_file_path = p, au_repository = group m ''repository'',
            au_old_ref = group m ''ref'', au_new_ref = r\<rparr> # updates)))"

section \<open>The input of the setup-compose step\<close>

text \<open>\<open>str.splitlines(keepends=True)\<close>; without \<open>keepends\<close> the line ends are dropped.\<close>

definition is_line_end :: "char \<Rightarrow> bool" where
  [str_simps]: "is_line_end c = (code_of c \<in> {10, 11, 12, 13, 28, 29, 30, 133})"

fun lines_from :: "string \<Rightarrow> string \<Rightarrow> (string \<times> string) list" where
  "lines_from acc [] = (if acc = [] then [] else [(rev acc, [])])"
| "lines_from acc [c] = (if is_line_end c then [(rev acc, [c])] else [(rev (c # acc), [])])"
| "lines_from acc (c # d # cs) =
     (if code_of c = 13 \<and> code_of d = 10 then (rev acc, [c, d]) # lines_from [] cs
      else if is_line_end c then (rev acc, [c]) # lines_from [] (d # cs)
      else lines_from (c # acc) (d # cs))"

definition splitlines :: "string \<Rightarrow> string list" where
  [str_simps]: "splitlines s = map fst (lines_from [] s)"

definition splitlines_keepends :: "string \<Rightarrow> string list" where
  [str_simps]: "splitlines_keepends s = map (\<lambda>(line, ending). line @ ending) (lines_from [] s)"

text \<open>The state of the loops over the lines: inside a setup-compose step, and the indentation
  of the line that uses the action.\<close>

type_synonym step_state = "bool \<times> nat option"

definition next_step_state :: "step_state \<Rightarrow> string \<Rightarrow> step_state" where
  [str_simps]: "next_step_state state line =
     (case state of (in_setup_compose_step, action_indent) \<Rightarrow>
        let stripped_line = lstrip line;
            line_indent = length line - length stripped_line;
            (in_step, indent) =
              (if in_setup_compose_step \<and> (case action_indent of None \<Rightarrow> False | Some i \<Rightarrow> line_indent \<le> i)
                  \<and> startswith stripped_line ''- ''
               then (False, None) else (in_setup_compose_step, action_indent))
        in if contains (''uses: '' @ setup_compose_action_repository @ ''@'') stripped_line
           then (True, Some line_indent) else (in_step, indent))"

definition updated_setup_compose_version_line ::
    "path \<Rightarrow> string \<Rightarrow> string \<Rightarrow> bool \<Rightarrow> string \<times> action_update option" where
  [str_simps]: "updated_setup_compose_version_line p line latest_version in_setup_compose_step =
     (if \<not> in_setup_compose_step then (line, None)
      else (case re_match yaml_version_re line of
          None \<Rightarrow> (line, None)
        | Some m \<Rightarrow>
            if group m ''ref'' = latest_version then (line, None)
            else (group m ''prefix'' @ latest_version @ group m ''suffix'' @ group m ''newline'',
                  Some \<lparr>au_file_path = p, au_repository = docker_compose_repository,
                    au_old_ref = group m ''ref'', au_new_ref = latest_version\<rparr>)))"

fun update_lines :: "path \<Rightarrow> string \<Rightarrow> step_state \<Rightarrow> string list \<Rightarrow> string list \<times> action_update list" where
  "update_lines p latest_version state [] = ([], [])"
| "update_lines p latest_version state (line # ls) =
     (let state' = next_step_state state line;
          (updated_line, update) = updated_setup_compose_version_line p line latest_version (fst state');
          (updated_lines, updates) = update_lines p latest_version state' ls
      in (updated_line # updated_lines,
          case update of None \<Rightarrow> updates | Some u \<Rightarrow> u # updates))"

definition updated_setup_compose_version_text ::
    "path \<Rightarrow> string \<Rightarrow> (string \<rightharpoonup> string option) \<Rightarrow> string \<times> action_update list" where
  "updated_setup_compose_version_text p workflow_text latest_tool_tags =
     (case latest_tool_tags docker_compose_repository of
        Some (Some latest_version) \<Rightarrow>
          (case update_lines p latest_version (False, None) (splitlines_keepends workflow_text) of
             (updated_lines, updates) \<Rightarrow> (concat updated_lines, updates))
      | _ \<Rightarrow> (workflow_text, []))"

fun version_refs :: "step_state \<Rightarrow> string list \<Rightarrow> string list" where
  "version_refs state [] = []"
| "version_refs state (line # ls) =
     (let state' = next_step_state state line
      in if fst state'
         then (case re_match yaml_version_re line of
                 None \<Rightarrow> version_refs state' ls
               | Some m \<Rightarrow> group m ''ref'' # version_refs state' ls)
         else version_refs state' ls)"

definition setup_compose_version_refs :: "string \<Rightarrow> string list" where
  "setup_compose_version_refs workflow_text = version_refs (False, None) (splitlines workflow_text)"

definition updated_workflow_action_text ::
    "path \<Rightarrow> string \<Rightarrow> (string \<rightharpoonup> string option) \<Rightarrow> (string \<rightharpoonup> string option) \<Rightarrow>
     (string \<times> action_update list) outcome" where
  "updated_workflow_action_text p workflow_text latest_tags latest_tool_tags =
     and_then (replace_actions p latest_tags (scan_text action_uses_re workflow_text))
       (\<lambda>(updated_text, workflow_updates).
         case updated_setup_compose_version_text p updated_text latest_tool_tags of
           (final_text, setup_compose_updates) \<Rightarrow>
             Inr (final_text, workflow_updates @ setup_compose_updates))"

section \<open>The update of the workflows\<close>

definition workflow_paths :: "path list \<Rightarrow> path list" where
  "workflow_paths ps = sort (filter
     (\<lambda>p. endswith (file_name p) ''.yml'' \<or> endswith (file_name p) ''.yaml'')
     (directly_in [''.github'', ''workflows''] ps))"

definition github_action_repositories :: "string list \<Rightarrow> string list" where
  "github_action_repositories workflow_texts = sorted_set
     (concat (map (\<lambda>t. map (\<lambda>m. group m ''repository'') (finditer action_uses_re t)) workflow_texts))"

definition workflow_tool_repositories :: "string list \<Rightarrow> string list" where
  "workflow_tool_repositories workflow_texts =
     (if list_ex (\<lambda>t. setup_compose_version_refs t \<noteq> []) workflow_texts
      then [docker_compose_repository] else [])"

definition github_json :: "updater_env \<Rightarrow> string \<Rightarrow> json option outcome" where
  "github_json env url =
     and_then (json_response_of env url
        [(''Accept'', ''application/vnd.github+json''),
         (''User-Agent'', ''modern-python-template-dependency-updater'')])
       (\<lambda>response. Inr (map_option payload response))"

text \<open>A payload that is JSON null is the None of a failed request; one that is not a dict has
  no \<open>get\<close>.\<close>

definition latest_github_tag :: "updater_env \<Rightarrow> string \<Rightarrow> string option outcome" where
  "latest_github_tag env repository =
     and_then (github_json env (''https://api.github.com/repos/'' @ repository @ ''/releases/latest''))
       (\<lambda>latest_release.
     and_then (case latest_release of
           None \<Rightarrow> Inr None
         | Some JNull \<Rightarrow> Inr None
         | Some (JObj kvs) \<Rightarrow>
             (case json_get kvs ''tag_name'' of Some (JStr t) \<Rightarrow> Inr (Some t) | _ \<Rightarrow> Inr None)
         | Some _ \<Rightarrow> Inl Attribute_Error)
       (\<lambda>released. case released of
           Some t \<Rightarrow> Inr (Some t)
         | None \<Rightarrow>
             and_then (github_json env
                 (''https://api.github.com/repos/'' @ repository @ ''/tags?per_page=1'')) (\<lambda>tags.
               case tags of
                 Some (JArr (JObj kvs # _)) \<Rightarrow>
                   (case json_get kvs ''name'' of Some (JStr t) \<Rightarrow> Inr (Some t) | _ \<Rightarrow> Inr None)
               | _ \<Rightarrow> Inr None)))"

fun read_texts :: "path list \<Rightarrow> (path \<times> string) list updater" where
  "read_texts [] = ret []"
| "read_texts (p # ps) =
     bind_p (read_text p) (\<lambda>t. bind_p (read_texts ps) (\<lambda>ts. ret ((p, t) # ts)))"

fun update_workflows ::
    "bool \<Rightarrow> (string \<rightharpoonup> string option) \<Rightarrow> (string \<rightharpoonup> string option) \<Rightarrow> (path \<times> string) list \<Rightarrow>
     action_update list updater" where
  "update_workflows dry latest_tags latest_tool_tags [] = ret []"
| "update_workflows dry latest_tags latest_tool_tags ((p, workflow_text) # rest) =
     bind_p (of_result (updated_workflow_action_text p workflow_text latest_tags latest_tool_tags))
       (\<lambda>(updated_text, workflow_updates).
     bind_p (if workflow_updates \<noteq> [] \<and> \<not> dry then write_text p updated_text else ret ()) (\<lambda>_.
     bind_p (update_workflows dry latest_tags latest_tool_tags rest) (\<lambda>updates.
       ret (workflow_updates @ updates))))"

definition update_github_action_versions ::
    "updater_env \<Rightarrow> bool \<Rightarrow> (string \<Rightarrow> string option outcome) option \<Rightarrow> action_update list updater" where
  "update_github_action_versions env dry latest_tag_resolver =
     bind_p file_paths (\<lambda>ps.
     let resolver = (case latest_tag_resolver of Some r \<Rightarrow> r | None \<Rightarrow> latest_github_tag env)
     in bind_p (read_texts (workflow_paths ps)) (\<lambda>workflow_texts.
        bind_p (of_result (resolve_in_parallel (names_completed env)
          (github_action_repositories (map snd workflow_texts)) resolver)) (\<lambda>latest_tags.
        bind_p (of_result (resolve_in_parallel (names_completed env)
          (workflow_tool_repositories (map snd workflow_texts)) resolver)) (\<lambda>latest_tool_tags.
        update_workflows dry latest_tags latest_tool_tags workflow_texts))))"

end
