(* ===== verification/Updater_Run.thy ===== *)
theory Updater_Run
  imports Container_Images Github_Actions
begin

text \<open>
  update_dependencies.py, progress_reporter.py and cli.py: the order of the steps of one
  run, what is skipped in a dry run, the progress messages, and the printed summary.
\<close>

section \<open>Progress\<close>

record progress_reporter =
  reporter_enabled :: bool

record progress_step =
  step_message :: string
  step_enabled :: bool
  step_spinner :: bool

definition reporter_step :: "progress_reporter \<Rightarrow> string \<Rightarrow> bool \<Rightarrow> progress_step" where
  "reporter_step reporter message spinner =
     \<lparr>step_message = message, step_enabled = reporter_enabled reporter, step_spinner = spinner\<rparr>"

definition use_spinner :: "updater_env \<Rightarrow> progress_step \<Rightarrow> bool" where
  "use_spinner env s = (step_spinner s \<and> isatty env)"

definition step_enter :: "updater_env \<Rightarrow> progress_step \<Rightarrow> unit updater" where
  "step_enter env s =
     (if \<not> step_enabled s then ret ()
      else if use_spinner env s then ret ()
      else write_line (step_message s @ ''...''))"

definition spinner_frame :: "nat \<Rightarrow> string \<Rightarrow> string" where
  "spinner_frame i message =
     char_of (13 :: nat) # [CHR ''|'', CHR ''/'', CHR ''-'', CHR 0x5C] ! (i mod 4) # '' '' @ message @ ''...''"

text \<open>What the thread of the spinner wrote until it was joined: at least one frame.\<close>

definition spin :: "updater_env \<Rightarrow> progress_step \<Rightarrow> unit updater" where
  "spin env s = write_out (concat (map (\<lambda>i. spinner_frame i (step_message s))
     [0..<Suc (extra_frames env (step_message s))]))"

definition step_exit :: "updater_env \<Rightarrow> progress_step \<Rightarrow> bool \<Rightarrow> unit updater" where
  "step_exit env s failed =
     (if \<not> step_enabled s then ret ()
      else bind_p (if use_spinner env s
             then bind_p (spin env s) (\<lambda>_. write_out (char_of (13 :: nat) #
               replicate (length (step_message s) + 8) (CHR '' '') @ [char_of (13 :: nat)]))
             else ret ())
        (\<lambda>_. write_line (step_message s @ '': '' @ (if failed then ''failed'' else ''done''))))"

text \<open>\<open>with progress.step(...): body\<close>; an exception of the body goes on after the exit.\<close>

definition with_step :: "updater_env \<Rightarrow> progress_step \<Rightarrow> 'a updater \<Rightarrow> 'a updater" where
  "with_step env s body =
     bind_p (step_enter env s) (\<lambda>_.
     bind_p (try_except body (\<lambda>e. bind_p (step_exit env s True) (\<lambda>_. raise e))) (\<lambda>x.
     bind_p (step_exit env s False) (\<lambda>_. ret x)))"

section \<open>One run\<close>

definition run_command :: "updater_env \<Rightarrow> string list \<Rightarrow> unit updater" where
  "run_command env command =
     bind_p (gets files) (\<lambda>fs. case process env command fs of (success, fs') \<Rightarrow>
     bind_p (modify (\<lambda>w. w\<lparr>files := fs', commands := commands w @ [command]\<rparr>)) (\<lambda>_.
       if success then ret () else raise (Called_Process_Error command)))"

definition update_pyproject_dependencies ::
    "updater_env \<Rightarrow> update_options \<Rightarrow> progress_reporter \<Rightarrow> dependency_update list updater" where
  "update_pyproject_dependencies env options progress =
     (if \<not> update_pyproject options then ret []
      else with_step env (reporter_step progress ''Syncing pyproject.toml dependency bounds'' True)
        (sync_pyproject_dependency_versions env (dry_run options) None))"

definition update_github_actions ::
    "updater_env \<Rightarrow> update_options \<Rightarrow> progress_reporter \<Rightarrow> action_update list updater" where
  "update_github_actions env options progress =
     (if \<not> update_actions options then ret []
      else with_step env (reporter_step progress ''Checking GitHub Action pins'' True)
        (update_github_action_versions env (dry_run options) None))"

definition update_container_images ::
    "updater_env \<Rightarrow> update_options \<Rightarrow> progress_reporter \<Rightarrow> container_image_update list updater" where
  "update_container_images env options progress =
     (if \<not> update_containers options then ret []
      else with_step env (reporter_step progress ''Checking Docker and Compose image pins'' True)
        (update_container_image_versions env (dry_run options) None))"

definition update_dependencies ::
    "updater_env \<Rightarrow> update_options option \<Rightarrow> progress_reporter option \<Rightarrow> update_summary updater" where
  "update_dependencies env options progress =
     (let update_options = (case options of Some os \<Rightarrow> os | None \<Rightarrow> default_options);
          reporter = (case progress of Some r \<Rightarrow> r | None \<Rightarrow> \<lparr>reporter_enabled = False\<rparr>)
      in bind_p (if upgrade_lock update_options \<and> \<not> dry_run update_options
            then with_step env (reporter_step reporter ''Updating uv.lock'' False)
              (run_command env [''uv'', ''lock'', ''--upgrade'']) else ret ()) (\<lambda>_.
         bind_p (update_pyproject_dependencies env update_options reporter) (\<lambda>dependency_updates.
         bind_p (update_github_actions env update_options reporter) (\<lambda>action_updates.
         bind_p (update_container_images env update_options reporter) (\<lambda>container_updates.
         bind_p (if dependency_updates \<noteq> [] \<and> \<not> dry_run update_options
            then with_step env (reporter_step reporter ''Refreshing uv.lock'' False)
              (run_command env [''uv'', ''lock'']) else ret ()) (\<lambda>_.
         ret \<lparr>dependency_updates = dependency_updates, action_updates = action_updates,
              container_updates = container_updates\<rparr>))))))"

section \<open>The command line\<close>

text \<open>The flags \<open>argparse\<close> read, \<open>--repo-root\<close> apart: paths are relative to it.\<close>

record cli_args =
  arg_dry_run :: bool
  arg_skip_lock_upgrade :: bool
  arg_skip_pyproject :: bool
  arg_skip_actions :: bool
  arg_skip_containers :: bool
  arg_quiet :: bool

text \<open>\<open>str(repo_root / path)\<close>: the root ''.'' is not written, and the roots ''/'' and ''//'' end in their slash.\<close>

definition path_text :: "string \<Rightarrow> path \<Rightarrow> string" where
  "path_text root p =
     (if root = ''.'' then [] else if root = ''/'' \<or> root = ''//'' then root else root @ ''/'') @ str_join ''/'' p"

definition dependency_line :: "string \<Rightarrow> dependency_update \<Rightarrow> string" where
  "dependency_line prefix u =
     prefix @ '' dependency '' @ old_requirement u @ '' -> '' @ new_requirement u"

definition action_line :: "string \<Rightarrow> string \<Rightarrow> action_update \<Rightarrow> string" where
  "action_line root prefix u =
     prefix @ '' action '' @ path_text root (au_file_path u) @ '': '' @ au_repository u @ ''@'' @
     au_old_ref u @ '' -> '' @ au_repository u @ ''@'' @ au_new_ref u"

definition container_line :: "string \<Rightarrow> string \<Rightarrow> container_image_update \<Rightarrow> string" where
  "container_line root prefix u =
     prefix @ '' image '' @ path_text root (cu_file_path u) @ '': '' @ cu_old_ref u @ '' -> '' @ cu_new_ref u"

definition print_summary :: "string \<Rightarrow> update_summary \<Rightarrow> bool \<Rightarrow> unit updater" where
  "print_summary root summary dry =
     (let prefix = (if dry then ''Would update'' else ''Updated'')
      in if dependency_updates summary = [] \<and> action_updates summary = [] \<and> container_updates summary = []
         then write_line ''No dependency updates found.''
         else bind_p (for_each (dependency_updates summary) (\<lambda>u. write_line (dependency_line prefix u))) (\<lambda>_.
              bind_p (for_each (action_updates summary) (\<lambda>u. write_line (action_line root prefix u))) (\<lambda>_.
              bind_p (for_each (container_updates summary) (\<lambda>u. write_line (container_line root prefix u))) (\<lambda>_.
                ret ()))))"

definition cli_options :: "cli_args \<Rightarrow> update_options" where
  "cli_options args = \<lparr>dry_run = arg_dry_run args, upgrade_lock = \<not> arg_skip_lock_upgrade args,
     update_pyproject = \<not> arg_skip_pyproject args, update_actions = \<not> arg_skip_actions args,
     update_containers = \<not> arg_skip_containers args\<rparr>"

definition main :: "updater_env \<Rightarrow> string \<Rightarrow> cli_args \<Rightarrow> nat updater" where
  "main env root args =
     bind_p (update_dependencies env (Some (cli_options args))
       (Some \<lparr>reporter_enabled = \<not> arg_quiet args\<rparr>)) (\<lambda>summary.
     bind_p (print_summary root summary (arg_dry_run args)) (\<lambda>_. ret 0))"

end
