(* ===== verification/Command_Line.thy ===== *)
theory Command_Line
  imports Updater_Run
begin

text \<open>
  The command line of the updater (cli.py, __main__.py): what \<open>argparse\<close> of Python 3.14
  makes of the arguments for the options the parser declares, and the run with the parsed
  options. A leading \<open>--\<close> with an unambiguous prefix names an option, \<open>--name=value\<close> gives
  its value, and a usage error exits with status 2; the usage and help texts are left out.
\<close>

section \<open>Paths\<close>

text \<open>\<open>str(Path(s))\<close> on POSIX: empty and \<open>.\<close> parts are dropped; exactly two leading slashes stay.\<close>

definition path_str :: "string \<Rightarrow> string" where
  "path_str s =
     (let parts = filter (\<lambda>p. p \<noteq> [] \<and> p \<noteq> ''.'') (split_on (CHR ''/'') s);
          root = (if \<not> startswith s ''/'' then []
                  else if startswith s ''//'' \<and> \<not> startswith s ''///'' then ''//'' else ''/'');
          text = root @ str_join ''/'' parts
      in if text = [] then ''.'' else text)"

section \<open>Arguments\<close>

datatype cli_option =
    Help | Repo_Root | Dry_Run | Skip_Lock_Upgrade | Skip_Pyproject | Skip_Actions | Skip_Containers | Quiet

definition option_string_actions :: "(string \<times> cli_option) list" where
  "option_string_actions =
     [(''-h'', Help), (''--help'', Help), (''--repo-root'', Repo_Root), (''--dry-run'', Dry_Run),
      (''--skip-lock-upgrade'', Skip_Lock_Upgrade), (''--skip-pyproject'', Skip_Pyproject),
      (''--skip-actions'', Skip_Actions), (''--skip-containers'', Skip_Containers), (''--quiet'', Quiet)]"

text \<open>
  How an argument is read: as a positional one, as an unknown option, or as the options it
  may stand for, with a value given behind an equals sign. A cluster of short options is
  one of \<open>-h\<close> and the characters behind it.
\<close>

datatype argument =
    Positional
  | Unknown_Option
  | Options "cli_option list" "string option"
  | Help_Cluster string

definition looks_like_negative_number :: "string \<Rightarrow> bool" where
  "looks_like_negative_number s =
     (case s of
        CHR ''-'' # c # rest \<Rightarrow>
          is_decimal c \<or> c = CHR ''.'' \<and> rest \<noteq> [] \<and> is_decimal (hd rest)
      | _ \<Rightarrow> False)"

definition parse_optional :: "string \<Rightarrow> argument" where
  "parse_optional arg_string =
     (if \<not> startswith arg_string ''-'' then Positional
      else case map_of option_string_actions arg_string of
        Some action \<Rightarrow> Options [action] None
      | None \<Rightarrow>
          if length arg_string = 1 then Positional
          else (case partition_at (CHR ''='') arg_string of (option_string, sep, explicit_arg) \<Rightarrow>
            let explicit = (if sep then Some explicit_arg else None)
            in case (if sep then map_of option_string_actions option_string else None) of
                 Some action \<Rightarrow> Options [action] explicit
               | None \<Rightarrow>
                   let option_tuples = (if startswith arg_string ''--''
                     then map snd (filter (\<lambda>(name, action). startswith name option_string) option_string_actions)
                     else [])
                   in if option_tuples \<noteq> [] then Options option_tuples explicit
                      else if startswith arg_string ''-h'' then Help_Cluster (drop 2 arg_string)
                      else if looks_like_negative_number arg_string \<or> CHR '' '' \<in> set arg_string then Positional
                      else Unknown_Option))"

text \<open>The status a cluster behind \<open>-h\<close> ends with: help is printed unless the cluster is ill-formed.\<close>

fun help_cluster :: "string \<Rightarrow> nat" where
  "help_cluster [] = 0"
| "help_cluster (c # cs) =
     (if c = CHR ''-'' then 2
      else if c = CHR ''h'' then (if startswith cs ''='' then 2 else help_cluster cs)
      else 0)"

fun set_flag :: "cli_option \<Rightarrow> cli_args \<Rightarrow> cli_args" where
  "set_flag Dry_Run args = args\<lparr>arg_dry_run := True\<rparr>"
| "set_flag Skip_Lock_Upgrade args = args\<lparr>arg_skip_lock_upgrade := True\<rparr>"
| "set_flag Skip_Pyproject args = args\<lparr>arg_skip_pyproject := True\<rparr>"
| "set_flag Skip_Actions args = args\<lparr>arg_skip_actions := True\<rparr>"
| "set_flag Skip_Containers args = args\<lparr>arg_skip_containers := True\<rparr>"
| "set_flag Quiet args = args\<lparr>arg_quiet := True\<rparr>"
| "set_flag _ args = args"

definition no_flags :: cli_args where
  "no_flags = \<lparr>arg_dry_run = False, arg_skip_lock_upgrade = False, arg_skip_pyproject = False,
     arg_skip_actions = False, arg_skip_containers = False, arg_quiet = False\<rparr>"

datatype parse_result = Parsed string cli_args | Exits nat

text \<open>
  The pass over the arguments; \<open>extras\<close> says that some argument was not recognized, which
  is reported at the end. Behind \<open>--\<close> everything is positional, and the parser has no
  positional arguments.
\<close>

fun parse_known :: "bool \<Rightarrow> string \<Rightarrow> cli_args \<Rightarrow> string list \<Rightarrow> parse_result" where
  "parse_known extras root args [] = (if extras then Exits 2 else Parsed root args)"
| "parse_known extras root args (a # rest) =
     (if a = ''--'' then Exits 2
      else case parse_optional a of
        Positional \<Rightarrow> parse_known True root args rest
      | Unknown_Option \<Rightarrow> parse_known True root args rest
      | Help_Cluster s \<Rightarrow> Exits (help_cluster s)
      | Options [Help] None \<Rightarrow> Exits 0
      | Options [Repo_Root] (Some value) \<Rightarrow> parse_known extras (path_str value) args rest
      | Options [Repo_Root] None \<Rightarrow>
          (case rest of
             [] \<Rightarrow> Exits 2
           | value # rest' \<Rightarrow>
               if value \<noteq> ''--'' \<and> parse_optional value = Positional
               then parse_known extras (path_str value) args rest'
               else Exits 2)
      | Options [flag] None \<Rightarrow> parse_known extras root (set_flag flag args) rest
      | Options _ _ \<Rightarrow> Exits 2)"

definition parse_args :: "string \<Rightarrow> string list \<Rightarrow> parse_result" where
  "parse_args cwd argv = parse_known False cwd no_flags argv"

text \<open>The process: \<open>sys.exit(main())\<close>. The world holds the files below the root that was parsed.\<close>

definition cli_main :: "updater_env \<Rightarrow> string \<Rightarrow> string list \<Rightarrow> nat updater" where
  "cli_main env cwd argv =
     (case parse_args cwd argv of
        Exits status \<Rightarrow> ret status
      | Parsed root args \<Rightarrow> main env root args)"

section \<open>Lemmas\<close>

text \<open>The exact name of an option is read as that option.\<close>

lemma parse_optional_exact:
  "map_of option_string_actions a = Some action \<Longrightarrow> parse_optional a = Options [action] None"
proof -
  assume a: "map_of option_string_actions a = Some action"
  have "list_all (\<lambda>(name, _). startswith name ''-'') option_string_actions" by code_simp
  with map_of_SomeD [OF a] have "startswith a ''-''" by (fastforce simp: list_all_iff)
  with a show ?thesis by (simp add: parse_optional_def)
qed

lemma set_flag_dry [simp]: "arg_dry_run (set_flag flag args) = (flag = Dry_Run \<or> arg_dry_run args)"
  by (cases flag) simp_all

lemma dry_run_option: "parse_optional ''--dry-run'' = Options [Dry_Run] None"
  by (rule parse_optional_exact) (simp add: option_string_actions_def)

text \<open>One step of the pass: either it ends, or it goes on behind one or two arguments.\<close>

lemma parse_known_step:
  assumes "parse_known extras root args (a # rest) = Parsed root' args'"
  shows "(\<exists>flag ex r. parse_known ex r (set_flag flag args) rest = Parsed root' args' \<and> parse_optional a = Options [flag] None)
    \<or> (\<exists>ex r. parse_known ex r args rest = Parsed root' args' \<and> parse_optional a \<noteq> Options [Dry_Run] None)
    \<or> (\<exists>v rest' r. rest = v # rest' \<and> parse_known extras r args rest' = Parsed root' args'
         \<and> parse_optional v = Positional \<and> parse_optional a \<noteq> Options [Dry_Run] None)"
proof (cases "parse_optional a")
  case (Options fs ex)
  from assms have a: "a \<noteq> ''--''" by auto
  show ?thesis
  proof (cases fs)
    case Nil
    with assms Options a show ?thesis by simp
  next
    case (Cons f gs)
    have one: "gs = []" using assms Options Cons a by (cases gs; cases f; cases ex) simp_all
    show ?thesis
    proof (cases "f = Repo_Root")
      case root: True
      show ?thesis
      proof (cases ex)
        case (Some v)
        with assms Options Cons one root a show ?thesis by auto
      next
        case None
        with assms Options Cons one root a show ?thesis by (cases rest) (auto split: if_splits)
      qed
    next
      case False
      with assms Options Cons one a have "ex = None" "f \<noteq> Help"
        "parse_known extras root (set_flag f args) rest = Parsed root' args'"
        by (cases f; cases ex; simp)+
      with Options Cons one show ?thesis by blast
    qed
  qed
qed (use assms in \<open>auto split: if_splits\<close>)

lemma parse_known_dry:
  "parse_known extras root args argv = Parsed root' args' \<Longrightarrow>
     ''--dry-run'' \<in> set argv \<or> arg_dry_run args \<Longrightarrow> arg_dry_run args'"
proof (induction "length argv" arbitrary: extras root args argv rule: less_induct)
  case less
  show ?case
  proof (cases argv)
    case Nil
    with less.prems show ?thesis by (auto split: if_splits)
  next
    case (Cons a rest)
    from parse_known_step [OF less.prems(1) [unfolded Cons]] show ?thesis
    proof (elim disjE exE conjE)
      fix flag ex r
      assume p: "parse_known ex r (set_flag flag args) rest = Parsed root' args'" and a: "parse_optional a = Options [flag] None"
      have "''--dry-run'' \<in> set rest \<or> arg_dry_run (set_flag flag args)"
        using less.prems(2) a dry_run_option by (auto simp: Cons)
      with p less.hyps [of rest] show ?thesis by (simp add: Cons)
    next
      fix ex r
      assume p: "parse_known ex r args rest = Parsed root' args'" and a: "parse_optional a \<noteq> Options [Dry_Run] None"
      have "''--dry-run'' \<in> set rest \<or> arg_dry_run args"
        using less.prems(2) a dry_run_option by (auto simp: Cons)
      with p less.hyps [of rest] show ?thesis by (simp add: Cons)
    next
      fix v rest' r
      assume rest: "rest = v # rest'" and p: "parse_known extras r args rest' = Parsed root' args'"
        and v: "parse_optional v = Positional" and a: "parse_optional a \<noteq> Options [Dry_Run] None"
      have "''--dry-run'' \<in> set rest' \<or> arg_dry_run args"
        using less.prems(2) a v dry_run_option by (auto simp: Cons rest)
      with p less.hyps [of rest'] show ?thesis by (simp add: Cons rest)
    qed
  qed
qed

text \<open>A command line of flags alone sets the flags it names, in whatever order.\<close>

lemma parse_flags:
  assumes "list_all (\<lambda>a. case map_of option_string_actions a of None \<Rightarrow> False | Some f \<Rightarrow> f \<noteq> Help \<and> f \<noteq> Repo_Root) argv"
  shows "parse_known extras root args argv =
    (if extras then Exits 2
     else Parsed root (fold set_flag (List.map_filter (map_of option_string_actions) argv) args))"
  using assms
proof (induction argv arbitrary: args)
  case (Cons a argv)
  then obtain f where f: "map_of option_string_actions a = Some f" "f \<noteq> Help" "f \<noteq> Repo_Root"
    by (auto split: option.splits)
  from f(1) have "a \<noteq> ''--''" by (auto simp: option_string_actions_def)
  with f Cons parse_optional_exact [OF f(1)] show ?case
    by (cases f) (simp_all add: List.map_filter_def)
qed (simp add: List.map_filter_def)

end
