(* ===== verification/Container_Properties.thy ===== *)
theory Container_Properties
  imports Container_Images
begin

text \<open>
  What makes the update of container images correct: the chosen tag is the best of the
  listed ones and fits the pin, references are replaced only where they stand alone, and
  a reference whose tag was replaced parses to the same repository.
\<close>

section \<open>The best tag\<close>

definition rank_at_most :: "rank \<Rightarrow> string \<Rightarrow> bool" where
  "rank_at_most r tag = (case container_tag_rank tag of Inr (Some r') \<Rightarrow> r' \<le> r | Inr None \<Rightarrow> True | Inl _ \<Rightarrow> False)"

lemma best_ranked_from_best:
  assumes "best_ranked_from best tags = Inr (Some t)"
    and "\<And>b r. best = Some (b, r) \<Longrightarrow> container_tag_rank b = Inr (Some r)"
  shows "\<exists>r. container_tag_rank t = Inr (Some r) \<and> (t \<in> set tags \<or> best = Some (t, r))
    \<and> list_all (rank_at_most r) tags \<and> (case best of None \<Rightarrow> True | Some (_, r') \<Rightarrow> r' \<le> r)"
  using assms
proof (induction tags arbitrary: best)
  case Nil
  then show ?case by auto
next
  case (Cons tag tags)
  then obtain rk where rk: "container_tag_rank tag = Inr rk" by auto
  show ?case
  proof (cases rk)
    case None
    with Cons rk have "best_ranked_from best tags = Inr (Some t)" by simp
    from Cons.IH [OF this Cons.prems(2)] rk None show ?thesis by (auto simp: rank_at_most_def)
  next
    case (Some r)
    define best' where "best' = (case best of None \<Rightarrow> Some (tag, r)
      | Some (best_tag, best_rank) \<Rightarrow> if r > best_rank then Some (tag, r) else best)"
    have "best_ranked_from best' tags = Inr (Some t)"
      using Cons.prems(1) rk Some by (simp add: best'_def)
    moreover have "\<And>b r. best' = Some (b, r) \<Longrightarrow> container_tag_rank b = Inr (Some r)"
      using Cons.prems(2) rk Some by (auto simp: best'_def split: option.splits if_splits)
    ultimately obtain q where q: "container_tag_rank t = Inr (Some q)"
      "t \<in> set tags \<or> best' = Some (t, q)" "list_all (rank_at_most q) tags"
      "case best' of None \<Rightarrow> True | Some (_, r') \<Rightarrow> r' \<le> q"
      using Cons.IH by blast
    have tag: "rank_at_most q' tag = (r \<le> q')" for q' using rk Some by (simp add: rank_at_most_def)
    show ?thesis
    proof (cases best)
      case None
      then show ?thesis using q tag rk Some by (auto simp: best'_def)
    next
      case (Some p)
      then obtain b r' where p: "best = Some (b, r')" by (cases p) auto
      show ?thesis
      proof (cases "r > r'")
        case True
        then have "best' = Some (tag, r)" using p by (simp add: best'_def)
        with q tag p True show ?thesis by (auto simp del: less_eq_prod_simp less_prod_simp)
      next
        case False
        then have "best' = best" using p by (simp add: best'_def)
        with q tag p False show ?thesis by (auto simp del: less_eq_prod_simp less_prod_simp)
      qed
    qed
  qed
qed

lemma best_ranked_none:
  "best_ranked_from best tags = Inr None \<Longrightarrow>
     best = None \<and> list_all (\<lambda>t. container_tag_rank t = Inr None) tags"
proof (induction tags arbitrary: best)
  case (Cons tag tags)
  then obtain rk where rk: "container_tag_rank tag = Inr rk" by auto
  show ?case
  proof (cases rk)
    case None
    with Cons rk show ?thesis by simp
  next
    case (Some r)
    define best' where "best' = (case best of None \<Rightarrow> Some (tag, r)
      | Some (best_tag, best_rank) \<Rightarrow> if r > best_rank then Some (tag, r) else best)"
    have "best_ranked_from best' tags = Inr None"
      using Cons.prems rk Some by (simp add: best'_def)
    then have "best' = None" using Cons.IH by blast
    then show ?thesis by (auto simp: best'_def split: option.splits if_splits)
  qed
qed simp

lemma filter_outcome_filter:
  "filter_outcome p xs = Inr ys \<Longrightarrow> ys = filter (\<lambda>x. p x = Inr True) xs"
  by (induction xs arbitrary: ys) auto

text \<open>
  The reference definition of a tag that may replace a pinned one: both carry a version, with
  the same text before and after it, and the versions agree in their first two numbers for a Python
  image whose pin has two, and in the first number for any other image.
\<close>

definition kept_numbers :: "string \<Rightarrow> string \<Rightarrow> int list \<Rightarrow> nat" where
  "kept_numbers repository current_tag version =
     (if (is_python_runtime_repository repository \<or> startswith current_tag ''python'') \<and> 2 \<le> length version
      then 2 else min 1 (length version))"

definition same_variant :: "string \<Rightarrow> string \<Rightarrow> string \<Rightarrow> bool" where
  "same_variant repository current_tag tag =
     (case (container_tag_version_of current_tag, container_tag_version_of tag) of
        (Inr (Some c), Inr (Some v)) \<Rightarrow>
          tv_prefix v = tv_prefix c \<and> tv_suffix v = tv_suffix c
          \<and> take (kept_numbers repository current_tag (tv_version c)) (tv_version v)
            = take (kept_numbers repository current_tag (tv_version c)) (tv_version c)
      | _ \<Rightarrow> False)"

lemma required_prefix_kept:
  "required_container_version_prefix repository tag v = take (kept_numbers repository tag v) v"
  by (cases v) (auto simp: required_container_version_prefix_def kept_numbers_def python_version_prefix_length_def)

lemma matches_variant_iff:
  assumes "container_tag_version_of current_tag = Inr (Some c)"
  shows "matches_container_tag_variant tag c
      (required_container_version_prefix repository current_tag (tv_version c)) = Inr True
    \<longleftrightarrow> same_variant repository current_tag tag"
proof -
  have k: "length (take (kept_numbers repository current_tag v) v) = kept_numbers repository current_tag v" for v
    by (auto simp: kept_numbers_def)
  show ?thesis
    by (auto simp: matches_container_tag_variant_def same_variant_def assms required_prefix_kept k
        simp del: length_take split: sum.splits option.splits)
qed

lemma same_variant_refl:
  assumes "container_tag_version_of tag = Inr (Some c)"
  shows "same_variant repository tag tag"
  using assms by (simp add: same_variant_def)

lemma best_same_variant_sound:
  assumes "best_same_variant_container_tag repository current_tag tags = Inr (Some t)"
  shows "\<exists>r. container_tag_rank t = Inr (Some r) \<and> t \<in> set tags \<and> same_variant repository current_tag t
    \<and> list_all (\<lambda>t'. same_variant repository current_tag t' \<longrightarrow> rank_at_most r t') tags
    \<and> same_variant repository current_tag current_tag"
proof -
  from assms obtain c cands where c: "container_tag_version_of current_tag = Inr (Some c)"
    and filter: "filter_outcome (\<lambda>tag. matches_container_tag_variant tag c
        (required_container_version_prefix repository current_tag (tv_version c))) tags = Inr cands"
    and best: "best_ranked_from None cands = Inr (Some t)"
    by (auto simp: best_same_variant_container_tag_def best_ranked_container_tag_def split: option.splits)
  from filter_outcome_filter [OF filter] c
  have cands: "cands = filter (same_variant repository current_tag) tags"
    by (auto simp: matches_variant_iff [OF c])
  from best_ranked_from_best [OF best] cands same_variant_refl [OF c] show ?thesis
    by (auto simp: list_all_iff)
qed

section \<open>Replacing a reference\<close>

definition free_before :: "string \<Rightarrow> bool" where
  "free_before b = (b = [] \<or> \<not> (is_ref_char (hd b) \<or> hd b = CHR ''.''))"

definition free_after :: "string \<Rightarrow> bool" where
  "free_after t =
     (case t of
        [] \<Rightarrow> True
      | c # u \<Rightarrow> \<not> is_ref_char c \<and>
          \<not> (c = CHR ''.'' \<and> u \<noteq> [] \<and> (is_ascii_alnum (hd u) \<or> hd u = CHR ''_'')))"

text \<open>The reference definition: an occurrence is replaced when it is not a part of a longer
  reference.\<close>

function replace_delimited :: "string \<Rightarrow> string \<Rightarrow> string \<Rightarrow> string \<Rightarrow> string" where
  "replace_delimited old new b [] = []"
| "replace_delimited old new b (x # xs) =
     (if old \<noteq> [] \<and> startswith (x # xs) old \<and> free_before b \<and> free_after (drop (length old) (x # xs))
      then new @ replace_delimited old new (rev old @ b) (drop (length old) (x # xs))
      else x # replace_delimited old new (x # b) xs)"
  by pat_completeness auto
termination
  by (relation "measure (\<lambda>(old, new, b, t). length t)") auto

lemma match_container_ref:
  "match_at (container_ref_pattern old) b t =
     (if startswith t old \<and> free_before b \<and> free_after (drop (length old) t)
      then Some \<lparr>found_text = old, found_groups = [], found_after = drop (length old) t\<rparr> else None)"
proof -
  have ahead: "runs container_ref_trailing_boundary (b', u, cs) = (if free_after u then [(b', u, cs)] else [])"
    for b' u cs
    by (cases u; cases "tl u") (auto simp: container_ref_trailing_boundary_def free_after_def)
  have behind: "runs container_ref_leading_boundary (b, t, []) = (if free_before b then [(b, t, [])] else [])"
    by (auto simp: container_ref_leading_boundary_def free_before_def)
  have "runs (container_ref_pattern old) (b, t, []) =
      (if startswith t old \<and> free_before b \<and> free_after (drop (length old) t)
       then [(rev old @ b, drop (length old) t, [])] else [])"
    by (simp add: container_ref_pattern_def ahead behind runs_lit)
  moreover have "take (length t - length (drop (length old) t)) t = old" if "startswith t old"
    using that by (auto simp: startswith_iff)
  ultimately show ?thesis by (auto simp: match_at_def)
qed

lemma rewrite_container_ref:
  assumes "old \<noteq> []"
  shows "rewrite (\<lambda>_. new) (scan (container_ref_pattern old) b t) = replace_delimited old new b t"
  using assms
proof (induction old new b t rule: replace_delimited.induct)
  case (2 old new b x xs)
  then show ?case
    by (cases "startswith (x # xs) old \<and> free_before b \<and> free_after (drop (length old) (x # xs))")
      (auto simp: match_container_ref)
qed simp

section \<open>Parsing references\<close>

lemma rfind_from_less: "0 \<le> i \<Longrightarrow> rfind_from c i s < i + int (length s) \<and> - 1 \<le> rfind_from c i s"
proof (induction s arbitrary: i)
  case (Cons x s)
  from Cons.IH [of "i + 1"] Cons.prems show ?case by (auto simp: Let_def)
qed simp

lemma rfind_from_absent: "c \<notin> set s \<Longrightarrow> rfind_from c i s = - 1"
  by (induction s arbitrary: i) auto

lemma rfind_from_append: "c \<notin> set t \<Longrightarrow> rfind_from c i (s @ t) = rfind_from c i s"
  by (induction s arbitrary: i) (auto simp: rfind_from_absent)

lemma rfind_append: "c \<notin> set t \<Longrightarrow> rfind (s @ t) c = rfind s c"
  by (simp add: rfind_def rfind_from_append)

lemma rfind_bounds: "rfind s c < int (length s)" "- 1 \<le> rfind s c"
  using rfind_from_less [of 0 c s] by (auto simp: rfind_def)

lemma rfind_from_last: "0 \<le> i \<Longrightarrow> rfind_from c i (s @ [c]) = i + int (length s)"
proof (induction s arbitrary: i)
  case (Cons x s)
  then have "rfind_from c (i + 1) (s @ [c]) = i + 1 + int (length s)" by simp
  with Cons.prems show ?case by (simp add: Let_def)
qed simp

lemma rfind_last: "c \<notin> set t \<Longrightarrow> rfind (s @ c # t) c = int (length s)"
  using rfind_append [of c t "s @ [c]"] rfind_from_last [of 0 c s] by (simp add: rfind_def)

lemma rfind_from_nth: "rfind_from c i s = j \<Longrightarrow> j \<noteq> - 1 \<Longrightarrow> 0 \<le> i \<Longrightarrow> i \<le> j \<and> s ! nat (j - i) = c"
proof (induction s arbitrary: i)
  case (Cons x s)
  show ?case
  proof (cases "rfind_from c (i + 1) s = - 1")
    case True
    with Cons.prems show ?thesis by (auto simp: Let_def split: if_splits)
  next
    case False
    with Cons.prems have "rfind_from c (i + 1) s = j" by (simp add: Let_def)
    with Cons have "i + 1 \<le> j \<and> s ! nat (j - (i + 1)) = c" by simp
    moreover from this have "nat (j - i) = Suc (nat (j - (i + 1)))" by auto
    ultimately show ?thesis by simp
  qed
qed simp

lemma rfind_split:
  assumes "0 \<le> rfind s c"
  shows "s = take (nat (rfind s c)) s @ c # drop (nat (rfind s c + 1)) s"
proof -
  let ?n = "nat (rfind s c)"
  have "?n < length s" using rfind_bounds(1) [of s c] assms by linarith
  moreover have "s ! ?n = c"
    using rfind_from_nth [of c 0 s "rfind s c"] assms by (simp add: rfind_def)
  ultimately show ?thesis
    using id_take_nth_drop [of ?n s] assms by (simp add: nat_add_distrib)
qed

definition tag_text :: "string \<Rightarrow> bool" where
  [str_simps]: "tag_text t = (t \<noteq> [] \<and> CHR ''/'' \<notin> set t \<and> CHR '':'' \<notin> set t \<and> CHR ''@'' \<notin> set t)"

lemma parse_image_cases:
  assumes "parse_container_image_ref ref = Some i" and "ci_digest i = None"
  shows "CHR ''@'' \<notin> set ref" and "\<not> startswith ref ''${''" and "ci_repository i \<noteq> []"
    and "case ci_tag i of
           Some t \<Rightarrow> ref = ci_repository i @ '':'' @ t \<and> t \<noteq> []
         | None \<Rightarrow> ref = ci_repository i \<or> ref = ci_repository i @ '':''"
proof -
  obtain a sep d where part: "partition_at (CHR ''@'') ref = (a, sep, d)" by (rule prod_cases3)
  with assms have "\<not> sep" by (auto simp: parse_container_image_ref_def Let_def split: if_splits)
  with part have at: "CHR ''@'' \<notin> set ref" and a: "a = ref"
    using partition_at_rejoin [OF part] by (auto simp: partition_at_def)
  show "CHR ''@'' \<notin> set ref" by (rule at)
  show "\<not> startswith ref ''${''" and "ci_repository i \<noteq> []"
    using assms by (auto simp: parse_container_image_ref_def Let_def split: if_splits prod.splits)
  show "case ci_tag i of
           Some t \<Rightarrow> ref = ci_repository i @ '':'' @ t \<and> t \<noteq> []
         | None \<Rightarrow> ref = ci_repository i \<or> ref = ci_repository i @ '':''"
  proof (cases "rfind ref (CHR '':'') > rfind ref (CHR ''/'')")
    case True
    then have "0 \<le> rfind ref (CHR '':'')" using rfind_bounds(2) [of ref "CHR ''/''"] by simp
    from rfind_split [OF this] True assms part a show ?thesis
      by (auto simp: parse_container_image_ref_def Let_def split: if_splits)
  next
    case False
    with assms part a show ?thesis
      by (auto simp: parse_container_image_ref_def Let_def split: if_splits)
  qed
qed

lemma parse_image_with_tag:
  assumes "repo \<noteq> []" and "CHR ''@'' \<notin> set repo" and "\<not> startswith repo ''${''" and "tag_text t"
  shows "parse_container_image_ref (repo @ '':'' @ t)
    = Some \<lparr>ci_repository = repo, ci_tag = Some t, ci_digest = None\<rparr>"
proof -
  have t: "t \<noteq> []" "CHR ''/'' \<notin> set ('':'' @ t)" "CHR '':'' \<notin> set t" "CHR ''@'' \<notin> set (repo @ '':'' @ t)"
    using assms by (auto simp: tag_text_def)
  have "rfind (repo @ '':'' @ t) (CHR '':'') = int (length repo)"
    using rfind_last [OF t(3), of repo] by simp
  moreover have "rfind (repo @ '':'' @ t) (CHR ''/'') < int (length repo)"
    using rfind_append [OF t(2), of repo] rfind_bounds(1) by metis
  moreover have "\<not> startswith (repo @ '':'' @ t) ''${''"
    using assms(1,3) by (cases repo; cases "tl repo") (auto simp: startswith_def)
  ultimately show ?thesis
    using partition_at_none [OF t(4)] t(1) assms(1)
    by (simp add: parse_container_image_ref_def Let_def nat_add_distrib)
qed

section \<open>Properties\<close>

text \<open>
  The best ranked tag is one of the listed tags, and no listed tag has a higher rank.
\<close>

theorem best_ranked_is_best:
  assumes "best_ranked_container_tag tags = Inr (Some t)"
  shows "\<exists>r. container_tag_rank t = Inr (Some r) \<and> t \<in> set tags \<and> list_all (rank_at_most r) tags"
  using best_ranked_from_best [of None tags t] assms by (simp add: best_ranked_container_tag_def)

lemma best_ranked_is_best_witness:
  "\<exists>r. container_tag_rank ''8.6.2'' = Inr (Some r)
     \<and> list_all (rank_at_most r) [''32bit-buster'', ''8.6.2-trixie'', ''8.6.2'']"
proof -
  have "best_ranked_container_tag [''32bit-buster'', ''8.6.2-trixie'', ''8.6.2''] = Inr (Some ''8.6.2'')"
    by code_simp
  from best_ranked_is_best [OF this] show ?thesis by blast
qed

text \<open>
  C31. The tag that replaces a pinned one is a listed tag other than the pinned one: either
  of its variant (same text around the version, same leading numbers) and then at least
  as high as the pinned tag when that is listed, or one that ends with the pinned tag.
\<close>

theorem best_compatible_fits_pin:
  assumes "best_compatible_container_tag repository current_tag tags = Inr (Some t)"
  shows "t \<in> set tags \<and> t \<noteq> current_tag
    \<and> ((same_variant repository current_tag t
         \<and> (\<exists>r. container_tag_rank t = Inr (Some r) \<and> (current_tag \<in> set tags \<longrightarrow> rank_at_most r current_tag)))
       \<or> endswith t (''-'' @ current_tag))"
proof -
  from assms obtain vm where vm: "best_same_variant_container_tag repository current_tag tags = Inr vm"
    by (auto simp: best_compatible_container_tag_def)
  show ?thesis
  proof (cases "vm \<noteq> None \<and> vm \<noteq> Some current_tag")
    case True
    with assms vm have "vm = Some t" by (auto simp: best_compatible_container_tag_def)
    with vm True best_same_variant_sound [of repository current_tag tags t] show ?thesis
      by (auto simp: list_all_iff)
  next
    case False
    with assms vm obtain "best_pinned_floating_container_tag current_tag tags = Inr (Some t)"
      and "t \<noteq> current_tag"
      by (auto simp: best_compatible_container_tag_def split: if_splits)
    then show ?thesis
      using best_ranked_from_best [of None "filter (\<lambda>tag. endswith tag (''-'' @ current_tag)) tags" t]
      by (auto simp: best_pinned_floating_container_tag_def best_ranked_container_tag_def)
  qed
qed

lemma best_compatible_fits_pin_witness:
  "same_variant ''python'' ''3.14-slim'' ''3.14.4-slim'' \<or> endswith ''3.14.4-slim'' ''-3.14-slim''"
proof -
  have "best_compatible_container_tag ''python'' ''3.14-slim''
      [''3.14-slim'', ''3.14.4-slim'', ''3.15.1-slim''] = Inr (Some ''3.14.4-slim'')" by code_simp
  from best_compatible_fits_pin [OF this] show ?thesis by auto
qed

text \<open>
  C32. The substitution replaces exactly the occurrences of the reference that are not part
  of a longer reference: it is the reference definition that reads the text once from the
  left and tests both neighbours of an occurrence.
\<close>

theorem replace_ref_is_delimited:
  assumes "old_ref \<noteq> []" and "backslash \<notin> set new_ref"
  shows "replace_container_ref_in_text text old_ref new_ref
    = Inr (replace_delimited old_ref new_ref [] text, replace_delimited old_ref new_ref [] text \<noteq> text)"
proof -
  have "expand_template [] (map Lit new_ref) = (\<lambda>_. new_ref)" by (rule ext) simp
  with parse_template_plain [OF assms(2)] rewrite_container_ref [OF assms(1)] show ?thesis
    by (simp add: replace_container_ref_in_text_def re_sub_def scan_text_def Let_def)
qed

lemma replace_ref_is_delimited_witness:
  "replace_container_ref_in_text ''redis:7, redis:7-alpine.'' ''redis:7'' ''redis:8''
   = Inr (''redis:8, redis:7-alpine.'', True)"
proof -
  have "replace_delimited ''redis:7'' ''redis:8'' [] ''redis:7, redis:7-alpine.''
      = ''redis:8, redis:7-alpine.''" by code_simp
  then show ?thesis
    using replace_ref_is_delimited [of "''redis:7''" "''redis:8''" "''redis:7, redis:7-alpine.''"]
    by (simp add: backslash_def)
qed

text \<open>
  C33. A reference with a new tag parses to the same repository, with that tag and no
  digest; and printing a tagged reference gives back the text it was parsed from.
\<close>

theorem image_ref_roundtrip:
  assumes "parse_container_image_ref ref = Some img" and "ci_digest img = None" and "tag_text tag"
  shows "parse_container_image_ref (container_image_ref_with_tag img tag) = Some (img\<lparr>ci_tag := Some tag\<rparr>)
    \<and> (case ci_tag img of
         Some old \<Rightarrow> container_image_ref_with_tag img old = ref
       | None \<Rightarrow> ref = ci_repository img \<or> ref = ci_repository img @ '':'')"
proof -
  note parts = parse_image_cases [OF assms(1,2)]
  from parts(4) obtain z where ref: "ref = ci_repository img @ z"
    by (cases "ci_tag img") auto
  then have "CHR ''@'' \<notin> set (ci_repository img)" and "\<not> startswith (ci_repository img) ''${''"
    using parts(1,2) by (auto simp: startswith_iff)
  from parse_image_with_tag [OF parts(3) this assms(3)] parts(4) assms(2) show ?thesis
    by (cases img) (auto simp: container_image_ref_with_tag_def split: option.splits)
qed

lemma image_ref_roundtrip_witness:
  "parse_container_image_ref ''ghcr.io/astral-sh/uv:0.12.0''
   = Some \<lparr>ci_repository = ''ghcr.io/astral-sh/uv'', ci_tag = Some ''0.12.0'', ci_digest = None\<rparr>"
proof -
  let ?img = "\<lparr>ci_repository = ''ghcr.io/astral-sh/uv'', ci_tag = Some ''0.11.8'', ci_digest = None\<rparr>"
  have "parse_container_image_ref ''ghcr.io/astral-sh/uv:0.11.8'' = Some ?img" by code_simp
  from image_ref_roundtrip [OF this, of "''0.12.0''"] show ?thesis
    by (simp add: tag_text_def container_image_ref_with_tag_def)
qed

text \<open>
  C34. An image that is used both without a tag and with one stops the update: sorting the
  pairs of repository and tag compares None with a string, so the run ends with TypeError
  before any tag is looked up or any file is written.
\<close>

theorem mixed_pins_raise_type_error:
  assumes "container_image_references w = (Inr references, w)"
    and "(ref1, img1) \<in> set (remote_container_images references)"
    and "(ref2, img2) \<in> set (remote_container_images references)"
    and "ci_repository img1 = ci_repository img2"
    and "ci_tag img1 = None" and "ci_tag img2 \<noteq> None"
  shows "update_container_image_versions env dry resolver w = (Inl Type_Error, w)"
proof -
  let ?keys = "map (\<lambda>i. (ci_repository i, ci_tag i)) (map snd (remote_container_images references))"
  from assms(2,5) have untagged: "(ci_repository img1, None) \<in> set ?keys" by force
  from assms(3,4) have tagged: "(ci_repository img1, ci_tag img2) \<in> set ?keys" by force
  have "list_ex (\<lambda>(r', t'). r' = ci_repository img1 \<and> t' \<noteq> None) ?keys"
    unfolding list_ex_iff using assms(6) by (intro bexI [OF _ tagged]) simp
  then have "list_ex (\<lambda>(r, t). t = None \<and> list_ex (\<lambda>(r', t'). r' = r \<and> t' \<noteq> None) ?keys) ?keys"
    unfolding list_ex_iff [of _ ?keys] by (intro bexI [OF _ untagged]) simp
  then have "container_image_replacements env references f = Inl Type_Error" for f
    by (simp add: container_image_replacements_def resolve_container_tags_def sorted_keys_def Let_def)
  with assms(1) show ?thesis
    by (simp add: update_container_image_versions_def bind_p_def of_result_def Let_def)
qed

definition mixed_pins_world :: updater_world where
  "mixed_pins_world = \<lparr>files = [([''compose.yaml''], ''image: redis''), ([''Dockerfile''], ''FROM redis:7'')],
     commands = [], stdout = []\<rparr>"

definition offline_env :: updater_env where
  "offline_env = \<lparr>urlopen = \<lambda>_ _. Url_Error, netloc_ok = \<lambda>_. True, toml_loads = \<lambda>_. Inr [],
     process = \<lambda>_ fs. (True, fs), isatty = False, extra_frames = \<lambda>_. 0,
     names_completed = \<lambda>ks. ks, images_completed = \<lambda>ks. ks\<rparr>"

lemma mixed_pins_raise_type_error_witness:
  "update_container_image_versions offline_env False None mixed_pins_world = (Inl Type_Error, mixed_pins_world)"
proof -
  let ?refs = "[\<lparr>cr_file_path = [''Dockerfile''], cr_image_ref = ''redis:7''\<rparr>,
    \<lparr>cr_file_path = [''compose.yaml''], cr_image_ref = ''redis''\<rparr>]"
  have "container_image_references mixed_pins_world = (Inr ?refs, mixed_pins_world)" by code_simp
  moreover have "(''redis'', \<lparr>ci_repository = ''redis'', ci_tag = None, ci_digest = None\<rparr>)
      \<in> set (remote_container_images ?refs)" by code_simp
  moreover have "(''redis:7'', \<lparr>ci_repository = ''redis'', ci_tag = Some ''7'', ci_digest = None\<rparr>)
      \<in> set (remote_container_images ?refs)" by code_simp
  ultimately show ?thesis by (rule mixed_pins_raise_type_error) simp_all
qed

section \<open>Choices the ranking makes\<close>

text \<open>When the pinned tag is not among the listed pages, the best listed tag of its variant
  is taken even if it is older.\<close>

lemma unlisted_pin_is_downgraded:
  "best_compatible_container_tag ''ghcr.io/astral-sh/uv'' ''0.11.8'' [''0.10.1'', ''0.9.28'']
   = Inr (Some ''0.10.1'')"
  by code_simp

text \<open>For an image pinned to \<open>latest\<close>, a release candidate of a higher version wins.\<close>

lemma latest_takes_release_candidate:
  "best_ranked_container_tag [''8.6.2'', ''9.0-rc1''] = Inr (Some ''9.0-rc1'')"
  by code_simp

end
