(* ===== verification/Updater_Properties.thy ===== *)
theory Updater_Properties
  imports Command_Line Container_Properties
begin

text \<open>
  What a whole run of the updater guarantees: a dry run touches neither the files nor the
  lock, and plans what the real run does; the commands a run starts; and the results of
  the thread pool, whatever order its workers finish in.
\<close>

section \<open>What an operation leaves alone\<close>

definition keeps :: "(updater_world \<Rightarrow> 'b) \<Rightarrow> 'a updater \<Rightarrow> bool" where
  "keeps f m = (\<forall>w. f (snd (m w)) = f w)"

named_theorems keeps_rules \<open>operations that leave a part of the world alone\<close>

lemma keeps_ret [keeps_rules]: "keeps f (ret x)"
  by (simp add: keeps_def ret_def)

lemma keeps_raise [keeps_rules]: "keeps f (raise e)"
  by (simp add: keeps_def raise_def)

lemma keeps_of_result [keeps_rules]: "keeps f (of_result r)"
  by (simp add: keeps_def of_result_def)

lemma keeps_gets [keeps_rules]: "keeps f (gets g)"
  by (simp add: keeps_def gets_def)

lemma keeps_bind [keeps_rules]: "keeps f m \<Longrightarrow> (\<And>x. keeps f (k x)) \<Longrightarrow> keeps f (bind_p m k)"
  by (auto simp: keeps_def bind_p_def split: prod.splits sum.splits) (metis snd_conv)+

lemma keeps_try [keeps_rules]: "keeps f m \<Longrightarrow> (\<And>e. keeps f (h e)) \<Longrightarrow> keeps f (try_except m h)"
  by (auto simp: keeps_def try_except_def split: prod.splits sum.splits) (metis snd_conv)+

lemma keeps_read_text [keeps_rules]: "keeps f (read_text p)"
  by (simp add: keeps_def read_text_def split: option.splits)

lemma keeps_file_paths [keeps_rules]: "keeps f file_paths"
  by (simp add: file_paths_def keeps_rules)

lemma keeps_write_line [keeps_rules]: "keeps files (write_line s)" "keeps commands (write_line s)"
  by (simp_all add: keeps_def write_line_def modify_def)

lemma keeps_write_out [keeps_rules]: "keeps files (write_out s)" "keeps commands (write_out s)"
  by (simp_all add: keeps_def write_out_def modify_def)

lemma keeps_write_text [keeps_rules]: "keeps commands (write_text p t)"
  by (simp add: keeps_def write_text_def modify_def)

lemma keeps_if [keeps_rules]: "(b \<Longrightarrow> keeps f m) \<Longrightarrow> (\<not> b \<Longrightarrow> keeps f n) \<Longrightarrow> keeps f (if b then m else n)"
  by simp

lemma keeps_case_prod [keeps_rules]: "(\<And>x y. keeps f (g x y)) \<Longrightarrow> keeps f (case p of (x, y) \<Rightarrow> g x y)"
  by (cases p) simp

lemma keeps_for_each [keeps_rules]: "(\<And>x. keeps f (g x)) \<Longrightarrow> keeps f (for_each xs g)"
  by (induction xs) (auto intro!: keeps_rules)

lemma keeps_step_enter [keeps_rules]: "keeps files (step_enter env s)" "keeps commands (step_enter env s)"
  by (auto simp: step_enter_def intro!: keeps_rules)

lemma keeps_step_exit [keeps_rules]: "keeps files (step_exit env s b)" "keeps commands (step_exit env s b)"
  by (auto simp: step_exit_def spin_def intro!: keeps_rules)

lemma keeps_with_step [keeps_rules]:
  "keeps files m \<Longrightarrow> keeps files (with_step env s m)"
  "keeps commands m \<Longrightarrow> keeps commands (with_step env s m)"
  by (auto simp: with_step_def intro!: keeps_rules)

section \<open>The three updaters\<close>

lemma keeps_read_toml [keeps_rules]: "keeps f (read_toml env p)"
  by (auto simp: read_toml_def intro!: keeps_rules)

lemma keeps_sync [keeps_rules]:
  "keeps commands (sync_pyproject_dependency_versions env dry r)"
  "keeps files (sync_pyproject_dependency_versions env True r)"
  by (auto simp: sync_pyproject_dependency_versions_def locked_versions_def Let_def intro!: keeps_rules)

lemma keeps_read_texts [keeps_rules]: "keeps f (read_texts ps)"
  by (induction ps) (auto intro!: keeps_rules)

lemma keeps_update_workflows [keeps_rules]:
  "keeps commands (update_workflows dry a b ts)" "keeps files (update_workflows True a b ts)"
  by (induction ts) (auto intro!: keeps_rules)

lemma keeps_update_github [keeps_rules]:
  "keeps commands (update_github_action_versions env dry r)"
  "keeps files (update_github_action_versions env True r)"
  by (auto simp: update_github_action_versions_def Let_def intro!: keeps_rules)

lemma keeps_references_in [keeps_rules]: "keeps f (references_in ps)"
  by (induction ps) (auto intro!: keeps_rules)

lemma keeps_container_refs [keeps_rules]: "keeps f container_image_references"
  by (auto simp: container_image_references_def intro!: keeps_rules)

lemma keeps_replace [keeps_rules]:
  "keeps commands (replace_container_refs dry rs ps)" "keeps files (replace_container_refs True rs ps)"
  by (induction ps) (auto intro!: keeps_rules)

lemma keeps_update_containers [keeps_rules]:
  "keeps commands (update_container_image_versions env dry r)"
  "keeps files (update_container_image_versions env True r)"
  by (auto simp: update_container_image_versions_def Let_def intro!: keeps_rules)

lemma keeps_steps [keeps_rules]:
  "keeps commands (update_pyproject_dependencies env os pr)"
  "keeps commands (update_github_actions env os pr)"
  "keeps commands (update_container_images env os pr)"
  by (auto simp: update_pyproject_dependencies_def update_github_actions_def update_container_images_def
      intro!: keeps_rules)

lemma keeps_dry_steps [keeps_rules]:
  "dry_run os \<Longrightarrow> keeps files (update_pyproject_dependencies env os pr)"
  "dry_run os \<Longrightarrow> keeps files (update_github_actions env os pr)"
  "dry_run os \<Longrightarrow> keeps files (update_container_images env os pr)"
  by (auto simp: update_pyproject_dependencies_def update_github_actions_def update_container_images_def
      intro!: keeps_rules)

section \<open>A dry run\<close>

lemma keeps_dry_run:
  assumes "dry_run os"
  shows "keeps files (update_dependencies env (Some os) progress)"
    and "keeps commands (update_dependencies env (Some os) progress)"
  using assms by (auto simp: update_dependencies_def Let_def intro!: keeps_rules)

lemma keeps_print_summary [keeps_rules]:
  "keeps files (print_summary root summary dry)" "keeps commands (print_summary root summary dry)"
  by (auto simp: print_summary_def Let_def intro!: keeps_rules)

lemma keeps_main:
  assumes "arg_dry_run args"
  shows "keeps files (main env root args)" and "keeps commands (main env root args)"
  using assms unfolding main_def
  by (auto simp: cli_options_def intro!: keeps_rules keeps_dry_run)

text \<open>
  C36. A dry run changes no file and starts no command: whatever else the command line holds, when
  \<open>--dry-run\<close> is among its arguments, also when it is ill-formed, or when a step raises.
\<close>

theorem dry_run_changes_nothing:
  assumes "''--dry-run'' \<in> set argv"
  shows "files (snd (cli_main env cwd argv w)) = files w
    \<and> commands (snd (cli_main env cwd argv w)) = commands w"
proof (cases "parse_args cwd argv")
  case (Parsed root args)
  with assms have "arg_dry_run args" by (auto simp: parse_args_def dest: parse_known_dry)
  from keeps_main [OF this, of env root] Parsed show ?thesis by (simp add: cli_main_def keeps_def)
qed (simp add: cli_main_def ret_def)

definition two_pins_world :: updater_world where
  "two_pins_world = \<lparr>files = [([''compose.yaml''], ''image: redis''), ([''Dockerfile''], ''FROM redis:7'')],
     commands = [], stdout = []\<rparr>"

lemma dry_run_changes_nothing_witness:
  "files (snd (cli_main offline_env ''/repo'' [''--skip-actions'', ''--dry-run'', ''--quiet''] two_pins_world))
     = files two_pins_world
   \<and> commands (snd (cli_main offline_env ''/repo'' [''--skip-actions'', ''--dry-run'', ''--quiet''] two_pins_world))
     = commands two_pins_world"
  by (rule dry_run_changes_nothing) simp

section \<open>A dry run plans what a run does\<close>

definition same_texts :: "path set \<Rightarrow> updater_world \<Rightarrow> updater_world \<Rightarrow> bool" where
  "same_texts ps w w' = (\<forall>p\<in>ps. map_of (files w) p = map_of (files w') p)"

lemma replace_refs_plan:
  assumes "distinct ps" and "same_texts (set ps) w w'"
  shows "fst (replace_container_refs True rs ps w) = fst (replace_container_refs False rs ps w')"
  using assms
proof (induction ps arbitrary: w w')
  case Nil
  then show ?case by (simp add: ret_def)
next
  case (Cons p ps)
  from Cons.prems have p: "map_of (files w) p = map_of (files w') p" by (simp add: same_texts_def)
  show ?case
  proof (cases "map_of (files w) p")
    case None
    with p show ?thesis by (simp add: bind_p_def read_text_def)
  next
    case (Some t)
    with p have t': "map_of (files w') p = Some t" by simp
    show ?thesis
    proof (cases "replace_refs_in_text p rs (universal_newlines t)")
      case (Inl e)
      with t' Some show ?thesis by (simp add: bind_p_def read_text_def of_result_def)
    next
      case (Inr r)
      then obtain new_text updates where r: "replace_refs_in_text p rs (universal_newlines t) = Inr (new_text, updates)"
        by (cases r) simp
      define w'' where "w'' = (if new_text \<noteq> universal_newlines t
        then w'\<lparr>files := dict_set p new_text (files w')\<rparr> else w')"
      have "same_texts (set ps) w w''"
        using Cons.prems by (auto simp: w''_def same_texts_def map_of_dict_set)
      with Cons have eq: "fst (replace_container_refs True rs ps w) = fst (replace_container_refs False rs ps w'')"
        by simp
      obtain res v where run: "replace_container_refs True rs ps w = (res, v)"
        by (cases "replace_container_refs True rs ps w")
      with eq obtain v' where "replace_container_refs False rs ps w'' = (res, v')"
        by (cases "replace_container_refs False rs ps w''") simp
      with t' Some r run show ?thesis
        by (cases "new_text = universal_newlines t"; cases res)
          (simp_all add: bind_p_def read_text_def of_result_def ret_def write_text_def modify_def w''_def)
    qed
  qed
qed

lemma update_workflows_plan:
  "fst (update_workflows True a b ts w) = fst (update_workflows False a b ts w')"
proof (induction ts arbitrary: w w')
  case Nil
  then show ?case by (simp add: ret_def)
next
  case (Cons pt ts)
  obtain p t where pt: "pt = (p, t)" by (cases pt)
  show ?case
  proof (cases "updated_workflow_action_text p t a b")
    case (Inl e)
    with pt show ?thesis by (simp add: bind_p_def of_result_def)
  next
    case (Inr r)
    then obtain new_text updates where r: "updated_workflow_action_text p t a b = Inr (new_text, updates)"
      by (cases r) simp
    define w'' where "w'' = (if updates \<noteq> [] then w'\<lparr>files := dict_set p new_text (files w')\<rparr> else w')"
    obtain res v where run: "update_workflows True a b ts w = (res, v)" by (cases "update_workflows True a b ts w")
    with Cons.IH [of w w''] obtain v' where "update_workflows False a b ts w'' = (res, v')"
      by (cases "update_workflows False a b ts w''") simp
    with pt r run show ?thesis
      by (cases "updates = []"; cases res)
        (simp_all add: bind_p_def of_result_def ret_def write_text_def modify_def w''_def)
  qed
qed

lemma fst_bind_cong:
  assumes "\<And>x w'. m w = (Inr x, w') \<Longrightarrow> fst (k x w') = fst (k' x w')"
  shows "fst (bind_p m k w) = fst (bind_p m k' w)"
  using assms by (auto simp: bind_p_def split: prod.splits sum.splits)

lemma distinct_container_reference_paths: "distinct (container_reference_paths ps)"
  by (simp add: container_reference_paths_def sorted_set_def)

text \<open>
  C37. A dry run of each updater returns what the real run returns from the same world: the
  same updates, or the same error, although the real run writes files as it goes.
\<close>

theorem dry_run_plans_the_run:
  "fst (sync_pyproject_dependency_versions env True r w) = fst (sync_pyproject_dependency_versions env False r w)
   \<and> fst (update_github_action_versions env True r w) = fst (update_github_action_versions env False r w)
   \<and> fst (update_container_image_versions env True tr w) = fst (update_container_image_versions env False tr w)"
proof (intro conjI)
  show "fst (sync_pyproject_dependency_versions env True r w)
      = fst (sync_pyproject_dependency_versions env False r w)"
    unfolding sync_pyproject_dependency_versions_def Let_def
    by (intro fst_bind_cong) (auto simp: bind_p_def write_text_def modify_def ret_def)
  show "fst (update_github_action_versions env True r w) = fst (update_github_action_versions env False r w)"
    unfolding update_github_action_versions_def Let_def
    by (intro fst_bind_cong update_workflows_plan)
  show "fst (update_container_image_versions env True tr w) = fst (update_container_image_versions env False tr w)"
    unfolding update_container_image_versions_def Let_def
  proof (intro fst_bind_cong)
    fix refs w1 reps w2
    show "fst ((if reps = [] then ret [] else bind_p file_paths (\<lambda>ps. replace_container_refs True
          (ordered_replacements reps) (container_reference_paths ps))) w2)
      = fst ((if reps = [] then ret [] else bind_p file_paths (\<lambda>ps. replace_container_refs False
          (ordered_replacements reps) (container_reference_paths ps))) w2)"
      using replace_refs_plan [OF distinct_container_reference_paths]
      by (auto simp: same_texts_def intro!: fst_bind_cong)
  qed
qed

section \<open>The commands of a run\<close>

lemma keeps_ok: "keeps f m \<Longrightarrow> m w = (Inr x, w') \<Longrightarrow> f w' = f w"
  by (metis keeps_def snd_conv)

lemma try_ok_iff: "try_except m h w = (Inr x, w') \<longleftrightarrow>
    m w = (Inr x, w') \<or> (\<exists>e w1. m w = (Inl e, w1) \<and> h e w1 = (Inr x, w'))"
  by (auto simp: try_except_def split: prod.splits sum.splits)

lemma with_step_ok:
  assumes "with_step env s m w = (Inr x, w')"
  shows "\<exists>w1 w2. m w1 = (Inr x, w2) \<and> commands w1 = commands w \<and> commands w' = commands w2"
proof -
  from assms obtain w1 w2 w3 where enter: "step_enter env s w = (Inr (), w1)"
    and m: "m w1 = (Inr x, w2)" and exit: "step_exit env s False w2 = (Inr w3, w')"
    by (auto simp: with_step_def bind_ok_iff try_ok_iff)
  from keeps_ok [OF keeps_step_enter(2) enter] keeps_ok [OF keeps_step_exit(2) exit] m
  show ?thesis by blast
qed

lemma run_command_ok: "run_command env c w = (Inr x, w') \<Longrightarrow> commands w' = commands w @ [c]"
  by (auto simp: run_command_def bind_p_def gets_def modify_def ret_def raise_def
      split: prod.splits if_splits)

lemma command_step_ok:
  "(if b then with_step env s (run_command env c) else ret ()) w = (Inr x, w') \<Longrightarrow>
     commands w' = commands w @ (if b then [c] else [])"
  by (auto split: if_splits dest!: with_step_ok run_command_ok)

text \<open>
  C38. A successful run starts \<open>uv lock --upgrade\<close> first when it is asked for, and
  \<open>uv lock\<close> last when it changed a dependency; a dry run starts neither, and nothing else
  is started.
\<close>

theorem commands_of_a_run:
  assumes "update_dependencies env (Some os) progress w = (Inr summary, w')"
  shows "commands w' = commands w
    @ (if upgrade_lock os \<and> \<not> dry_run os then [[''uv'', ''lock'', ''--upgrade'']] else [])
    @ (if dependency_updates summary \<noteq> [] \<and> \<not> dry_run os then [[''uv'', ''lock'']] else [])"
proof -
  define R where "R = (case progress of Some r \<Rightarrow> r | None \<Rightarrow> \<lparr>reporter_enabled = False\<rparr>)"
  from assms obtain u w1 d w2 a w3 c w4 v where
    upgrade: "(if upgrade_lock os \<and> \<not> dry_run os
      then with_step env (reporter_step R ''Updating uv.lock'' False)
        (run_command env [''uv'', ''lock'', ''--upgrade'']) else ret ()) w = (Inr u, w1)"
    and steps: "update_pyproject_dependencies env os R w1 = (Inr d, w2)"
      "update_github_actions env os R w2 = (Inr a, w3)" "update_container_images env os R w3 = (Inr c, w4)"
    and refresh: "(if d \<noteq> [] \<and> \<not> dry_run os
      then with_step env (reporter_step R ''Refreshing uv.lock'' False)
        (run_command env [''uv'', ''lock'']) else ret ()) w4 = (Inr v, w')"
    and summary: "summary = \<lparr>dependency_updates = d, action_updates = a, container_updates = c\<rparr>"
    unfolding update_dependencies_def Let_def R_def option.case bind_ok_iff ret_run by blast
  from keeps_ok [OF keeps_steps(1) steps(1)] keeps_ok [OF keeps_steps(2) steps(2)]
    keeps_ok [OF keeps_steps(3) steps(3)]
  have "commands w4 = commands w1" by simp
  with command_step_ok [OF upgrade] command_step_ok [OF refresh] summary show ?thesis by simp
qed

lemma commands_of_a_run_witness:
  "\<exists>summary w'. update_dependencies offline_env
     (Some \<lparr>dry_run = False, upgrade_lock = True, update_pyproject = False, update_actions = False,
       update_containers = False\<rparr>) None two_pins_world = (Inr summary, w')
   \<and> commands w' = [[''uv'', ''lock'', ''--upgrade'']]"
proof -
  let ?os = "\<lparr>dry_run = False, upgrade_lock = True, update_pyproject = False, update_actions = False,
       update_containers = False\<rparr>"
  let ?run = "update_dependencies offline_env (Some ?os) None two_pins_world"
  have "fst ?run = Inr \<lparr>dependency_updates = [], action_updates = [], container_updates = []\<rparr>"
    by code_simp
  then have "?run = (Inr \<lparr>dependency_updates = [], action_updates = [], container_updates = []\<rparr>, snd ?run)"
    by (metis prod.collapse)
  from commands_of_a_run [OF this] this show ?thesis by (auto simp: two_pins_world_def)
qed

section \<open>The thread pool\<close>

text \<open>Any order of reading that has every entry once gives the results.\<close>

lemma resolve_permutation:
  assumes "mset order = mset entries"
  shows "case resolve_in_parallel (\<lambda>_. order) entries f of
      Inr resolved \<Rightarrow> list_all (\<lambda>k. \<exists>v. f k = Inr v \<and> resolved k = Some v) entries \<and> dom resolved = set entries
    | Inl e \<Rightarrow> list_ex (\<lambda>k. f k = Inl e) entries"
proof -
  from assms have same: "set order = set entries" by (rule mset_eq_setD)
  have cases: "resolve_in_parallel (\<lambda>_. order) entries f = collect_results f Map.empty order"
    using same by (cases entries) (simp_all add: resolve_in_parallel_def)
  show ?thesis
  proof (cases "\<exists>k e. k \<in> set order \<and> f k = Inl e")
    case True
    then obtain k e where "k \<in> set order" "f k = Inl e" by blast
    then obtain k' e' where "k' \<in> set order" "f k' = Inl e'"
      "collect_results f Map.empty order = Inl e'"
      using collect_results_fails [where ks = order and f = f and resolved = Map.empty] by blast
    with same show ?thesis by (auto simp: cases list_ex_iff)
  next
    case False
    then have ok: "f k = Inr (projr (f k))" if "k \<in> set order" for k
      using that by (cases "f k") auto
    from collect_results_ok [of order f, OF ok] have
      "collect_results f Map.empty order = Inr (\<lambda>k. if k \<in> set order then Some (projr (f k)) else None)"
      by simp
    with ok same show ?thesis
      by (auto simp: cases list_all_iff dom_def split: if_splits)
  qed
qed

text \<open>
  C39. Whatever order the workers of the pool finish in and the loop reads their futures in, the dict
  of results is the same: it has the value of every entry, and when a resolver raises, the result
  is one of the exceptions raised.
\<close>

theorem parallel_results_are_ordered_by_nothing:
  assumes "pool_runs (max_workers entries) entries ([], [], [], completed)"
  shows "case resolve_in_parallel (\<lambda>_. completed) entries f of
      Inr resolved \<Rightarrow> list_all (\<lambda>k. \<exists>v. f k = Inr v \<and> resolved k = Some v) entries \<and> dom resolved = set entries
    | Inl e \<Rightarrow> list_ex (\<lambda>k. f k = Inl e) entries"
  by (rule resolve_permutation) (use pool_invariant [OF assms] in simp)

lemma two_workers: "max_workers [''a'', ''b''] = 2"
  by (simp add: max_workers_def max_parallel_workers_def)

text \<open>Both resolvers run, the second finishes first, and its future is read last.\<close>

lemma pool_runs_sample:
  "pool_runs 2 [''a'', ''b''] ([], [''b'', ''a''], [], [])"
  "pool_runs 2 [''a'', ''b''] ([], [], [], [''a'', ''b''])"
proof -
  have "pool_runs 2 [''a'', ''b''] ([''a'', ''b''], [], [], [])" by (rule pool_runs.submitted)
  then have "pool_runs 2 [''a'', ''b''] ([''b''], [''a''], [], [])"
    by (rule pool_runs.step) (rule pool_step.start, simp)
  then show both: "pool_runs 2 [''a'', ''b''] ([], [''b'', ''a''], [], [])"
    by (rule pool_runs.step) (rule pool_step.start, simp)
  then have "pool_runs 2 [''a'', ''b''] ([], [''a''], [''b''], [])"
    by (rule pool_runs.step) (use pool_step.finish [of 2 "[]" "[]" "''b''" "[''a'']" "[]"] in simp)
  then have "pool_runs 2 [''a'', ''b''] ([], [], [''a'', ''b''], [])"
    by (rule pool_runs.step) (use pool_step.finish [of 2 "[]" "[]" "''a''" "[]" "[''b'']"] in simp)
  then have "pool_runs 2 [''a'', ''b''] ([], [], [''b''], [''a''])"
    by (rule pool_runs.step) (use pool_step.yield [of 2 "[]" "[]" "[]" "''a''" "[''b'']" "[]"] in simp)
  then show "pool_runs 2 [''a'', ''b''] ([], [], [], [''a'', ''b''])"
    by (rule pool_runs.step) (use pool_step.yield [of 2 "[]" "[]" "[]" "''b''" "[]" "[''a'']"] in simp)
qed

lemma parallel_results_are_ordered_by_nothing_witness:
  "case resolve_in_parallel (\<lambda>_. [''a'', ''b'']) [''a'', ''b''] (\<lambda>k. Inr (k @ k) :: string outcome) of
      Inr resolved \<Rightarrow> resolved ''a'' = Some ''aa'' \<and> resolved ''b'' = Some ''bb''
    | Inl e \<Rightarrow> False"
proof -
  have "pool_runs (max_workers [''a'', ''b'']) [''a'', ''b''] ([], [], [], [''a'', ''b''])"
    unfolding two_workers by (rule pool_runs_sample)
  from parallel_results_are_ordered_by_nothing [OF this, of "\<lambda>k. Inr (k @ k)"] show ?thesis
    by (auto split: sum.splits)
qed

text \<open>
  C40. Resolving in parallel terminates: however the pool was scheduled so far, no more than eight
  resolvers run at a time, every further step is one of the steps that are left (three for an entry
  that waits, two for one that runs, one for a finished one), and that many steps lead to the end. There
  \<open>resolve_in_parallel\<close> answers the value of every entry when no resolver raises.
\<close>

theorem pool_terminates:
  assumes "pool_runs (max_workers entries) entries s"
  shows "length (fst (snd s)) \<le> 8
    \<and> (\<forall>s'. pool_step (max_workers entries) s s' \<longrightarrow> work_left s = Suc (work_left s'))
    \<and> (\<exists>order. (pool_step (max_workers entries) ^^ work_left s) s ([], [], [], order)
        \<and> (list_all (\<lambda>k. \<exists>v. f k = Inr v) entries \<longrightarrow>
            (\<exists>resolved. resolve_in_parallel (\<lambda>_. order) entries f = Inr resolved
              \<and> list_all (\<lambda>k. f k = Inr (the (resolved k))) entries \<and> dom resolved = set entries)))"
proof (intro conjI allI impI)
  obtain queue running finished read where s: "s = (queue, running, finished, read)" by (rule prod_cases4)
  from pool_invariant [OF assms [unfolded s]]
  have inv: "mset (queue @ running @ finished @ read) = mset entries" "length running \<le> max_workers entries" by auto
  then show "length (fst (snd s)) \<le> 8" by (simp add: s max_workers_def max_parallel_workers_def)
  show "work_left s = Suc (work_left s')" if "pool_step (max_workers entries) s s'" for s'
    using that by (rule pool_step_work)
  have "\<exists>order. (pool_step (max_workers entries) ^^ work_left s) s ([], [], [], order)"
  proof (cases "entries = []")
    case True
    with inv(1) show ?thesis by (auto simp: s work_left_def)
  next
    case False
    then have "0 < max_workers entries" by (simp add: max_workers_def max_parallel_workers_def)
    from pool_completes [OF this refl] show ?thesis .
  qed
  then obtain order where order: "(pool_step (max_workers entries) ^^ work_left s) s ([], [], [], order)" ..
  from pool_invariant [OF pool_runs_steps [OF assms order]] have "mset order = mset entries" by simp
  from resolve_permutation [OF this, of f] order
  show "\<exists>order. (pool_step (max_workers entries) ^^ work_left s) s ([], [], [], order)
        \<and> (list_all (\<lambda>k. \<exists>v. f k = Inr v) entries \<longrightarrow>
            (\<exists>resolved. resolve_in_parallel (\<lambda>_. order) entries f = Inr resolved
              \<and> list_all (\<lambda>k. f k = Inr (the (resolved k))) entries \<and> dom resolved = set entries))"
    by (intro exI [of _ order]) (fastforce simp: list_all_iff list_ex_iff split: sum.splits)
qed

lemma pool_terminates_witness:
  "\<exists>order. (pool_step (max_workers [''a'', ''b'']) ^^ 4) ([], [''b'', ''a''], [], []) ([], [], [], order)
    \<and> (\<exists>resolved. resolve_in_parallel (\<lambda>_. order) [''a'', ''b''] (\<lambda>k. Inr (k @ k) :: string outcome) = Inr resolved
        \<and> dom resolved = {''a'', ''b''})"
proof -
  have "pool_runs (max_workers [''a'', ''b'']) [''a'', ''b''] ([], [''b'', ''a''], [], [])"
    unfolding two_workers by (rule pool_runs_sample)
  from pool_terminates [OF this, of "\<lambda>k. Inr (k @ k)"] show ?thesis
    by (auto simp: work_left_def)
qed

end
