(* ===== verification/Github_Pins.thy ===== *)
theory Github_Pins
  imports Github_Actions
begin

text \<open>
  What the pattern of an action pin matches: a pin at the start of a text in closed form
  (pin_at), the search at a position in terms of it (match_pin), and when two texts look
  the same to such a search at their start (alike).
\<close>

section \<open>What the pattern of a pin matches\<close>

text \<open>A repetition whose continuation fails while another iteration is possible takes all.\<close>

lemma star_then_longest:
  assumes "\<And>b x u. P x \<Longrightarrow> g (b, x # u, cs) = []"
  shows "concat (map g (runs (Star True (Cls P)) (b, t, cs))) = g (rev (takeWhile P t) @ b, dropWhile P t, cs)"
  using assms
proof (induction t arbitrary: b)
  case (Cons x t)
  then show ?case by (cases "P x") (simp_all add: runs_star_cls)
qed simp

lemma plus_then_longest:
  assumes "\<And>b x u. P x \<Longrightarrow> g (b, x # u, cs) = []"
  shows "concat (map g (runs (plus_rx (Cls P)) (b, t, cs)))
    = (if takeWhile P t = [] then [] else g (rev (takeWhile P t) @ b, dropWhile P t, cs))"
  using star_then_longest [of P g, OF assms] by (cases t) (simp_all add: plus_rx_def)

text \<open>A pin at the start of a text: what stands before the repository, the repository, the ref,
  and the text behind it.\<close>

definition name_slash_name :: "string \<Rightarrow> (string \<times> string) option" where
  "name_slash_name t =
     (let a = takeWhile is_name_char t; u = dropWhile is_name_char t
      in if a = [] \<or> u = [] \<or> hd u \<noteq> CHR ''/'' then None
         else let n = takeWhile is_name_char (tl u)
              in if n = [] then None else Some (a @ CHR ''/'' # n, dropWhile is_name_char (tl u)))"

definition pin_at :: "string \<Rightarrow> (string \<times> string \<times> string \<times> string) option" where
  "pin_at t =
     (if \<not> startswith t ''uses:'' then None
      else let u = drop 5 t
           in Option.bind (name_slash_name (dropWhile is_space u)) (\<lambda>(repo, v).
              if v = [] \<or> hd v \<noteq> CHR ''@'' then None
              else let r = takeWhile is_nonspace_nonhash (tl v)
                   in if r = [] then None
                      else Some (''uses:'' @ takeWhile is_space u, repo, r, dropWhile is_nonspace_nonhash (tl v))))"

definition pin_found :: "string \<times> string \<times> string \<times> string \<Rightarrow> found" where
  "pin_found x = (case x of (p, repo, r, after) \<Rightarrow>
     \<lparr>found_text = p @ repo @ ''@'' @ r, found_groups = [(''ref'', r), (''repository'', repo), (''prefix'', p)],
      found_after = after\<rparr>)"

lemma not_name_char [simp]: "\<not> is_name_char (CHR ''/'')" "\<not> is_name_char (CHR ''@'')"
  by code_simp+

lemma space_not_name: "is_space c \<Longrightarrow> \<not> is_name_char c"
  by (auto simp: is_space_def is_name_char_def is_ascii_alnum_def is_decimal_def code_of_def)

lemma then_char:
  "concat (map f (runs (lit [d]) (b, t, cs))) = (if t = [] \<or> hd t \<noteq> d then [] else f (d # b, tl t, cs))"
  by (cases t) (simp_all add: runs_single del: lit.simps)

lemma concat_map_concat: "concat (map f (concat xss)) = concat (map (\<lambda>xs. concat (map f xs)) xss)"
  by (induction xss) simp_all

definition ref_runs :: "rx_state \<Rightarrow> rx_state list" where
  "ref_runs s = concat (map (runs (Group ''ref'' (plus_rx (Cls is_nonspace_nonhash)))) (runs (lit ''@'') s))"

definition repository_runs :: "rx_state \<Rightarrow> rx_state list" where
  "repository_runs s = concat (map ref_runs
     (runs (Group ''repository'' (seqs [plus_rx (Cls is_name_char), lit ''/'', plus_rx (Cls is_name_char)])) s))"

lemma ref_runs_eq:
  "ref_runs (b, t, cs) = (if t = [] \<or> hd t \<noteq> CHR ''@'' then []
     else runs (Group ''ref'' (plus_rx (Cls is_nonspace_nonhash))) (CHR ''@'' # b, tl t, cs))"
  unfolding ref_runs_def then_char ..

lemma repository_runs_eq:
  "repository_runs (b, t, cs) =
     (case name_slash_name t of
        None \<Rightarrow> []
      | Some (repo, v) \<Rightarrow> ref_runs (rev repo @ b, v, (''repository'', repo) # cs))"
proof -
  let ?cap = "\<lambda>(b', t', cs'). (b', t', (''repository'', rev (take (length b' - length b) b')) # cs')"
  let ?n = "plus_rx (Cls is_name_char)"
  let ?a = "takeWhile is_name_char t" and ?u = "dropWhile is_name_char t"
  define f where "f = (\<lambda>s. ref_runs (?cap s))"
  define g where "g = (\<lambda>s. concat (map f (concat (map (runs ?n) (runs (lit ''/'') s)))))"
  have g: "g (c, u, ds) = (if u = [] \<or> hd u \<noteq> CHR ''/'' then []
      else concat (map f (runs ?n (CHR ''/'' # c, tl u, ds))))" for c u ds
    unfolding g_def then_char by simp
  have f: "f (c, x # u, ds) = []" if "is_name_char x" for c x u ds
    using that by (auto simp: f_def ref_runs_eq)
  have "repository_runs (b, t, cs) = concat (map g (runs ?n (b, t, cs)))"
    by (simp add: repository_runs_def g_def f_def concat_map_concat o_def split_beta del: lit.simps)
  also have "\<dots> = (if ?a = [] then [] else g (rev ?a @ b, ?u, cs))"
    by (rule plus_then_longest) (auto simp: g)
  also have "\<dots> = (if ?a = [] \<or> ?u = [] \<or> hd ?u \<noteq> CHR ''/'' then []
      else concat (map f (runs ?n (CHR ''/'' # rev ?a @ b, tl ?u, cs))))"
    by (simp add: g)
  also have "concat (map f (runs ?n (CHR ''/'' # rev ?a @ b, tl ?u, cs)))
      = (if takeWhile is_name_char (tl ?u) = [] then []
         else f (rev (takeWhile is_name_char (tl ?u)) @ CHR ''/'' # rev ?a @ b, dropWhile is_name_char (tl ?u), cs))"
    by (rule plus_then_longest) (rule f)
  finally show ?thesis
    by (auto simp: name_slash_name_def Let_def f_def)
qed

lemma runs_Seq_fun: "runs (Seq r q) = (\<lambda>s. concat (map (runs q) (runs r s)))"
  by (rule ext) simp

lemma runs_uses:
  "runs action_uses_re (b, t, []) =
     (if at_edge b t then
        (case pin_at t of
           None \<Rightarrow> []
         | Some (p, repo, r, after) \<Rightarrow>
             runs (Group ''ref'' (plus_rx (Cls is_nonspace_nonhash)))
               (CHR ''@'' # rev repo @ rev p @ b, r @ after, [(''repository'', repo), (''prefix'', p)]))
      else [])"
proof -
  let ?star = "Star True (Cls is_space)"
  let ?cap = "\<lambda>(b', t', cs'). (b', t', (''prefix'', rev (take (length b' - length b) b')) # cs')"
  let ?u = "drop 5 t"
  define g where "g = (\<lambda>s. repository_runs (?cap s))"
  have k: "runs (Seq (Group ''repository'' (seqs [plus_rx (Cls is_name_char), lit ''/'', plus_rx (Cls is_name_char)]))
      (Seq (lit ''@'') (Group ''ref'' (plus_rx (Cls is_nonspace_nonhash))))) s = repository_runs s" for s
    by (simp add: repository_runs_def ref_runs_def [abs_def] runs_Seq_fun del: lit.simps runs.simps(3))
  have re: "action_uses_re = Seq (Group ''prefix'' (Seq Word_Edge (Seq (lit ''uses:'') ?star)))
     (Seq (Group ''repository'' (seqs [plus_rx (Cls is_name_char), lit ''/'', plus_rx (Cls is_name_char)]))
      (Seq (lit ''@'') (Group ''ref'' (plus_rx (Cls is_nonspace_nonhash)))))"
    by (simp add: action_uses_re_def star_rx_def)
  have prefix: "runs (Seq Word_Edge (Seq (lit ''uses:'') ?star)) (b, t, [])
      = (if at_edge b t \<and> startswith t ''uses:'' then runs ?star (rev ''uses:'' @ b, ?u, []) else [])"
    by (simp add: runs_lit eval_nat_numeral del: lit.simps)
  have g: "g (c, x # u, ds) = []" if "is_space x" for c x u ds
    using space_not_name [OF that] by (simp add: g_def repository_runs_eq name_slash_name_def)
  have star: "concat (map g (runs ?star (rev ''uses:'' @ b, ?u, [])))
      = g (rev (takeWhile is_space ?u) @ rev ''uses:'' @ b, dropWhile is_space ?u, [])"
    by (rule star_then_longest) (rule g)
  have "runs action_uses_re (b, t, []) = concat (map g (runs (Seq Word_Edge (Seq (lit ''uses:'') ?star)) (b, t, [])))"
    unfolding re runs.simps(3) [of "Group ''prefix'' _"] runs.simps(6) k map_map o_def g_def
    by (simp add: split_beta)
  also have "\<dots> = (if at_edge b t \<and> startswith t ''uses:''
      then g (rev (takeWhile is_space ?u) @ rev ''uses:'' @ b, dropWhile is_space ?u, []) else [])"
    by (cases "at_edge b t \<and> startswith t ''uses:''") (simp_all only: prefix star if_True if_False list.map concat.simps simp_thms)
  finally show ?thesis
    by (auto simp: g_def repository_runs_eq ref_runs_eq pin_at_def Let_def runs_plus_Nil
        split: option.splits)
qed

lemma name_slash_name_split:
  assumes "name_slash_name t = Some (repo, v)"
  shows "t = repo @ v" and "CHR ''@'' \<notin> set repo"
proof -
  let ?a = "takeWhile is_name_char t" and ?u = "dropWhile is_name_char t"
  let ?n = "takeWhile is_name_char (tl ?u)"
  from assms have u: "?u \<noteq> []" "hd ?u = CHR ''/''" and repo: "repo = ?a @ CHR ''/'' # ?n"
    and v: "v = dropWhile is_name_char (tl ?u)"
    by (auto simp: name_slash_name_def Let_def split: if_splits)
  from u have "?u = CHR ''/'' # tl ?u" by (metis list.collapse)
  moreover have "tl ?u = ?n @ v" unfolding v by simp
  ultimately have "?u = CHR ''/'' # ?n @ v" by simp
  with takeWhile_dropWhile_id [of is_name_char t] show "t = repo @ v"
    unfolding repo by (metis append.assoc append_Cons)
  have "CHR ''@'' \<notin> set (takeWhile is_name_char x)" for x
    using not_name_char(2) by (blast dest: set_takeWhileD)
  then show "CHR ''@'' \<notin> set repo" by (simp add: repo)
qed

lemma pin_at_split:
  assumes "pin_at t = Some (p, repo, r, after)"
  shows "t = p @ repo @ CHR ''@'' # r @ after" and "r \<noteq> []" and "list_all is_nonspace_nonhash r"
    and "after = [] \<or> \<not> is_nonspace_nonhash (hd after)" and "CHR ''@'' \<notin> set (p @ repo)"
    and "startswith p ''uses:''"
proof -
  let ?u = "drop 5 t"
  from assms obtain v where uses: "startswith t ''uses:''"
    and repo: "name_slash_name (dropWhile is_space ?u) = Some (repo, v)"
    and v: "v \<noteq> []" "hd v = CHR ''@''" "r = takeWhile is_nonspace_nonhash (tl v)" "r \<noteq> []"
      "after = dropWhile is_nonspace_nonhash (tl v)" "p = ''uses:'' @ takeWhile is_space ?u"
    by (auto simp: pin_at_def Let_def bind_eq_Some_conv split: if_splits)
  let ?w = "dropWhile is_space ?u"
  from name_slash_name_split [OF repo] have w: "?w = repo @ v" and at: "CHR ''@'' \<notin> set repo" by simp_all
  have "t = ''uses:'' @ ?u"
  proof -
    have "take 5 t = ''uses:''" using uses by (simp add: startswith_def eval_nat_numeral)
    then show ?thesis by (metis append_take_drop_id)
  qed
  also have "?u = takeWhile is_space ?u @ repo @ v" using w by (metis takeWhile_dropWhile_id)
  also have "v = CHR ''@'' # tl v" using v(1,2) by (metis list.collapse)
  also have "tl v = r @ after" using v(3,5) by simp
  finally show "t = p @ repo @ CHR ''@'' # r @ after" by (simp add: v(6))
  show "r \<noteq> []" by (rule v(4))
  show "list_all is_nonspace_nonhash r" using v(3) by (auto simp: list_all_iff dest: set_takeWhileD)
  show "after = [] \<or> \<not> is_nonspace_nonhash (hd after)" using v(5) hd_dropWhile by blast
  have "CHR ''@'' \<notin> set (takeWhile is_space ?u)"
  proof
    assume "CHR ''@'' \<in> set (takeWhile is_space ?u)"
    then have "is_space (CHR ''@'')" by (auto dest: set_takeWhileD)
    moreover have "\<not> is_space (CHR ''@'')" by code_simp
    ultimately show False by simp
  qed
  with at v(6) show "CHR ''@'' \<notin> set (p @ repo)" by simp
  show "startswith p ''uses:''" by (simp add: v(6) startswith_def)
qed

lemma match_pin:
  "match_at action_uses_re b t = (if at_edge b t then map_option pin_found (pin_at t) else None)"
proof (cases "at_edge b t \<and> pin_at t \<noteq> None")
  case True
  then obtain p repo r after where pin: "pin_at t = Some (p, repo, r, after)" by (cases "pin_at t") auto
  note split = pin_at_split [OF pin]
  have tw: "takeWhile is_nonspace_nonhash (r @ after) = r" "dropWhile is_nonspace_nonhash (r @ after) = after"
    using split(3,4) by (cases after; auto simp: list_all_iff takeWhile_append dropWhile_append)+
  let ?b = "CHR ''@'' # rev repo @ rev p @ b"
  obtain ss where "runs (plus_rx (Cls is_nonspace_nonhash)) (?b, r @ after, [(''repository'', repo), (''prefix'', p)])
      = (rev r @ ?b, after, [(''repository'', repo), (''prefix'', p)]) # ss"
    using hd_runs_plus [of is_nonspace_nonhash "r @ after" ?b] split(2) by (auto simp: tw)
  with True pin have "\<exists>ss. runs action_uses_re (b, t, []) =
      (rev r @ ?b, after, [(''ref'', r), (''repository'', repo), (''prefix'', p)]) # ss"
    by (simp add: runs_uses)
  moreover have "take (length t - length after) t = p @ repo @ CHR ''@'' # r"
    by (simp add: split(1))
  ultimately show ?thesis using True pin by (auto simp: match_at_def pin_found_def)
next
  case False
  then have "runs action_uses_re (b, t, []) = []" by (cases "pin_at t") (auto simp: runs_uses)
  with False show ?thesis by (cases "pin_at t") (auto simp: match_at_def)
qed

section \<open>Pins and the text behind their at sign\<close>

lemma while_until_at:
  "\<not> P (CHR ''@'') \<Longrightarrow> takeWhile P (x @ CHR ''@'' # v) = takeWhile P x"
  "\<not> P (CHR ''@'') \<Longrightarrow> dropWhile P (x @ CHR ''@'' # v) = dropWhile P x @ CHR ''@'' # v"
  by (induction x) auto

lemma set_dropWhileD': "x \<in> set (dropWhile P xs) \<Longrightarrow> x \<in> set xs"
  by (rule set_dropWhileD)

lemma name_slash_name_at:
  "name_slash_name (x @ CHR ''@'' # v) = map_option (\<lambda>(repo, w). (repo, w @ CHR ''@'' # v)) (name_slash_name x)"
proof (cases "dropWhile is_name_char x")
  case Nil
  then show ?thesis by (simp add: name_slash_name_def while_until_at Let_def)
next
  case (Cons c u)
  then show ?thesis by (simp add: name_slash_name_def while_until_at Let_def)
qed

definition pin_prefix :: "string \<Rightarrow> (string \<times> string) option" where
  "pin_prefix h =
     (if \<not> startswith h ''uses:'' then None
      else (case name_slash_name (dropWhile is_space (drop 5 h)) of
              Some (repo, []) \<Rightarrow> Some (''uses:'' @ takeWhile is_space (drop 5 h), repo)
            | _ \<Rightarrow> None))"

lemma startswith_uses_at: "startswith (h @ CHR ''@'' # v) ''uses:'' = startswith h ''uses:''"
proof (cases "5 \<le> length h")
  case True
  then show ?thesis by (simp add: startswith_def eval_nat_numeral)
next
  case False
  then have "CHR ''@'' \<in> set (take 5 (h @ CHR ''@'' # v))" by (simp add: take_Cons' not_le)
  moreover have "CHR ''@'' \<notin> set ''uses:''" by simp
  ultimately have "take 5 (h @ CHR ''@'' # v) \<noteq> ''uses:''" by metis
  moreover from False have "take 5 h \<noteq> ''uses:''" by (auto dest!: arg_cong [of _ _ length])
  ultimately show ?thesis by (simp add: startswith_def eval_nat_numeral)
qed

lemma pin_at_at:
  assumes "CHR ''@'' \<notin> set h"
  shows "pin_at (h @ CHR ''@'' # v) =
    (case pin_prefix h of
       None \<Rightarrow> None
     | Some (p, repo) \<Rightarrow>
         if takeWhile is_nonspace_nonhash v = [] then None
         else Some (p, repo, takeWhile is_nonspace_nonhash v, dropWhile is_nonspace_nonhash v))"
proof (cases "startswith h ''uses:''")
  case True
  then have len: "5 \<le> length h" by (auto simp: startswith_def min_def split: if_splits dest!: arg_cong [of _ _ length])
  then have drop: "drop 5 (h @ CHR ''@'' # v) = drop 5 h @ CHR ''@'' # v" by simp
  have space: "\<not> is_space (CHR ''@'')" by code_simp
  show ?thesis
  proof (cases "name_slash_name (dropWhile is_space (drop 5 h))")
    case None
    with True show ?thesis
      by (simp add: pin_at_def pin_prefix_def startswith_uses_at drop while_until_at [of is_space, OF space]
          name_slash_name_at Let_def del: drop_append)
  next
    case (Some rw)
    obtain repo w where rw: "rw = (repo, w)" by (cases rw)
    from name_slash_name_split(1) [OF Some [unfolded rw]] have "set w \<subseteq> set h"
      by (metis Un_subset_iff set_append set_drop_subset set_dropWhileD subset_code(1) subset_trans)
    with assms have "w = [] \<or> hd w \<noteq> CHR ''@''" by (cases w) auto
    with True Some rw show ?thesis
      by (cases w) (auto simp: pin_at_def pin_prefix_def startswith_uses_at drop
          while_until_at [of is_space, OF space] name_slash_name_at Let_def simp del: drop_append)
  qed
qed (simp add: pin_at_def pin_prefix_def startswith_uses_at)

lemma pin_at_no_at: "CHR ''@'' \<notin> set t \<Longrightarrow> pin_at t = None"
  using pin_at_split(1) [of t] by (cases "pin_at t") fastforce+

text \<open>Two texts that a search for pins cannot tell apart at their start.\<close>

definition alike :: "string \<Rightarrow> string \<Rightarrow> bool" where
  "alike s s' =
     (takeWhile (\<lambda>c. c \<noteq> CHR ''@'') s = takeWhile (\<lambda>c. c \<noteq> CHR ''@'') s'
      \<and> (case (dropWhile (\<lambda>c. c \<noteq> CHR ''@'') s, dropWhile (\<lambda>c. c \<noteq> CHR ''@'') s') of
           ([], []) \<Rightarrow> True
         | (_ # v, _ # v') \<Rightarrow> (v = [] \<longleftrightarrow> v' = []) \<and> (v \<noteq> [] \<longrightarrow> is_nonspace_nonhash (hd v) = is_nonspace_nonhash (hd v'))
         | _ \<Rightarrow> False))"

lemma until_at:
  "CHR ''@'' \<notin> set h \<Longrightarrow> takeWhile (\<lambda>c. c \<noteq> CHR ''@'') (h @ CHR ''@'' # v) = h"
  "CHR ''@'' \<notin> set h \<Longrightarrow> dropWhile (\<lambda>c. c \<noteq> CHR ''@'') (h @ CHR ''@'' # v) = CHR ''@'' # v"
  by (induction h) auto

lemma at_split: "CHR ''@'' \<in> set s \<Longrightarrow> \<exists>h v. s = h @ CHR ''@'' # v \<and> CHR ''@'' \<notin> set h"
  by (rule split_list_first [of "CHR ''@''" s, THEN exE]) blast+

lemma alike_cases:
  assumes "alike s s'"
  obtains "s = s'" "CHR ''@'' \<notin> set s"
  | h v v' where "s = h @ CHR ''@'' # v" "s' = h @ CHR ''@'' # v'" "CHR ''@'' \<notin> set h" "v = [] \<longleftrightarrow> v' = []"
      "v \<noteq> [] \<longrightarrow> is_nonspace_nonhash (hd v) = is_nonspace_nonhash (hd v')"
proof -
  have whole: "CHR ''@'' \<notin> set t \<Longrightarrow> takeWhile (\<lambda>c. c \<noteq> CHR ''@'') t = t \<and> dropWhile (\<lambda>c. c \<noteq> CHR ''@'') t = []" for t
    by (auto simp: takeWhile_eq_all_conv)
  show ?thesis
  proof (cases "CHR ''@'' \<in> set s")
    case True
    from at_split [OF this] obtain h v where s: "s = h @ CHR ''@'' # v" "CHR ''@'' \<notin> set h" by blast
    have "CHR ''@'' \<in> set s'"
    proof (rule ccontr)
      assume "CHR ''@'' \<notin> set s'"
      from assms whole [OF this, THEN conjunct2] show False by (simp add: alike_def s until_at)
    qed
    from at_split [OF this] obtain h' v' where s': "s' = h' @ CHR ''@'' # v'" "CHR ''@'' \<notin> set h'" by blast
    from assms have "h = h'" "v = [] \<longleftrightarrow> v' = []" "v \<noteq> [] \<longrightarrow> is_nonspace_nonhash (hd v) = is_nonspace_nonhash (hd v')"
      by (simp_all add: alike_def s s' until_at)
    with s s' show ?thesis using that(2) by blast
  next
    case False
    show ?thesis
    proof (cases "CHR ''@'' \<in> set s'")
      case True
      from at_split [OF this] obtain h' v' where "s' = h' @ CHR ''@'' # v'" "CHR ''@'' \<notin> set h'" by blast
      with assms whole [OF False, THEN conjunct2] show ?thesis by (simp add: alike_def until_at)
    next
      case no: False
      have "s = s'" using assms whole [OF False, THEN conjunct1] whole [OF no, THEN conjunct1]
        unfolding alike_def by metis
      then show ?thesis using False by (rule that(1))
    qed
  qed
qed

lemma alike_pin: "alike s s' \<Longrightarrow> pin_at s = None \<longleftrightarrow> pin_at s' = None"
proof (erule alike_cases)
  fix h v v'
  assume s: "s = h @ CHR ''@'' # v" "s' = h @ CHR ''@'' # v'" "CHR ''@'' \<notin> set h" "v = [] \<longleftrightarrow> v' = []"
    "v \<noteq> [] \<longrightarrow> is_nonspace_nonhash (hd v) = is_nonspace_nonhash (hd v')"
  have "takeWhile P w = [] \<longleftrightarrow> w = [] \<or> \<not> P (hd w)" for P and w :: string by (cases w) auto
  with s show ?thesis by (auto simp: pin_at_at split: option.splits)
qed simp

lemma alike_Cons:
  assumes "alike s s'" and "s = [] \<longleftrightarrow> s' = []" and "s \<noteq> [] \<longrightarrow> hd s = hd s'"
  shows "alike (c # s) (c # s')"
  using assms by (auto simp: alike_def)

lemma alike_same_start:
  assumes "CHR ''@'' \<notin> set h" and "v \<noteq> []" and "v' \<noteq> []" and "is_nonspace_nonhash (hd v) = is_nonspace_nonhash (hd v')"
  shows "alike (h @ CHR ''@'' # v) (h @ CHR ''@'' # v')"
  using assms by (simp add: alike_def until_at)

end
