(* ===== verification/Github_Properties.thy ===== *)
theory Github_Properties
  imports Github_Pins
begin

text \<open>
  What makes the update of action pins correct: a text is changed in the refs of pins only,
  and a second run over the new text finds nothing left to do.
\<close>

section \<open>The second run\<close>

definition tag_usable :: "string \<Rightarrow> bool" where
  "tag_usable tag = (tag \<noteq> [] \<and> list_all is_nonspace_nonhash tag)"

text \<open>The text a pin is compared by when its ref is left out.\<close>

definition without_ref :: "found \<Rightarrow> string" where
  "without_ref m = group m ''prefix'' @ group m ''repository'' @ ''@''"

lemma group_pin_found:
  "group (pin_found (p, repo, r, after)) ''prefix'' = p"
  "group (pin_found (p, repo, r, after)) ''repository'' = repo"
  "group (pin_found (p, repo, r, after)) ''ref'' = r"
  "found_text (pin_found (p, repo, r, after)) = p @ repo @ ''@'' @ r"
  "found_after (pin_found (p, repo, r, after)) = after"
  by (simp_all add: pin_found_def group_def)

text \<open>A ref that was moved, or was left alone, is left alone the next time.\<close>

lemma new_action_ref_settles:
  assumes "new_action_ref tags m = Inr moved" and "group m' ''repository'' = group m ''repository''"
    and "group m' ''ref'' = (case moved of None \<Rightarrow> group m ''ref'' | Some r \<Rightarrow> r)"
  shows "new_action_ref tags m' = Inr None"
proof (cases "tags (group m ''repository'')")
  case (Some t)
  then show ?thesis
  proof (cases t)
    case latest: (Some tag)
    obtain i j where majors: "major_version (group m ''ref'') = Inr i" "major_version tag = Inr j"
      using assms(1) Some latest
      by (cases "major_version (group m ''ref'')"; cases "major_version tag")
        (simp_all add: new_action_ref_def updated_action_ref_def)
    with assms Some latest show ?thesis
      by (auto simp: new_action_ref_def updated_action_ref_def split: if_splits option.splits)
  qed (use assms Some in \<open>simp add: new_action_ref_def\<close>)
qed (use assms in \<open>simp add: new_action_ref_def\<close>)

text \<open>What an update says: the latest tag of its repository, which has another major version.\<close>

lemma new_action_ref_Some:
  assumes "new_action_ref tags m = Inr (Some r)"
  shows "tags (group m ''repository'') = Some (Some r)
    \<and> (\<exists>i j. major_version (group m ''ref'') = Inr (Some i) \<and> major_version r = Inr (Some j) \<and> i \<noteq> j)"
  using assms
  by (cases "tags (group m ''repository'')"; cases "the (tags (group m ''repository''))";
      cases "major_version (group m ''ref'')"; cases "major_version (the (the (tags (group m ''repository''))))")
    (auto simp: new_action_ref_def updated_action_ref_def split: if_splits)

definition moves_major :: "(string \<rightharpoonup> string option) \<Rightarrow> action_update \<Rightarrow> bool" where
  "moves_major tags u =
     (tags (au_repository u) = Some (Some (au_new_ref u))
      \<and> (case (major_version (au_old_ref u), major_version (au_new_ref u)) of
           (Inr (Some i), Inr (Some j)) \<Rightarrow> i \<noteq> j
         | _ \<Rightarrow> False))"

lemma and_then_ok: "and_then r k = Inr y \<longleftrightarrow> (\<exists>x. r = Inr x \<and> k x = Inr y)"
  by (cases r) auto

lemma replace_actions_moves:
  "replace_actions p tags gs = Inr (s', us) \<Longrightarrow> list_all (moves_major tags) us"
proof (induction gs arbitrary: s' us)
  case (Cons g gs)
  show ?case
  proof (cases g)
    case (Matched m)
    with Cons.prems obtain moved t vs where m: "new_action_ref tags m = Inr moved"
      "replace_actions p tags gs = Inr (t, vs)"
      and us: "us = (case moved of None \<Rightarrow> vs | Some r \<Rightarrow> \<lparr>au_file_path = p, au_repository = group m ''repository'',
            au_old_ref = group m ''ref'', au_new_ref = r\<rparr> # vs)"
      by (auto simp: and_then_ok split: option.splits)
    show ?thesis
      using Cons.IH [OF m(2)] new_action_ref_Some [of tags m] m(1) us
      by (cases moved) (auto simp: moves_major_def)
  qed (use Cons in \<open>auto simp: and_then_ok\<close>)
qed simp

definition same_edge :: "string \<Rightarrow> string \<Rightarrow> string \<Rightarrow> bool" where
  "same_edge b b' s = ((b = [] \<longleftrightarrow> b' = []) \<and> (b \<noteq> [] \<longrightarrow> hd b = hd b') \<or> s = [] \<or> hd s \<noteq> CHR ''u'')"

lemma pin_at_u: "pin_at s \<noteq> None \<Longrightarrow> s \<noteq> [] \<and> hd s = CHR ''u''"
  by (cases s) (auto simp: pin_at_def startswith_def split: if_splits)

lemma no_pin_transfers:
  assumes "match_at action_uses_re b s = None" and "alike s s'" and "same_edge b b' s"
    and "s = [] \<longleftrightarrow> s' = []" and "s \<noteq> [] \<longrightarrow> hd s = hd s'"
  shows "match_at action_uses_re b' s' = None"
proof (rule ccontr)
  assume "match_at action_uses_re b' s' \<noteq> None"
  then have edge: "at_edge b' s'" and pin: "pin_at s' \<noteq> None"
    by (auto simp: match_pin split: if_splits)
  from pin alike_pin [OF assms(2)] have "pin_at s \<noteq> None" by simp
  with pin_at_u [OF this] edge assms show False
    by (auto simp: match_pin same_edge_def at_edge_def split: if_splits)
qed

lemma pin_moved:
  assumes "pin_at s = Some (q, repo, r, after)" and "tag_usable r'"
    and "after = [] \<longleftrightarrow> after' = []" and "after \<noteq> [] \<longrightarrow> hd after = hd after'"
  shows "pin_at (q @ repo @ CHR ''@'' # r' @ after') = Some (q, repo, r', after')"
    and "alike s (q @ repo @ CHR ''@'' # r' @ after')"
    and "s \<noteq> []" and "hd s = hd (q @ repo @ CHR ''@'' # r' @ after')"
proof -
  note split = pin_at_split [OF assms(1)]
  have stop: "after' = [] \<or> \<not> is_nonspace_nonhash (hd after')" using split(4) assms(3,4) by auto
  have tw: "takeWhile is_nonspace_nonhash (r' @ after') = r'" "dropWhile is_nonspace_nonhash (r' @ after') = after'"
    using assms(2) stop
    by (cases after'; auto simp: tag_usable_def list_all_iff takeWhile_append dropWhile_append)+
  have s: "s = (q @ repo) @ CHR ''@'' # r @ after" using split(1) by simp
  from assms(1) have "pin_prefix (q @ repo) = Some (q, repo)"
    unfolding s pin_at_at [OF split(5)] by (auto split: option.splits if_splits)
  with pin_at_at [OF split(5), of "r' @ after'"] assms(2) tw
  show "pin_at (q @ repo @ CHR ''@'' # r' @ after') = Some (q, repo, r', after')"
    by (simp add: tag_usable_def)
  have same: "is_nonspace_nonhash (hd (r @ after)) = is_nonspace_nonhash (hd (r' @ after'))"
    using split(2,3) assms(2) by (cases r; cases r') (auto simp: tag_usable_def)
  have "r @ after \<noteq> []" "r' @ after' \<noteq> []" using split(2) assms(2) by (auto simp: tag_usable_def)
  from alike_same_start [OF split(5) this same]
  show "alike s (q @ repo @ CHR ''@'' # r' @ after')" by (simp add: s)
  from split(6) have "q \<noteq> []" by (auto simp: startswith_def)
  then show "s \<noteq> []" "hd s = hd (q @ repo @ CHR ''@'' # r' @ after')" by (simp_all add: s)
qed

lemma scan_pin:
  assumes "at_edge b s" and "pin_at s = Some (q, repo, r, after)"
  shows "scan action_uses_re b s = Matched (pin_found (q, repo, r, after)) # scan action_uses_re (rev (q @ repo @ ''@'' @ r) @ b) after"
proof -
  have s: "s \<noteq> []" using assms(2) by (auto simp: pin_at_def startswith_def split: if_splits)
  have "match_at action_uses_re b s = Some (pin_found (q, repo, r, after))"
    using assms by (simp add: match_pin)
  moreover have "drop (length (q @ repo @ ''@'' @ r)) s = after"
    using pin_at_split(1) [OF assms(2)] by simp
  ultimately show ?thesis using s
    by (cases s) (simp_all add: group_pin_found del: length_append drop_Suc_Cons)
qed

text \<open>The ref that stands in the new text for the match.\<close>

definition ref_after :: "found \<Rightarrow> string option \<Rightarrow> string" where
  "ref_after m moved = (case moved of None \<Rightarrow> group m ''ref'' | Some r \<Rightarrow> r)"

lemma usable_ref_after:
  assumes "\<And>repo tag. tags repo = Some (Some tag) \<Longrightarrow> tag_usable tag"
    and "new_action_ref tags m = Inr moved" and "tag_usable (group m ''ref'')"
  shows "tag_usable (ref_after m moved)"
  using assms(2,3) new_action_ref_Some [of tags m] assms(1)
  by (cases moved) (auto simp: ref_after_def)

lemma pin_step:
  assumes "at_edge b s" and "pin_at s = Some (q, repo, r, after)"
  defines "m \<equiv> pin_found (q, repo, r, after)"
  shows "replace_actions p tags (scan action_uses_re b s) = Inr (s', us) \<longleftrightarrow>
    (\<exists>moved t vs. new_action_ref tags m = Inr moved
      \<and> replace_actions p tags (scan action_uses_re (rev (found_text m) @ b) after) = Inr (t, vs)
      \<and> s' = q @ repo @ CHR ''@'' # ref_after m moved @ t
      \<and> us = (case moved of None \<Rightarrow> vs | Some r' \<Rightarrow>
          \<lparr>au_file_path = p, au_repository = repo, au_old_ref = r, au_new_ref = r'\<rparr> # vs))"
  unfolding scan_pin [OF assms(1,2)]
  by (auto simp: and_then_ok m_def group_pin_found ref_after_def split: option.splits)

lemma second_pass:
  assumes "\<And>repo tag. tags repo = Some (Some tag) \<Longrightarrow> tag_usable tag"
  shows "replace_actions p tags (scan action_uses_re b s) = Inr (s', us) \<Longrightarrow> same_edge b b' s \<Longrightarrow>
     replace_actions p tags (scan action_uses_re b' s') = Inr (s', []) \<and> alike s s'
     \<and> (s = [] \<longleftrightarrow> s' = []) \<and> (s \<noteq> [] \<longrightarrow> hd s = hd s')
     \<and> rewrite without_ref (scan action_uses_re b' s') = rewrite without_ref (scan action_uses_re b s)"
proof (induction action_uses_re b s arbitrary: b' s' us rule: scan.induct)
  case (1 b)
  then show ?case by (simp add: alike_def)
next
  case (2 b x xs)
  show ?case
  proof (cases "match_at action_uses_re b (x # xs)")
    case None
    then obtain t where s': "s' = x # t" and t: "replace_actions p tags (scan action_uses_re (x # b) xs) = Inr (t, us)"
      using "2.prems"(1) by (auto simp: and_then_ok simp del: lit.simps)
    have "same_edge (x # b) (x # b') xs" by (simp add: same_edge_def)
    note ih = "2.hyps"(1) [OF None t this]
    have a: "alike (x # xs) (x # t)" using ih by (intro alike_Cons) auto
    have "match_at action_uses_re b' (x # t) = None"
      by (rule no_pin_transfers [OF None a "2.prems"(2)]) simp_all
    then show ?thesis using None ih a by (simp add: s' and_then_ok)
  next
    case (Some m)
    then obtain q repo r after where pin: "pin_at (x # xs) = Some (q, repo, r, after)" and edge: "at_edge b (x # xs)"
      and m: "m = pin_found (q, repo, r, after)"
      by (auto simp: match_pin split: if_splits)
    note split = pin_at_split [OF pin]
    have full: "found_text m \<noteq> []" by (simp add: m group_pin_found)
    have rest: "drop (length (found_text m)) (x # xs) = after"
      using split(1) by (simp add: m group_pin_found)
    note step = pin_step [OF edge pin, folded m]
    from step "2.prems"(1) obtain moved t vs where moved: "new_action_ref tags m = Inr moved"
      and t: "replace_actions p tags (scan action_uses_re (rev (found_text m) @ b) after) = Inr (t, vs)"
      and s': "s' = q @ repo @ CHR ''@'' # ref_after m moved @ t"
      by (auto simp: m group_pin_found)
    let ?b' = "rev (q @ repo @ ''@'' @ ref_after m moved) @ b'"
    have usable: "tag_usable (ref_after m moved)"
      using usable_ref_after [OF assms moved] split(2,3) by (simp add: m group_pin_found tag_usable_def)
    have "same_edge (rev (found_text m) @ b) ?b' after"
      using split(4) by (auto simp: same_edge_def str_simps)
    note ih = "2.hyps"(3) [OF Some full, unfolded rest, OF t this]
    note new = pin_moved [OF pin usable, of t, folded s']
    let ?m = "pin_found (q, repo, ref_after m moved, t)"
    have pin': "pin_at s' = Some (q, repo, ref_after m moved, t)" and a: "alike (x # xs) s'"
      and hd: "s' \<noteq> []" "x = hd s'"
      using new ih by (auto simp: s')
    have edge': "at_edge b' s'"
      using edge "2.prems"(2) pin_at_u [of "x # xs"] pin hd by (auto simp: same_edge_def at_edge_def)
    have "new_action_ref tags ?m = Inr None"
      by (rule new_action_ref_settles [OF moved]) (auto simp: m group_pin_found ref_after_def split: option.split)
    with ih have again: "replace_actions p tags (scan action_uses_re b' s') = Inr (s', [])"
      unfolding pin_step [OF edge' pin'] by (auto simp: s' group_pin_found ref_after_def)
    have "rewrite without_ref (scan action_uses_re b' s') = rewrite without_ref (scan action_uses_re b (x # xs))"
      using ih unfolding scan_pin [OF edge' pin'] scan_pin [OF edge pin]
      by (simp add: without_ref_def group_pin_found m)
    with again a hd show ?thesis by simp
  qed
qed

text \<open>
  C35. Updating the pins of a workflow is settled after one run: when the update of a text
  succeeds, every reported update moves a pin to the latest tag of its repository and across a
  major version, the text with the refs of its pins left out is what it was, and updating the
  new text with the same tags changes nothing and reports nothing. The tags are texts that can
  stand in a pin (not empty, no white space, no number sign), and no tag of docker/compose was
  looked up.
\<close>

theorem workflow_update_settles:
  assumes "updated_workflow_action_text p workflow_text tags tools = Inr (updated_text, updates)"
    and "\<And>repo tag. tags repo = Some (Some tag) \<Longrightarrow> tag_usable tag"
    and "tools docker_compose_repository = None"
  shows "list_all (moves_major tags) updates
    \<and> re_sub action_uses_re without_ref updated_text = re_sub action_uses_re without_ref workflow_text
    \<and> updated_workflow_action_text p updated_text tags tools = Inr (updated_text, [])"
proof -
  have plain: "updated_workflow_action_text p t tags tools = replace_actions p tags (scan action_uses_re [] t)" for t
    using assms(3)
    by (cases "replace_actions p tags (scan action_uses_re [] t)")
      (auto simp: updated_workflow_action_text_def updated_setup_compose_version_text_def scan_text_def)
  have edge: "same_edge [] [] workflow_text" by (simp add: same_edge_def)
  note first = assms(1) [unfolded plain]
  from second_pass [of tags, OF assms(2) first edge] replace_actions_moves [OF first]
  show ?thesis by (simp add: plain re_sub_def scan_text_def)
qed

definition checkout_tags :: "string \<rightharpoonup> string option" where
  "checkout_tags = [''actions/checkout'' \<mapsto> Some ''v5'']"

lemma workflow_update_settles_witness:
  "let old = ''- uses: actions/checkout@v4 # pin''; new = ''- uses: actions/checkout@v5 # pin''
   in updated_workflow_action_text [''ci.yml''] old checkout_tags Map.empty
        = Inr (new, [\<lparr>au_file_path = [''ci.yml''], au_repository = ''actions/checkout'', au_old_ref = ''v4'', au_new_ref = ''v5''\<rparr>])
      \<and> updated_workflow_action_text [''ci.yml''] new checkout_tags Map.empty = Inr (new, [])"
proof -
  let ?old = "''- uses: actions/checkout@v4 # pin''"
  have first: "updated_workflow_action_text [''ci.yml''] ?old checkout_tags Map.empty
      = Inr (''- uses: actions/checkout@v5 # pin'', [\<lparr>au_file_path = [''ci.yml''], au_repository = ''actions/checkout'', au_old_ref = ''v4'', au_new_ref = ''v5''\<rparr>])"
    by code_simp
  have usable: "checkout_tags repo = Some (Some tag) \<Longrightarrow> tag_usable tag" for repo tag
    by (auto simp: checkout_tags_def tag_usable_def str_simps split: if_splits)
  from workflow_update_settles [OF first usable] first show ?thesis by (simp add: Let_def)
qed

end
