(* ===== verification/Histories.thy ===== *)
theory Histories
  imports Token_Properties User_Properties
begin

text \<open>
  Whole histories of the service: any sequence of requests, one transaction after the other,
  each under its own settings and readings of the clock, whatever the earlier ones answered and
  also when the database failed in one of them. What a request can do to the tables is a step
  relation; what holds of every history is proved by induction over its steps.
\<close>

section \<open>Requests\<close>

record deployment =
  dp_lib :: lib
  dp_tokens :: token_settings
  dp_passwords :: password_service_settings

datatype request =
    Issue_Request issue_token_dto token_request_context_dto
  | Refresh_Request refresh_token_dto
  | Revoke_Request refresh_token_dto int
  | Register_Request register_user_dto
  | Current_User_Request int
  | Lookup_Request int int

datatype answer = Tokens token_dto | Done | One_User user | Perhaps_User "user option"

definition answer_with :: "('a \<Rightarrow> answer) \<Rightarrow> ('w, exn, 'a) prog \<Rightarrow> ('w, exn, answer) prog" where
  "answer_with f m = bind_p m (\<lambda>x. ret (f x))"

fun serve :: "deployment \<Rightarrow> request \<Rightarrow> ('db world, exn, answer) prog" where
  "serve d (Issue_Request data context) =
     answer_with Tokens (issue_token (world_runtime (dp_lib d)) (dp_tokens d) sqlalchemy_unit_of_work data context)"
| "serve d (Refresh_Request data) =
     answer_with Tokens (refresh_token (world_runtime (dp_lib d)) (dp_tokens d) sqlalchemy_unit_of_work data)"
| "serve d (Revoke_Request data user_id) =
     answer_with (\<lambda>u. Done) (revoke_token (world_runtime (dp_lib d)) sqlalchemy_unit_of_work data user_id)"
| "serve d (Register_Request data) =
     answer_with One_User (register_user (world_runtime (dp_lib d)) (dp_passwords d) sqlalchemy_unit_of_work data)"
| "serve d (Current_User_Request user_id) =
     answer_with Perhaps_User (get_active_user_by_id sqlalchemy_unit_of_work user_id)"
| "serve d (Lookup_Request user_id actor_user_id) =
     answer_with Perhaps_User (staff_user_lookup sqlalchemy_unit_of_work user_id actor_user_id)"

text \<open>A request is a task of its own: its context variable has no scope, whatever the last
  request left in its own.\<close>

definition in_new_context :: "'db world \<Rightarrow> 'db world" where
  "in_new_context w = w\<lparr>w_scope := None\<rparr>"

fun serve_all :: "(deployment \<times> request) list \<Rightarrow> 'db world \<Rightarrow> (exn + answer) list \<times> 'db world" where
  "serve_all [] w = ([], w)"
| "serve_all ((d, q) # qs) w =
     (case serve d q (in_new_context w) of (r, w1) \<Rightarrow>
        case serve_all qs w1 of (rs, w2) \<Rightarrow> (r # rs, w2))"

section \<open>What a request does to the tables\<close>

text \<open>The steps: the new hashes are those of tokens drawn by the request.\<close>

inductive table_step :: "string set \<Rightarrow> tables \<Rightarrow> tables \<Rightarrow> bool" for hashes where
  nothing: "table_step hashes t t"
| user_added: "table_step hashes t (t\<lparr>t_users := t_users t @ [m]\<rparr>)"
| session_added: "sr_refresh_token_hash r \<in> hashes \<Longrightarrow> sr_revoked_at r = None \<Longrightarrow>
    table_step hashes t (t\<lparr>t_sessions := t_sessions t @ [r]\<rparr>)"
| session_rotated: "r \<in> set (t_sessions t) \<Longrightarrow> sr_revoked_at r = None \<Longrightarrow> h \<in> hashes \<Longrightarrow>
    table_step hashes t (update_session_row (sr_id r) (next_row h n) t)"
| session_revoked: "r \<in> set (t_sessions t) \<Longrightarrow> sr_revoked_at r = None \<Longrightarrow>
    table_step hashes t (update_session_row (sr_id r) (revoked_row n) t)"

inductive_cases table_stepE: "table_step hashes t t'"

definition drawn_hashes :: "deployment \<Rightarrow> string set" where
  "drawn_hashes d = lib_sha256_hexdigest (dp_lib d) ` tokens_of (dp_lib d)"

lemma session_of_token_in:
  "session_of_token hash t token = Some r \<Longrightarrow> r \<in> set (t_sessions t) \<and> sr_refresh_token_hash r = hash token"
  by (auto simp: session_of_token_def dest: find_SomeD)

lemma answer_with_run:
  "answer_with f m w = (r, w') \<longleftrightarrow> (\<exists>x. m w = (x, w') \<and> r = map_sum id f x)"
  by (auto simp: answer_with_def bind_p_def ret_def split: prod.splits sum.splits)

lemma answer_with_Inr:
  "answer_with f m w = (Inr a, w') \<longleftrightarrow> (\<exists>x. m w = (Inr x, w') \<and> a = f x)"
  by (auto simp: answer_with_def bind_p_def ret_def split: prod.splits sum.splits)

lemma new_context_idle: "v_sound sql_view w \<Longrightarrow> v_idle sql_view (in_new_context w) \<and> committed_of (in_new_context w) = committed_of w"
  by (auto simp: sql_view_iffs in_new_context_def committed_of_def)

lemma transacts_step:
  assumes "transacts sql_view m Q E" and "v_sound sql_view w" and "m (in_new_context w) = (r, w')"
    and "\<And>x t'. Q (committed_of w) x t' \<Longrightarrow> table_step hashes (committed_of w) t'"
  shows "v_sound sql_view w' \<and> table_step hashes (committed_of w) (committed_of w')"
  using transacts_always [OF assms(1) new_context_idle [OF assms(2), THEN conjunct1] assms(3)]
    new_context_idle [OF assms(2)] assms(4)
  by (auto simp: sql_view_iffs intro: table_step.nothing)

lemma serve_step:
  assumes "v_sound sql_view w" and "serve d q (in_new_context w) = (r, w')"
  shows "v_sound sql_view w' \<and> table_step (drawn_hashes d) (committed_of w) (committed_of w')"
proof (cases q)
  case (Issue_Request data ctx)
  with assms(2) obtain x where run: "issue_token (world_runtime (dp_lib d)) (dp_tokens d) sqlalchemy_unit_of_work data ctx
      (in_new_context w) = (x, w')"
    by (auto simp: answer_with_run)
  show ?thesis
    by (rule transacts_step [OF app.issue_token_transacts assms(1) run])
      (auto simp: fresh_session_def drawn_hashes_def intro!: table_step.session_added)
next
  case (Refresh_Request data)
  with assms(2) obtain x where run: "refresh_token (world_runtime (dp_lib d)) (dp_tokens d) sqlalchemy_unit_of_work data
      (in_new_context w) = (x, w')"
    by (auto simp: answer_with_run)
  show ?thesis
    by (rule transacts_step [OF app.refresh_token_transacts assms(1) run])
      (auto simp: rotates_def usable_at_def drawn_hashes_def intro!: table_step.session_rotated dest: session_of_token_in)
next
  case (Revoke_Request data i)
  with assms(2) obtain x where run: "revoke_token (world_runtime (dp_lib d)) sqlalchemy_unit_of_work data i
      (in_new_context w) = (x, w')"
    by (auto simp: answer_with_run)
  show ?thesis
    by (rule transacts_step [OF app.revoke_token_transacts assms(1) run])
      (auto simp: usable_at_def intro!: table_step.session_revoked dest: session_of_token_in)
next
  case (Register_Request data)
  with assms(2) obtain x where run: "register_user (world_runtime (dp_lib d)) (dp_passwords d) sqlalchemy_unit_of_work data
      (in_new_context w) = (x, w')"
    by (auto simp: answer_with_run)
  show ?thesis
    by (rule transacts_step [OF app.register_user_transacts assms(1) run]) (auto intro: table_step.user_added)
next
  case (Current_User_Request i)
  with assms(2) obtain x where run: "get_active_user_by_id sqlalchemy_unit_of_work i (in_new_context w) = (x, w')"
    by (auto simp: answer_with_run)
  show ?thesis
    by (rule transacts_step [OF app.get_active_user_by_id_transacts assms(1) run]) (auto intro: table_step.nothing)
next
  case (Lookup_Request i j)
  with assms(2) obtain x where run: "staff_user_lookup sqlalchemy_unit_of_work i j (in_new_context w) = (x, w')"
    by (auto simp: answer_with_run)
  show ?thesis
    by (rule transacts_step [OF app.staff_user_lookup_transacts assms(1) run]) (auto intro: table_step.nothing)
qed

section \<open>Sessions wind down\<close>

text \<open>
  What stays of a session row: its identity, its user, the time it was created and the time it
  expires; its counter does not fall, and a revoked row stays as it is.
\<close>

definition continues :: "session_row \<Rightarrow> session_row \<Rightarrow> bool" where
  "continues r r' =
     (sr_id r' = sr_id r \<and> sr_user_id r' = sr_user_id r \<and> sr_created_at r' = sr_created_at r
      \<and> sr_expires_at r' = sr_expires_at r \<and> sr_user_agent r' = sr_user_agent r
      \<and> sr_ip_address_trace r' = sr_ip_address_trace r
      \<and> sr_rotation_counter r \<le> sr_rotation_counter r'
      \<and> (sr_revoked_at r \<noteq> None \<longrightarrow> r' = r)
      \<and> (sr_refresh_token_hash r' \<noteq> sr_refresh_token_hash r \<longrightarrow> sr_rotation_counter r < sr_rotation_counter r'))"

definition winds_down :: "tables \<Rightarrow> tables \<Rightarrow> bool" where
  "winds_down t t' =
     (take (length (t_users t)) (t_users t') = t_users t
      \<and> length (t_sessions t) \<le> length (t_sessions t')
      \<and> list_all2 continues (t_sessions t) (take (length (t_sessions t)) (t_sessions t')))"

lemma continues_refl [simp]: "continues r r"
  by (simp add: continues_def)

lemma continues_trans: "continues a b \<Longrightarrow> continues b c \<Longrightarrow> continues a c"
  by (auto simp: continues_def)

lemma winds_down_refl [simp]: "winds_down t t"
  by (simp add: winds_down_def list_all2_same)

lemma winds_down_trans:
  assumes "winds_down a b" and "winds_down b c"
  shows "winds_down a c"
proof -
  let ?m = "length (t_users a)" and ?n = "length (t_sessions a)"
  have len: "?m \<le> length (t_users b)" "?n \<le> length (t_sessions b)"
    using assms(1) unfolding winds_down_def by (metis length_take min.absorb_iff2 min.commute, blast)
  have users: "take ?m (t_users c) = t_users a"
  proof -
    have "take ?m (t_users c) = take ?m (take (length (t_users b)) (t_users c))" using len(1) by (simp add: min_def)
    also have "\<dots> = t_users a" using assms by (simp add: winds_down_def)
    finally show ?thesis .
  qed
  have "list_all2 continues (take ?n (t_sessions b)) (take ?n (take (length (t_sessions b)) (t_sessions c)))"
    using assms(2) by (intro list_all2_takeI) (simp add: winds_down_def)
  with len(2) have "list_all2 continues (take ?n (t_sessions b)) (take ?n (t_sessions c))" by (simp add: min_def)
  moreover have "list_all2 continues (t_sessions a) (take ?n (t_sessions b))"
    using assms(1) by (simp add: winds_down_def)
  ultimately have "list_all2 continues (t_sessions a) (take ?n (t_sessions c))"
    using list_all2_trans [of continues continues continues] continues_trans by blast
  with users len(2) assms(2) show ?thesis by (simp add: winds_down_def)
qed

lemma winds_down_update:
  assumes "schema_ok t" and "r \<in> set (t_sessions t)" and "continues r (f r)"
  shows "winds_down t (update_session_row (sr_id r) f t)"
proof -
  have "continues x (if sr_id x = sr_id r then f x else x)" if "x \<in> set (t_sessions t)" for x
    using session_by_id_unique [OF assms(1) that assms(2)] assms(3) by auto
  then show ?thesis
    by (auto simp: winds_down_def update_session_row_def list_all2_conv_all_nth)
qed

lemma table_step_winds_down: "table_step hashes t t' \<Longrightarrow> schema_ok t \<Longrightarrow> winds_down t t'"
proof (induction rule: table_step.induct)
  case (session_rotated r t h n)
  then show ?case by (intro winds_down_update) (auto simp: continues_def next_row_def)
next
  case (session_revoked r t n)
  then show ?case by (intro winds_down_update) (auto simp: continues_def revoked_row_def)
qed (simp_all add: winds_down_def list_all2_same)

lemma serve_all_winds_down:
  "v_sound sql_view w \<Longrightarrow> serve_all qs w = (rs, w') \<Longrightarrow>
   v_sound sql_view w' \<and> winds_down (committed_of w) (committed_of w')"
proof (induction qs arbitrary: w rs)
  case (Cons dq qs)
  obtain d q where dq: "dq = (d, q)" by (cases dq)
  from Cons.prems(2) obtain r w1 rs' where step: "serve d q (in_new_context w) = (r, w1)"
    and rest: "serve_all qs w1 = (rs', w')"
    by (auto simp: dq split: prod.splits)
  from serve_step [OF Cons.prems(1) step] Cons.prems(1) have "v_sound sql_view w1"
    and "winds_down (committed_of w) (committed_of w1)"
    by (auto simp: sql_sound_iff intro: table_step_winds_down)
  with Cons.IH [OF _ rest] show ?case by (blast intro: winds_down_trans)
qed simp

section \<open>Spent tokens\<close>

text \<open>No session can be continued with the token of the hash.\<close>

definition dead :: "string \<Rightarrow> tables \<Rightarrow> bool" where
  "dead h t = list_all (\<lambda>r. sr_refresh_token_hash r = h \<longrightarrow> sr_revoked_at r \<noteq> None) (t_sessions t)"

lemma table_step_dead: "table_step hashes t t' \<Longrightarrow> h \<notin> hashes \<Longrightarrow> dead h t \<Longrightarrow> dead h t'"
  by (induction rule: table_step.induct)
    (auto simp: dead_def list_all_iff update_session_row_def next_row_def revoked_row_def)

fun presents :: "request \<Rightarrow> string \<Rightarrow> bool" where
  "presents (Refresh_Request data) token = (rt_refresh_token data = token)"
| "presents (Revoke_Request data user_id) token = (rt_refresh_token data = token)"
| "presents q token = False"

lemma session_of_token_alive:
  assumes "session_of_token hash t token = Some r" and "sr_revoked_at r = None"
  shows "\<not> dead (hash token) t"
  using session_of_token_in [OF assms(1)] assms(2) by (auto simp: dead_def list_all_iff)

text \<open>Nobody gets an answer for a dead token.\<close>

lemma dead_refused:
  assumes "v_sound sql_view w" and "dead (lib_sha256_hexdigest (dp_lib d) token) (committed_of w)"
    and "presents q token" and "serve d q (in_new_context w) = (r, w')"
  shows "\<exists>e. r = Inl e"
proof (rule ccontr)
  assume "\<nexists>e. r = Inl e"
  then obtain a where r: "r = Inr a" by (cases r) auto
  note idle = new_context_idle [OF assms(1)]
  from assms(3) show False
  proof (cases q)
    case (Refresh_Request data)
    with assms(4) obtain x where run: "refresh_token (world_runtime (dp_lib d)) (dp_tokens d) sqlalchemy_unit_of_work data
        (in_new_context w) = (Inr x, w')"
      by (auto simp: answer_with_Inr r)
    from transacts_ok [OF app.refresh_token_transacts idle [THEN conjunct1] run] idle assms(2,3) Refresh_Request
    show False by (auto simp: usable_at_def dest: session_of_token_alive)
  next
    case (Revoke_Request data i)
    with assms(4) obtain x where run: "revoke_token (world_runtime (dp_lib d)) sqlalchemy_unit_of_work data i
        (in_new_context w) = (Inr x, w')"
      by (auto simp: answer_with_Inr r)
    from transacts_ok [OF app.revoke_token_transacts idle [THEN conjunct1] run] idle assms(2,3) Revoke_Request
    show False by (auto simp: usable_at_def dest: session_of_token_alive)
  qed auto
qed

text \<open>The answer that spends a token leaves it dead.\<close>

fun replaces :: "(string \<Rightarrow> string) \<Rightarrow> string \<Rightarrow> answer \<Rightarrow> bool" where
  "replaces hash token (Tokens x) = (hash (tk_refresh_token x) \<noteq> hash token)"
| "replaces hash token a = True"

lemma find_None_dead: "session_of_token hash t token = None \<Longrightarrow> dead (hash token) t"
  by (auto simp: session_of_token_def dead_def list_all_iff dest: find_NoneD)

lemma spent_dead:
  assumes "v_sound sql_view w" and "presents q token" and "serve d q (in_new_context w) = (Inr a, w')"
    and "replaces (lib_sha256_hexdigest (dp_lib d)) token a"
  shows "dead (lib_sha256_hexdigest (dp_lib d) token) (committed_of w')"
  using assms(2)
proof (cases q)
  case (Refresh_Request data)
  note idle = new_context_idle [OF assms(1)]
  from Refresh_Request assms(3) obtain x where a: "a = Tokens x"
    and run: "refresh_token (world_runtime (dp_lib d)) (dp_tokens d) sqlalchemy_unit_of_work data
      (in_new_context w) = (Inr x, w')"
    by (auto simp: answer_with_Inr)
  from transacts_ok [OF app.refresh_token_transacts idle [THEN conjunct1] run] obtain s y where
    s: "session_of_token (lib_sha256_hexdigest (dp_lib d)) (committed_of w) (rt_refresh_token data) = Some s"
    and y: "rotates (lib_sha256_hexdigest (dp_lib d)) (readings_of (dp_lib d)) (tokens_of (dp_lib d)) s
      (committed_of w) y (committed_of w')" "tk_refresh_token x = rsr_refresh_token y"
    using idle by auto
  have "schema_ok (committed_of w)" using assms(1) by (simp add: sql_sound_iff)
  from rotated_away [OF this s y(1)] y(2) assms(2,4) Refresh_Request a show ?thesis
    by (auto intro: find_None_dead)
next
  case (Revoke_Request data i)
  note idle = new_context_idle [OF assms(1)]
  from Revoke_Request assms(3) obtain x where
    run: "revoke_token (world_runtime (dp_lib d)) sqlalchemy_unit_of_work data i (in_new_context w) = (Inr x, w')"
    by (auto simp: answer_with_Inr)
  from transacts_ok [OF app.revoke_token_transacts idle [THEN conjunct1] run] obtain s n where
    s: "session_of_token (lib_sha256_hexdigest (dp_lib d)) (committed_of w) (rt_refresh_token data) = Some s"
    and w': "committed_of w' = update_session_row (sr_id s) (revoked_row (dt_utc n)) (committed_of w)"
    using idle by auto
  from assms(1) have ok: "schema_ok (committed_of w)" by (simp add: sql_sound_iff)
  from session_of_token_in [OF s] have s': "s \<in> set (t_sessions (committed_of w))"
    "sr_refresh_token_hash s = lib_sha256_hexdigest (dp_lib d) token"
    using assms(2) Revoke_Request by auto
  have "x = s" if "x \<in> set (t_sessions (committed_of w))" "sr_refresh_token_hash x = sr_refresh_token_hash s" for x
    using session_by_hash_unique [OF ok that(1) s'(1) that(2)] .
  then show ?thesis
    by (auto simp: w' dead_def list_all_iff update_session_row_def revoked_row_def s'(2))
qed auto

lemma serve_all_dead:
  assumes "serve_all qs w = (rs, w')" and "v_sound sql_view w" and "dead h (committed_of w)"
    and "list_all (\<lambda>(d, q). lib_sha256_hexdigest (dp_lib d) token = h \<and> h \<notin> drawn_hashes d) qs"
  shows "list_all2 (\<lambda>(d, q) r. presents q token \<longrightarrow> (\<exists>e. r = Inl e)) qs rs"
  using assms
proof (induction qs arbitrary: w rs)
  case (Cons dq qs)
  obtain d q where dq: "dq = (d, q)" by (cases dq)
  from Cons.prems(1) obtain r w1 rs' where step: "serve d q (in_new_context w) = (r, w1)"
    and rest: "serve_all qs w1 = (rs', w')" and rs: "rs = r # rs'"
    by (auto simp: dq split: prod.splits)
  from serve_step [OF Cons.prems(2) step] have w1: "v_sound sql_view w1"
    "table_step (drawn_hashes d) (committed_of w) (committed_of w1)" by auto
  from table_step_dead [OF w1(2) _ Cons.prems(3)] Cons.prems(4) have "dead h (committed_of w1)" by (simp add: dq)
  from Cons.IH [OF rest w1(1) this] Cons.prems(4) dead_refused [OF Cons.prems(2) _ _ step] Cons.prems(3)
  show ?case by (auto simp: dq rs)
qed simp

section \<open>Properties of every history\<close>

text \<open>
  C4. A refresh token is spent for good: once a request answered with it, a refresh or a
  revocation, every later request that presents it raises, in any history of requests of any kind,
  under any settings, with any interruption by the database. The hypotheses are that the tokens
  drawn from then on, that of the answer included, do not have the hash of the spent one.
\<close>

theorem spent_token_stays_spent:
  assumes "v_sound sql_view w" and "presents q token"
    and "serve d q (in_new_context w) = (Inr a, w1)"
    and "replaces (lib_sha256_hexdigest (dp_lib d)) token a"
    and "list_all (\<lambda>(d', q'). lib_sha256_hexdigest (dp_lib d') token = lib_sha256_hexdigest (dp_lib d) token
      \<and> lib_sha256_hexdigest (dp_lib d) token \<notin> drawn_hashes d') qs"
    and "serve_all qs w1 = (rs, w')"
  shows "list_all2 (\<lambda>(d', q') r. presents q' token \<longrightarrow> (\<exists>e. r = Inl e)) qs rs"
  by (rule serve_all_dead [OF assms(6) _ spent_dead [OF assms(1,2,3,4)] assms(5)])
    (use serve_step [OF assms(1,3)] in simp)

definition sample_deployment :: deployment where
  "sample_deployment = \<lparr>dp_lib = sample_lib, dp_tokens = sample_settings,
     dp_passwords = \<lparr>pss_min_length = 8, pss_max_length = 128\<rparr>\<rparr>"

definition sample_history :: "(deployment \<times> request) list" where
  "sample_history = map (Pair sample_deployment)
     [Refresh_Request \<lparr>rt_refresh_token = ''old''\<rparr>,
      Issue_Request \<lparr>it_username = ''alice'', it_password = ''correct horse''\<rparr>
        \<lparr>tc_user_agent = ''curl'', tc_ip_address_trace = None\<rparr>,
      Revoke_Request \<lparr>rt_refresh_token = ''old''\<rparr> 1]"

lemma sample_sound: "v_sound sql_view (world_of sample_tables)"
  using sample_idle by (simp add: sql_view_iffs)

lemma sample_fresh: "''sha:old'' \<notin> drawn_hashes sample_deployment"
  by (auto simp: drawn_hashes_def sample_deployment_def sample_lib_def tokens_of_def)

lemma spent_token_stays_spent_witness:
  "let first = serve sample_deployment (Refresh_Request \<lparr>rt_refresh_token = ''old''\<rparr>)
         (in_new_context (world_of sample_tables))
   in fst first = Inr (Tokens \<lparr>tk_access_token = ''1'', tk_refresh_token = ''token-1''\<rparr>)
     \<and> list_all2 (\<lambda>(d', q') r. presents q' ''old'' \<longrightarrow> (\<exists>e. r = Inl e)) sample_history
         (fst (serve_all sample_history (snd first)))"
proof -
  let ?q = "Refresh_Request \<lparr>rt_refresh_token = ''old''\<rparr>"
  let ?first = "serve sample_deployment ?q (in_new_context (world_of sample_tables))"
  let ?x = "\<lparr>tk_access_token = ''1'', tk_refresh_token = ''token-1''\<rparr>"
  have answer: "fst ?first = Inr (Tokens ?x)" by code_simp
  then have run: "?first = (Inr (Tokens ?x), snd ?first)" by (simp add: prod_eq_iff)
  have hash: "lib_sha256_hexdigest (dp_lib sample_deployment) = (\<lambda>s. ''sha:'' @ s)"
    by (simp add: sample_deployment_def sample_lib_def)
  have later: "list_all (\<lambda>(d', q'). lib_sha256_hexdigest (dp_lib d') ''old''
        = lib_sha256_hexdigest (dp_lib sample_deployment) ''old''
      \<and> lib_sha256_hexdigest (dp_lib sample_deployment) ''old'' \<notin> drawn_hashes d') sample_history"
    using sample_fresh by (simp add: hash sample_history_def)
  have "list_all2 (\<lambda>(d', q') r. presents q' ''old'' \<longrightarrow> (\<exists>e. r = Inl e)) sample_history
      (fst (serve_all sample_history (snd ?first)))"
    by (rule spent_token_stays_spent [OF sample_sound _ run _ later prod.collapse [symmetric]])
      (simp_all add: hash)
  with answer show ?thesis by (simp add: Let_def)
qed

text \<open>
  C5. Sessions only wind down: in any history of requests, also one the database interrupts, no
  row is deleted, no user row changes, every session keeps its id, its user, its time of
  creation and its time of expiry, so that no sequence of refreshes prolongs it; its rotation
  counter never falls and has risen whenever its token changed; and a revoked session keeps its
  row as it is. The constraints of the schema hold at the end.
\<close>

theorem sessions_only_wind_down:
  assumes "v_sound sql_view w" and "serve_all qs w = (rs, w')"
  shows "winds_down (committed_of w) (committed_of w') \<and> schema_ok (committed_of w')"
  using serve_all_winds_down [OF assms] by (simp add: sql_sound_iff)

lemma sessions_only_wind_down_witness:
  "winds_down sample_tables (committed_of (snd (serve_all sample_history (world_of sample_tables))))
   \<and> length (t_sessions (committed_of (snd (serve_all sample_history (world_of sample_tables))))) = 2"
proof
  from sessions_only_wind_down [OF sample_sound prod.collapse [symmetric]]
  show "winds_down sample_tables (committed_of (snd (serve_all sample_history (world_of sample_tables))))"
    by simp
qed code_simp

end
