(* ===== verification/Ledger.thy ===== *)
theory Ledger
  imports Histories
begin

text \<open>
  An abstract account of the token service: a ledger of grants, one per session, each with its
  user, the hash of the one token it can be continued with, its expiry, and whether it was
  revoked. Requests grant, rotate and revoke; every history of the service is one of the ledger.
\<close>

section \<open>The ledger\<close>

record grant =
  gr_user :: int
  gr_hash :: string
  gr_expires :: int
  gr_revoked :: bool

type_synonym ledger = "int \<rightharpoonup> grant"

definition open_at :: "int set \<Rightarrow> grant \<Rightarrow> bool" where
  "open_at readings s = (\<not> gr_revoked s \<and> (\<exists>now \<in> readings. now < gr_expires s))"

text \<open>
  The steps. An answer is given for a grant found by the hash of the submitted token, open at some
  reading of the clock, and for a revocation owned by the user who asks. A refusal leaves the
  ledger alone and has its reason; when the database failed, either nothing happened or the
  step did, which the one who asked cannot tell.
\<close>

inductive ledger_answer :: "deployment \<Rightarrow> request \<Rightarrow> answer \<Rightarrow> ledger \<Rightarrow> ledger \<Rightarrow> bool" for d where
  granted: "g i = None \<Longrightarrow> gr_hash s = lib_sha256_hexdigest (dp_lib d) (tk_refresh_token x) \<Longrightarrow>
    \<forall>s' \<in> ran g. gr_hash s' \<noteq> gr_hash s \<Longrightarrow> \<not> gr_revoked s \<Longrightarrow>
    ledger_answer d (Issue_Request data context) (Tokens x) g (g(i \<mapsto> s))"
| rotated: "g i = Some s \<Longrightarrow> gr_hash s = lib_sha256_hexdigest (dp_lib d) (rt_refresh_token data) \<Longrightarrow>
    open_at (readings_of (dp_lib d)) s \<Longrightarrow>
    ledger_answer d (Refresh_Request data) (Tokens x) g
      (g(i \<mapsto> s\<lparr>gr_hash := lib_sha256_hexdigest (dp_lib d) (tk_refresh_token x)\<rparr>))"
| revoked: "g i = Some s \<Longrightarrow> gr_hash s = lib_sha256_hexdigest (dp_lib d) (rt_refresh_token data) \<Longrightarrow>
    open_at (readings_of (dp_lib d)) s \<Longrightarrow> gr_user s = user_id \<Longrightarrow>
    ledger_answer d (Revoke_Request data user_id) Done g (g(i \<mapsto> s\<lparr>gr_revoked := True\<rparr>))"
| registered: "ledger_answer d (Register_Request data) (One_User usr) g g"
| current_user: "ledger_answer d (Current_User_Request i) (Perhaps_User found) g g"
| looked_up: "ledger_answer d (Lookup_Request i j) (Perhaps_User found) g g"

text \<open>Why a request that presents a token can be refused, as far as the ledger knows.\<close>

definition refusal_fits :: "deployment \<Rightarrow> string \<Rightarrow> exn \<Rightarrow> ledger \<Rightarrow> bool" where
  "refusal_fits d token e g =
     (let held = {s \<in> ran g. gr_hash s = lib_sha256_hexdigest (dp_lib d) token} in
      if e = ExpiredRefreshTokenError
      then \<exists>s \<in> held. gr_revoked s \<or> (\<exists>now \<in> readings_of (dp_lib d). gr_expires s \<le> now)
      else e = InvalidRefreshTokenError \<and> held = {}
        \<or> (\<exists>s \<in> held. open_at (readings_of (dp_lib d)) s) \<or> e = AuthenticatedUserNotFoundError)"

inductive ledger_step :: "deployment \<Rightarrow> request \<Rightarrow> exn + answer \<Rightarrow> ledger \<Rightarrow> ledger \<Rightarrow> bool" for d where
  answered: "ledger_answer d q a g g' \<Longrightarrow> ledger_step d q (Inr a) g g'"
| refused: "\<forall>token. presents q token \<longrightarrow> \<not> signing_error (lib_jwt_encode (dp_lib d)) (ts_jwt (dp_tokens d)) e \<longrightarrow>
    refusal_fits d token e g \<Longrightarrow> \<not> storage_error e \<Longrightarrow> ledger_step d q (Inl e) g g"
| failed: "storage_error e \<Longrightarrow> ledger_step d q (Inl e) g g"
| failed_late: "storage_error e \<Longrightarrow> ledger_answer d q a g g' \<Longrightarrow> ledger_step d q (Inl e) g g'"

fun ledger_run :: "(deployment \<times> request) list \<Rightarrow> (exn + answer) list \<Rightarrow> ledger \<Rightarrow> ledger \<Rightarrow> bool" where
  "ledger_run [] [] g g' = (g' = g)"
| "ledger_run ((d, q) # qs) (r # rs) g g' = (\<exists>g1. ledger_step d q r g g1 \<and> ledger_run qs rs g1 g')"
| "ledger_run _ _ g g' = False"

section \<open>The ledger of the tables\<close>

definition grant_of :: "session_row \<Rightarrow> grant" where
  "grant_of r = \<lparr>gr_user = sr_user_id r, gr_hash = sr_refresh_token_hash r, gr_expires = sr_expires_at r,
     gr_revoked = (sr_revoked_at r \<noteq> None)\<rparr>"

definition ledger_of :: "tables \<Rightarrow> ledger" where
  "ledger_of t = map_of (map (\<lambda>r. (sr_id r, grant_of r)) (t_sessions t))"

lemma ledger_of_in:
  "schema_ok t \<Longrightarrow> r \<in> set (t_sessions t) \<Longrightarrow> ledger_of t (sr_id r) = Some (grant_of r)"
  unfolding ledger_of_def
  by (rule map_of_is_SomeI) (auto simp: o_def schema_sessions)

lemma ran_ledger_of: "schema_ok t \<Longrightarrow> ran (ledger_of t) = grant_of ` set (t_sessions t)"
  unfolding ledger_of_def by (subst ran_distinct) (auto simp: o_def schema_sessions image_image)

lemma ledger_of_None: "ledger_of t i = None \<longleftrightarrow> i \<notin> sr_id ` set (t_sessions t)"
  by (simp add: ledger_of_def map_of_eq_None_iff image_image)

lemma ledger_of_users [simp]: "ledger_of (t\<lparr>t_users := us\<rparr>) = ledger_of t"
  by (simp add: ledger_of_def)

lemma ledger_of_append:
  assumes "sr_id r \<notin> sr_id ` set (t_sessions t)"
  shows "ledger_of (t\<lparr>t_sessions := t_sessions t @ [r]\<rparr>) = (ledger_of t)(sr_id r \<mapsto> grant_of r)"
proof -
  let ?m = "map_of (map (\<lambda>r. (sr_id r, grant_of r)) (t_sessions t))"
  have "dom [sr_id r \<mapsto> grant_of r] \<inter> dom ?m = {}"
    using assms by (simp add: dom_map_of_conv_image_fst image_image)
  from map_add_comm [OF this] show ?thesis by (simp add: ledger_of_def)
qed

lemma ledger_of_update:
  assumes "schema_ok t" and "r \<in> set (t_sessions t)" and "\<And>x. sr_id (f x) = sr_id x"
  shows "ledger_of (update_session_row (sr_id r) f t) = (ledger_of t)(sr_id r \<mapsto> grant_of (f r))"
proof
  fix i
  have "map_of (map (\<lambda>x. (sr_id x, grant_of x)) (map (\<lambda>x. if sr_id x = sr_id r then f x else x) rs)) i
      = (if i = sr_id r then Some (grant_of (f r)) else map_of (map (\<lambda>x. (sr_id x, grant_of x)) rs) i)"
    if "r \<in> set rs" "distinct (map sr_id rs)" for rs
    using that
  proof (induction rs)
    case (Cons x rs)
    have other: "map (\<lambda>y. if sr_id y = sr_id r then f y else y) rs = rs" if "sr_id r \<notin> sr_id ` set rs"
      using that by (intro map_idI) (metis image_eqI)
    show ?case
    proof (cases "x = r")
      case True
      with Cons.prems(2) other show ?thesis by (auto simp: assms(3))
    next
      case False
      with Cons.prems have "r \<in> set rs" "sr_id x \<noteq> sr_id r" by auto
      with Cons.IH Cons.prems(2) show ?thesis by auto
    qed
  qed simp
  from this [OF assms(2) schema_sessions(1) [OF assms(1)]]
  show "ledger_of (update_session_row (sr_id r) f t) i = ((ledger_of t)(sr_id r \<mapsto> grant_of (f r))) i"
    by (simp add: ledger_of_def update_session_row_def del: map_map)
qed

lemma grant_of_rows:
  "grant_of (next_row h n r) = (grant_of r)\<lparr>gr_hash := h\<rparr>"
  "grant_of (revoked_row at r) = (grant_of r)\<lparr>gr_revoked := True\<rparr>"
  by (simp_all add: grant_of_def next_row_def revoked_row_def)

lemma open_grant: "open_at readings (grant_of r) = usable_at readings r"
  by (simp add: open_at_def usable_at_def grant_of_def)

lemma held_grants:
  assumes "schema_ok t"
  shows "{s \<in> ran (ledger_of t). gr_hash s = hash token} = (case session_of_token hash t token of None \<Rightarrow> {} | Some r \<Rightarrow> {grant_of r})"
proof -
  let ?rows = "{r \<in> set (t_sessions t). sr_refresh_token_hash r = hash token}"
  have rows: "{s \<in> ran (ledger_of t). gr_hash s = hash token} = grant_of ` ?rows"
    unfolding ran_ledger_of [OF assms] by (auto simp: grant_of_def)
  show ?thesis
  proof (cases "session_of_token hash t token")
    case None
    then have "?rows = {}" by (auto simp: session_of_token_def dest: find_NoneD)
    then show ?thesis unfolding rows None by simp
  next
    case (Some r)
    from session_of_token_in [OF this] have r: "r \<in> set (t_sessions t)" "sr_refresh_token_hash r = hash token" by auto
    have "x = r" if "x \<in> set (t_sessions t)" "sr_refresh_token_hash x = hash token" for x
      by (rule session_by_hash_unique [OF assms that(1) r(1)]) (simp add: that(2) r(2))
    with r have "?rows = {r}" by blast
    then show ?thesis unfolding rows Some by simp
  qed
qed

section \<open>The service implements the ledger\<close>

lemma issue_ledger:
  assumes "schema_ok t" and "schema_ok t'" and "t' = t\<lparr>t_sessions := t_sessions t @ [r]\<rparr>"
    and "sr_refresh_token_hash r = lib_sha256_hexdigest (dp_lib d) (tk_refresh_token x)" and "sr_revoked_at r = None"
  shows "ledger_answer d (Issue_Request data ctx) (Tokens x) (ledger_of t) (ledger_of t')"
proof -
  from schema_sessions [OF assms(2)] assms(3)
  have "sr_id r \<notin> sr_id ` set (t_sessions t)" "sr_refresh_token_hash r \<notin> sr_refresh_token_hash ` set (t_sessions t)"
    by auto
  then show ?thesis
    unfolding assms(3) ledger_of_append [OF \<open>sr_id r \<notin> sr_id ` set (t_sessions t)\<close>]
    by (intro ledger_answer.granted)
      (use assms(4,5) \<open>sr_refresh_token_hash r \<notin> _\<close> in
        \<open>auto simp: ledger_of_None ran_ledger_of [OF assms(1)] grant_of_def image_iff\<close>)
qed

lemma refresh_ledger:
  assumes "schema_ok t" and "session_of_token (lib_sha256_hexdigest (dp_lib d)) t (rt_refresh_token data) = Some r"
    and "usable_at (readings_of (dp_lib d)) r"
    and "rotates (lib_sha256_hexdigest (dp_lib d)) (readings_of (dp_lib d)) tokens r t y t'"
    and "tk_refresh_token x = rsr_refresh_token y"
  shows "ledger_answer d (Refresh_Request data) (Tokens x) (ledger_of t) (ledger_of t')"
proof -
  from session_of_token_in [OF assms(2)] have r: "r \<in> set (t_sessions t)"
    "sr_refresh_token_hash r = lib_sha256_hexdigest (dp_lib d) (rt_refresh_token data)" by auto
  from assms(4) obtain n where t': "t' = update_session_row (sr_id r)
      (next_row (lib_sha256_hexdigest (dp_lib d) (rsr_refresh_token y)) n) t"
    by (auto simp: rotates_def)
  have g: "ledger_of t' = (ledger_of t)(sr_id r \<mapsto> (grant_of r)\<lparr>gr_hash := lib_sha256_hexdigest (dp_lib d) (tk_refresh_token x)\<rparr>)"
    unfolding t' assms(5) by (subst ledger_of_update [OF assms(1) r(1)]) (simp_all add: next_row_def grant_of_def)
  show ?thesis
    unfolding g
    by (rule ledger_answer.rotated [where g = "ledger_of t" and i = "sr_id r" and s = "grant_of r"])
      (use r(2) assms(3) ledger_of_in [OF assms(1) r(1)] in \<open>simp_all add: grant_of_def open_at_def usable_at_def\<close>)
qed

lemma revoke_ledger:
  assumes "schema_ok t" and "session_of_token (lib_sha256_hexdigest (dp_lib d)) t (rt_refresh_token data) = Some r"
    and "usable_at (readings_of (dp_lib d)) r" and "sr_user_id r = user_id"
  shows "ledger_answer d (Revoke_Request data user_id) Done (ledger_of t)
    (ledger_of (update_session_row (sr_id r) (revoked_row at) t))"
proof -
  from session_of_token_in [OF assms(2)] have r: "r \<in> set (t_sessions t)"
    "sr_refresh_token_hash r = lib_sha256_hexdigest (dp_lib d) (rt_refresh_token data)" by auto
  have g: "ledger_of (update_session_row (sr_id r) (revoked_row at) t)
      = (ledger_of t)(sr_id r \<mapsto> (grant_of r)\<lparr>gr_revoked := True\<rparr>)"
    by (subst ledger_of_update [OF assms(1) r(1)]) (simp_all add: revoked_row_def grant_of_def)
  show ?thesis
    unfolding g
    by (rule ledger_answer.revoked [where g = "ledger_of t" and i = "sr_id r" and s = "grant_of r"])
      (use r(2) assms(3,4) ledger_of_in [OF assms(1) r(1)] in \<open>simp_all add: grant_of_def open_at_def usable_at_def\<close>)
qed

text \<open>A transaction whose effects and refusals are those of the ledger is a step of it.\<close>

lemma transacts_ledger:
  assumes "transacts sql_view m Q E" and "v_sound sql_view w" and "answer_with f m (in_new_context w) = (r, w')"
    and "v_sound sql_view w'"
    and "\<And>x t'. schema_ok t' \<Longrightarrow> Q (committed_of w) x t' \<Longrightarrow>
      ledger_answer d q (f x) (ledger_of (committed_of w)) (ledger_of t')"
    and "\<And>e token. E (committed_of w) e \<Longrightarrow> \<not> storage_error e \<Longrightarrow> presents q token \<Longrightarrow>
      \<not> signing_error (lib_jwt_encode (dp_lib d)) (ts_jwt (dp_tokens d)) e \<Longrightarrow>
      refusal_fits d token e (ledger_of (committed_of w))"
  shows "ledger_step d q r (ledger_of (committed_of w)) (ledger_of (committed_of w'))"
proof -
  note idle = new_context_idle [OF assms(2)]
  from assms(3) obtain r0 where m: "m (in_new_context w) = (r0, w')" and r: "r = map_sum id f r0"
    by (auto simp: answer_with_run)
  have ok: "schema_ok (committed_of w')" using assms(4) by (simp add: sql_sound_iff)
  show ?thesis
  proof (cases r0)
    case (Inr x)
    with transacts_ok [OF assms(1) idle [THEN conjunct1] m [unfolded Inr]] idle assms(5) [OF ok]
    show ?thesis by (simp add: r ledger_step.answered)
  next
    case (Inl e)
    show ?thesis
    proof (cases "storage_error e")
      case True
      from transacts_always [OF assms(1) idle [THEN conjunct1] m] idle assms(5) [OF ok] True Inl
      show ?thesis by (auto simp: r intro: ledger_step.failed ledger_step.failed_late)
    next
      case False
      with transacts_err [OF assms(1) idle [THEN conjunct1] m [unfolded Inl] False] idle assms(6) Inl
      show ?thesis by (auto simp: r intro!: ledger_step.refused)
    qed
  qed
qed

lemma rejected_fits:
  assumes "schema_ok t" and "token_rejected (lib_sha256_hexdigest (dp_lib d)) (readings_of (dp_lib d)) token t e"
  shows "refusal_fits d token e (ledger_of t)"
  using assms(2)
  by (auto simp: refusal_fits_def Let_def held_grants [OF assms(1)] token_rejected_def spent_at_def grant_of_def)

lemma usable_fits:
  assumes "schema_ok t" and "session_of_token (lib_sha256_hexdigest (dp_lib d)) t token = Some r"
    and "usable_at (readings_of (dp_lib d)) r" and "e \<noteq> ExpiredRefreshTokenError"
  shows "refusal_fits d token e (ledger_of t)"
  using assms(3,4) by (simp add: refusal_fits_def Let_def held_grants [OF assms(1)] assms(2) open_grant)

lemma unknown_user_fits: "refusal_fits d token AuthenticatedUserNotFoundError g"
  by (simp add: refusal_fits_def Let_def)

lemma serve_ledger:
  assumes "v_sound sql_view w" and "serve d q (in_new_context w) = (r, w')"
  shows "ledger_step d q r (ledger_of (committed_of w)) (ledger_of (committed_of w'))"
proof -
  from serve_step [OF assms] have sound: "v_sound sql_view w'" by simp
  have ok: "schema_ok (committed_of w)" using assms(1) by (simp add: sql_sound_iff)
  show ?thesis
  proof (cases q)
    case (Issue_Request data ctx)
    show ?thesis
      unfolding Issue_Request
      by (rule transacts_ledger [OF app.issue_token_transacts assms(1) _ sound])
        (use assms(2) Issue_Request issue_ledger [OF ok] in \<open>auto simp: fresh_session_def\<close>)
  next
    case (Refresh_Request data)
    show ?thesis
      unfolding Refresh_Request
      by (rule transacts_ledger [OF app.refresh_token_transacts assms(1) _ sound])
        (use assms(2) Refresh_Request in
          \<open>auto intro: refresh_ledger [OF ok] rejected_fits [OF ok] usable_fits [OF ok]\<close>)
  next
    case (Revoke_Request data i)
    show ?thesis
      unfolding Revoke_Request
      by (rule transacts_ledger [OF app.revoke_token_transacts assms(1) _ sound])
        (use assms(2) Revoke_Request in
          \<open>auto intro: revoke_ledger [OF ok] rejected_fits [OF ok] usable_fits [OF ok] unknown_user_fits\<close>)
  next
    case (Register_Request data)
    show ?thesis
      unfolding Register_Request
      by (rule transacts_ledger [OF app.register_user_transacts assms(1) _ sound])
        (use assms(2) Register_Request in \<open>auto intro: ledger_answer.registered\<close>)
  next
    case (Current_User_Request i)
    show ?thesis
      unfolding Current_User_Request
      by (rule transacts_ledger [OF app.get_active_user_by_id_transacts assms(1) _ sound])
        (use assms(2) Current_User_Request in \<open>auto intro: ledger_answer.current_user\<close>)
  next
    case (Lookup_Request i j)
    show ?thesis
      unfolding Lookup_Request
      by (rule transacts_ledger [OF app.staff_user_lookup_transacts assms(1) _ sound])
        (use assms(2) Lookup_Request in \<open>auto intro: ledger_answer.looked_up\<close>)
  qed
qed

lemma serve_all_ledger:
  "v_sound sql_view w \<Longrightarrow> serve_all qs w = (rs, w') \<Longrightarrow>
   ledger_run qs rs (ledger_of (committed_of w)) (ledger_of (committed_of w'))"
proof (induction qs arbitrary: w rs)
  case (Cons dq qs)
  obtain d q where dq: "dq = (d, q)" by (cases dq)
  from Cons.prems(2) obtain r w1 rs' where step: "serve d q (in_new_context w) = (r, w1)"
    and rest: "serve_all qs w1 = (rs', w')" and rs: "rs = r # rs'"
    by (auto simp: dq split: prod.splits)
  from serve_step [OF Cons.prems(1) step] have "v_sound sql_view w1" by simp
  from Cons.IH [OF this rest] serve_ledger [OF Cons.prems(1) step] show ?case
    by (auto simp: dq rs)
qed simp

text \<open>
  C3. The service implements the ledger of grants: every history of requests, each under its own
  settings and clock and with any interruption by the database, together with its answers, is a
  run of the abstract ledger between the ledgers of the tables before and after it. In the
  ledger a login adds an open grant under a hash no grant has, a refresh answers only for an
  open grant with the token's hash and moves the grant to the new token, a revocation closes such
  a grant of its own user, other requests and refusals change nothing, each refusal of a token
  has a reason in the ledger, and a failure of the database is the step or no step.
\<close>

theorem service_implements_ledger:
  assumes "v_sound sql_view w" and "serve_all qs w = (rs, w')"
  shows "ledger_run qs rs (ledger_of (committed_of w)) (ledger_of (committed_of w'))"
  by (rule serve_all_ledger [OF assms])

lemma service_implements_ledger_witness:
  "ledger_run sample_history (fst (serve_all sample_history (world_of sample_tables)))
     (ledger_of sample_tables) (ledger_of (committed_of (snd (serve_all sample_history (world_of sample_tables)))))
   \<and> map_option gr_hash (ledger_of (committed_of (snd (serve_all sample_history (world_of sample_tables)))) 7)
     = Some ''sha:token-1''"
proof
  from service_implements_ledger [OF sample_sound prod.collapse [symmetric]]
  show "ledger_run sample_history (fst (serve_all sample_history (world_of sample_tables)))
     (ledger_of sample_tables) (ledger_of (committed_of (snd (serve_all sample_history (world_of sample_tables)))))"
    by simp
qed code_simp

end
