(* ===== verification/Web_App.thy ===== *)
theory Web_App
  imports Histories Schemas
begin

text \<open>
  The whole service: an HTTP request goes through the middleware of the application that the
  factory builds, is dispatched to a route, passes the dependencies of the route and the schema
  of its body, and reaches the endpoint; exceptions become replies. The parts of FastAPI and
  Starlette that stand in between are a parameter, the record \<open>framework\<close>.
\<close>

section \<open>Requests and replies\<close>

datatype body_content = Malformed_Body | Not_An_Object | Object_Body body

record web_request =
  wr_request :: http_request
  wr_body :: body_content

datatype content =
    Token_Content token_dto | User_Content user_schema | Health_Content string | Null_Content
  | Detail_Content string | Framework_Content

record http_reply =
  rp_status :: int
  rp_content :: content

text \<open>
  What FastAPI and Starlette decide: whether the CORS middleware (a preflight) or the trusted host
  middleware answers a request itself, and with which status; the status of a request that no
  route of the service takes (404, 405, a slash redirect, the documentation); the credentials
  of \<open>HTTPBearer\<close>; the integer of a path segment. The limiter of a quota is the rate limiter of
  the throttled library.
\<close>

record 'w framework =
  fw_cors :: "cors_settings \<Rightarrow> http_request \<Rightarrow> int option"
  fw_trusted_host :: "string list \<Rightarrow> http_request \<Rightarrow> int option"
  fw_unrouted :: "http_request \<Rightarrow> int"
  fw_bearer :: "http_request \<Rightarrow> string option"
  fw_path_int :: "string \<Rightarrow> int option"
  fw_limiter :: "quota \<Rightarrow> 'w limiter"

record service =
  sv_deployment :: deployment
  sv_request_info :: request_info_service_settings

abbreviation sv_lib :: "service \<Rightarrow> lib" where
  "sv_lib sv \<equiv> dp_lib (sv_deployment sv)"

abbreviation sv_jwt :: "service \<Rightarrow> jwt_service_settings" where
  "sv_jwt sv \<equiv> ts_jwt (dp_tokens (sv_deployment sv))"

section \<open>Routes\<close>

text \<open>The dependencies of a route, in their order; the bearer dependency leaves its state on the
  request, which the throttle of a user reads.\<close>

definition with_state ::
    "authenticated_request_state option \<Rightarrow> (authenticated_request_state \<Rightarrow> ('w, exn, 'a) prog) \<Rightarrow> ('w, exn, 'a) prog" where
  "with_state state k = (case state of None \<Rightarrow> raise (AttributeError ''user_id'') | Some st \<Rightarrow> k st)"

fun run_dependencies ::
    "service \<Rightarrow> 'db world framework \<Rightarrow> http_request \<Rightarrow> dependency list \<Rightarrow> authenticated_request_state option \<Rightarrow>
     ('db world, exn, authenticated_request_state option) prog" where
  "run_dependencies sv fw request [] state = ret state"
| "run_dependencies sv fw request (Jwt_Auth # ds) state =
     bind_p (jwt_auth_factory (world_runtime (sv_lib sv)) (sv_jwt sv) (fw_bearer fw request)) (\<lambda>authenticated.
     run_dependencies sv fw request ds (case authenticated of None \<Rightarrow> state | Some st \<Rightarrow> Some st))"
| "run_dependencies sv fw request (User_Throttle quota # ds) state =
     with_state state (\<lambda>st.
     bind_p (user_throttler (fw_limiter fw quota) 1 (ars_user_id st) request) (\<lambda>passed.
     run_dependencies sv fw request ds state))"

definition reads_body :: "endpoint \<Rightarrow> bool" where
  "reads_body e = (e \<in> {Issue_Token, Refresh_Token, Revoke_Token, Create_User})"

definition replying :: "('a \<Rightarrow> content) \<Rightarrow> ('w, exn, 'a) prog \<Rightarrow> ('w, exn, http_reply) prog" where
  "replying f m = bind_p m (\<lambda>x. ret \<lparr>rp_status = 200, rp_content = f x\<rparr>)"

definition parsed :: "(body \<Rightarrow> 'b option) \<Rightarrow> body_content \<Rightarrow> 'b option" where
  "parsed schema content = (case content of Object_Body body \<Rightarrow> schema body | _ \<Rightarrow> None)"

definition or_unprocessable :: "'b option \<Rightarrow> ('b \<Rightarrow> ('w, exn, http_reply) prog) \<Rightarrow> ('w, exn, http_reply) prog" where
  "or_unprocessable value k =
     (case value of None \<Rightarrow> ret \<lparr>rp_status = 422, rp_content = Framework_Content\<rparr> | Some x \<Rightarrow> k x)"

fun endpoint_reply ::
    "service \<Rightarrow> 'db world framework \<Rightarrow> web_request \<Rightarrow> endpoint \<Rightarrow> authenticated_request_state option \<Rightarrow>
     ('db world, exn, http_reply) prog" where
  "endpoint_reply sv fw q Health_Check state = replying Health_Content (health_check_endpoint check_database)"
| "endpoint_reply sv fw q Issue_Token state =
     or_unprocessable (parsed issue_token_request_schema (wr_body q)) (\<lambda>body.
       replying Token_Content (issue_token_endpoint (world_runtime (sv_lib sv)) (dp_tokens (sv_deployment sv))
         sqlalchemy_unit_of_work (sv_request_info sv) (wr_request q) body))"
| "endpoint_reply sv fw q Refresh_Token state =
     or_unprocessable (parsed refresh_token_request_schema (wr_body q)) (\<lambda>body.
       replying Token_Content (refresh_token_endpoint (world_runtime (sv_lib sv)) (dp_tokens (sv_deployment sv))
         sqlalchemy_unit_of_work body))"
| "endpoint_reply sv fw q Revoke_Token state =
     or_unprocessable (parsed revoke_token_request_schema (wr_body q)) (\<lambda>body.
       with_state state (\<lambda>st.
         replying (\<lambda>u. Null_Content) (revoke_token_endpoint (world_runtime (sv_lib sv)) sqlalchemy_unit_of_work st body)))"
| "endpoint_reply sv fw q Create_User state =
     or_unprocessable (parsed (create_user_request_schema (world_runtime (sv_lib sv) :: 'db world runtime)) (wr_body q)) (\<lambda>body.
       replying User_Content (create_user_endpoint (world_runtime (sv_lib sv)) (dp_passwords (sv_deployment sv))
         sqlalchemy_unit_of_work body))"
| "endpoint_reply sv fw q Current_User state =
     with_state state (\<lambda>st. replying User_Content (current_user_endpoint sqlalchemy_unit_of_work st))"
| "endpoint_reply sv fw q Staff_User_Lookup state =
     or_unprocessable (fw_path_int fw (last (split_on (CHR ''/'') (rq_path (wr_request q))))) (\<lambda>user_id.
       with_state state (\<lambda>st. replying User_Content (staff_user_lookup_endpoint sqlalchemy_unit_of_work st user_id)))"
| "endpoint_reply sv fw q Health_Check_Websocket state =
     ret \<lparr>rp_status = fw_unrouted fw (wr_request q), rp_content = Framework_Content\<rparr>"

text \<open>FastAPI decodes a body before it runs the dependencies and validates it after them.\<close>

definition route_reply ::
    "service \<Rightarrow> 'db world framework \<Rightarrow> web_request \<Rightarrow> api_route \<Rightarrow> ('db world, exn, http_reply) prog" where
  "route_reply sv fw q r =
     (if reads_body (ar_endpoint r) \<and> wr_body q = Malformed_Body
      then ret \<lparr>rp_status = 422, rp_content = Framework_Content\<rparr>
      else bind_p (run_dependencies sv fw (wr_request q) (ar_dependencies r) None)
             (\<lambda>state. endpoint_reply sv fw q (ar_endpoint r) state))"

section \<open>The application\<close>

definition refusal_reply :: "http_exception \<Rightarrow> http_reply" where
  "refusal_reply h = \<lparr>rp_status = he_status_code h, rp_content = Detail_Content (he_detail h)\<rparr>"

definition router_reply ::
    "service \<Rightarrow> 'db world framework \<Rightarrow> fastapi_app \<Rightarrow> web_request \<Rightarrow> ('db world, exn, http_reply) prog" where
  "router_reply sv fw app q =
     (case dispatch_route app (rq_method (wr_request q)) (rq_path (wr_request q)) of
        None \<Rightarrow> ret \<lparr>rp_status = fw_unrouted fw (wr_request q), rp_content = Framework_Content\<rparr>
      | Some r \<Rightarrow> try_except (route_reply sv fw q r) (\<lambda>exception. case exception of
            HTTPException h \<Rightarrow> ret (refusal_reply h) | _ \<Rightarrow> raise exception))"

fun through_middleware ::
    "service \<Rightarrow> 'db world framework \<Rightarrow> http_request \<Rightarrow> ('db world, exn, http_reply) prog \<Rightarrow> middleware list \<Rightarrow>
     ('db world, exn, http_reply) prog" where
  "through_middleware sv fw request inner [] = inner"
| "through_middleware sv fw request inner (Cors cs # ms) =
     (case fw_cors fw cs request of
        Some status \<Rightarrow> ret \<lparr>rp_status = status, rp_content = Framework_Content\<rparr>
      | None \<Rightarrow> through_middleware sv fw request inner ms)"
| "through_middleware sv fw request inner (Trusted_Host hosts # ms) =
     (case fw_trusted_host fw hosts request of
        Some status \<Rightarrow> ret \<lparr>rp_status = status, rp_content = Framework_Content\<rparr>
      | None \<Rightarrow> through_middleware sv fw request inner ms)"
| "through_middleware sv fw request inner (Pre_Body_Ip_Throttling rules # ms) =
     pre_body_ip_throttling_middleware (\<lambda>scope. through_middleware sv fw request inner ms) (\<lambda>h. ret (refusal_reply h))
       (map (\<lambda>(method, p, quota). \<lparr>tr_method = method, tr_path = p,
          tr_throttler = ip_throttler (fw_limiter fw quota) 1 (sv_request_info sv)\<rparr>) rules)
       \<lparr>as_type = ''http'', as_request = request\<rparr>"

text \<open>Any other exception is answered 500; a cancelled request is not answered.\<close>

definition handle_request ::
    "service \<Rightarrow> 'db world framework \<Rightarrow> fastapi_app \<Rightarrow> web_request \<Rightarrow> ('db world, exn, http_reply) prog" where
  "handle_request sv fw app q =
     try_except (through_middleware sv fw (wr_request q) (router_reply sv fw app q) (app_middleware app))
       (\<lambda>exception. if isinstance exception Exception_class
          then ret \<lparr>rp_status = 500, rp_content = Framework_Content\<rparr> else raise exception)"

end
