(* ===== verification/Web_Properties.thy ===== *)
theory Web_Properties
  imports Web_App
begin

text \<open>
  What an HTTP request can do to the database, end to end: through the middleware, the routes with
  their dependencies and the endpoints of the application that the factory builds.
\<close>

section \<open>Programs that commit at most one change\<close>

text \<open>
  \<open>commits m R\<close>: whatever the outcome, \<open>m\<close> leaves the committed tables as they are or changes
  them by \<open>R\<close>. \<open>quiet m S\<close>: \<open>m\<close> changes nothing and can be followed by a transaction, and what it
  returns is in \<open>S\<close>.
\<close>

definition commits :: "('db world, exn, 'a) prog \<Rightarrow> (tables \<Rightarrow> tables \<Rightarrow> bool) \<Rightarrow> bool" where
  "commits m R =
     (\<forall>w r w'. v_idle sql_view w \<longrightarrow> m w = (r, w') \<longrightarrow> v_sound sql_view w' \<and>
        (committed_of w' = committed_of w \<or> R (committed_of w) (committed_of w')))"

definition quiet :: "('db world, exn, 'a) prog \<Rightarrow> ('a \<Rightarrow> bool) \<Rightarrow> bool" where
  "quiet m S =
     (\<forall>w r w'. v_idle sql_view w \<longrightarrow> m w = (r, w') \<longrightarrow> v_idle sql_view w' \<and> committed_of w' = committed_of w
        \<and> (\<forall>x. r = Inr x \<longrightarrow> S x))"

lemma idle_sound: "v_idle sql_view w \<Longrightarrow> v_sound sql_view w"
  by (simp add: sql_view_iffs)

lemma commits_mono: "commits m R \<Longrightarrow> (\<And>t t'. R t t' \<Longrightarrow> R' t t') \<Longrightarrow> commits m R'"
  unfolding commits_def by blast

lemma commits_ret: "commits (ret x) R"
  by (auto simp: commits_def ret_def idle_sound)

lemma commits_raise: "commits (raise e) R"
  by (auto simp: commits_def raise_def idle_sound)

lemma commits_transacts:
  assumes "transacts sql_view m Q E" and "\<And>t x t'. Q t x t' \<Longrightarrow> t' = t \<or> R t t'"
  shows "commits m R"
  unfolding commits_def
proof (intro allI impI)
  fix w r w'
  assume "v_idle sql_view w" and "m w = (r, w')"
  from transacts_always [OF assms(1) this] assms(2)
  show "v_sound sql_view w' \<and> (committed_of w' = committed_of w \<or> R (committed_of w) (committed_of w'))"
    by (auto simp: idle_sound)
qed

lemma commits_then_pure:
  assumes "commits m R" and "\<And>x w. snd (k x w) = w"
  shows "commits (bind_p m k) R"
  unfolding commits_def
proof (intro allI impI)
  fix w r w'
  assume w: "v_idle sql_view w" and run: "bind_p m k w = (r, w')"
  obtain r0 w0 where m: "m w = (r0, w0)" by fastforce
  then have "snd (bind_p m k w) = w0"
    by (cases r0) (simp_all add: bind_p_def assms(2))
  with run have "w0 = w'" by simp
  with assms(1) w m
  show "v_sound sql_view w' \<and> (committed_of w' = committed_of w \<or> R (committed_of w) (committed_of w'))"
    unfolding commits_def by blast
qed

lemma commits_try:
  assumes "commits m R" and "\<And>e w. snd (h e w) = w"
  shows "commits (try_except m h) R"
  unfolding commits_def
proof (intro allI impI)
  fix w r w'
  assume w: "v_idle sql_view w" and run: "try_except m h w = (r, w')"
  obtain r0 w0 where m: "m w = (r0, w0)" by fastforce
  then have "snd (try_except m h w) = w0"
    by (cases r0) (simp_all add: try_except_def assms(2))
  with run have "w0 = w'" by simp
  with assms(1) w m
  show "v_sound sql_view w' \<and> (committed_of w' = committed_of w \<or> R (committed_of w) (committed_of w'))"
    unfolding commits_def by blast
qed

lemma commits_handler:
  assumes "commits m R" and "\<And>e. handle e = raise (translate e)"
  shows "commits (add_exception_handler handle m) R"
  unfolding add_exception_handler_def
  by (rule commits_try [OF assms(1)]) (simp add: assms(2) raise_def)

lemma commits_replying: "commits m R \<Longrightarrow> commits (replying f m) R"
  unfolding replying_def by (rule commits_then_pure) (simp_all add: ret_def)

lemma commits_or_unprocessable:
  "(\<And>x. value = Some x \<Longrightarrow> commits (k x) R) \<Longrightarrow> commits (or_unprocessable value k) R"
  by (cases "value") (simp_all add: or_unprocessable_def commits_ret)

lemma commits_with_state: "(\<And>st. state = Some st \<Longrightarrow> commits (k st) R) \<Longrightarrow> commits (with_state state k) R"
  by (cases state) (simp_all add: with_state_def commits_raise)

lemma quiet_then:
  assumes "quiet m S" and "\<And>x. S x \<Longrightarrow> commits (k x) R"
  shows "commits (bind_p m k) R"
  unfolding commits_def
proof (intro allI impI)
  fix w r w'
  assume w: "v_idle sql_view w" and run: "bind_p m k w = (r, w')"
  obtain r0 w0 where m: "m w = (r0, w0)" by fastforce
  with assms(1) w have w0: "v_idle sql_view w0" "committed_of w0 = committed_of w" "\<forall>x. r0 = Inr x \<longrightarrow> S x"
    unfolding quiet_def by blast+
  show "v_sound sql_view w' \<and> (committed_of w' = committed_of w \<or> R (committed_of w) (committed_of w'))"
  proof (cases r0)
    case (Inl e)
    with run m w0 show ?thesis by (auto simp: bind_p_def idle_sound)
  next
    case (Inr x)
    with run m have "k x w0 = (r, w')" by (simp add: bind_p_def)
    with assms(2) w0 Inr show ?thesis unfolding commits_def by metis
  qed
qed

lemma quiet_bind:
  assumes "quiet m S" and "\<And>x. S x \<Longrightarrow> quiet (k x) S'"
  shows "quiet (bind_p m k) S'"
  unfolding quiet_def
proof (intro allI impI)
  fix w r w'
  assume w: "v_idle sql_view w" and run: "bind_p m k w = (r, w')"
  obtain r0 w0 where m: "m w = (r0, w0)" by fastforce
  with assms(1) w have w0: "v_idle sql_view w0" "committed_of w0 = committed_of w" "\<forall>x. r0 = Inr x \<longrightarrow> S x"
    unfolding quiet_def by blast+
  show "v_idle sql_view w' \<and> committed_of w' = committed_of w \<and> (\<forall>x. r = Inr x \<longrightarrow> S' x)"
  proof (cases r0)
    case (Inl e)
    with run m w0 show ?thesis by (auto simp: bind_p_def)
  next
    case (Inr x)
    with run m have "k x w0 = (r, w')" by (simp add: bind_p_def)
    with assms(2) w0 Inr show ?thesis unfolding quiet_def by metis
  qed
qed

section \<open>The dependencies\<close>

text \<open>What the state on a request says of its bearer token.\<close>

definition authentic :: "service \<Rightarrow> 'db world framework \<Rightarrow> http_request \<Rightarrow> authenticated_request_state option \<Rightarrow> bool" where
  "authentic sv fw request state =
     (case state of None \<Rightarrow> True
      | Some st \<Rightarrow> \<exists>token. fw_bearer fw request = Some token \<and> subject_of_token (sv_lib sv) (sv_jwt sv) token (ars_user_id st))"

lemma jwt_auth_quiet:
  "quiet (jwt_auth_factory (world_runtime L) settings credentials)
     (\<lambda>state. \<forall>st. state = Some st \<longrightarrow> (\<exists>token. credentials = Some token \<and> subject_of_token L settings token (ars_user_id st)))"
  unfolding quiet_def
proof (intro allI impI)
  fix w r w'
  assume w: "v_idle sql_view w" and run: "jwt_auth_factory (world_runtime L) settings credentials w = (r, w')"
  then have "w' = w \<or> w' = w\<lparr>w_draws := Suc (w_draws w)\<rparr>"
    by (auto simp: jwt_auth_factory_run decode_token_run Let_def split: option.splits sum.splits if_splits)
  moreover have "\<exists>token. credentials = Some token \<and> subject_of_token L settings token (ars_user_id st)"
    if "r = Inr (Some st)" for st
    using run that
    by (auto simp: jwt_auth_factory_run decode_token_run Let_def subject_of_token_def readings_of_def
        split: option.splits sum.splits if_splits) blast
  ultimately show "v_idle sql_view w' \<and> committed_of w' = committed_of w \<and>
      (\<forall>x. r = Inr x \<longrightarrow> (\<forall>st. x = Some st \<longrightarrow>
        (\<exists>token. credentials = Some token \<and> subject_of_token L settings token (ars_user_id st))))"
    using w by (auto simp: drawn_idle)
qed

lemma throttler_quiet: "limiter_ok limit \<Longrightarrow> quiet (throttler_call limit cost key request) (\<lambda>u. True)"
  by (auto simp: quiet_def throttler_call_run limiter_ok_def split: prod.splits sum.splits bool.splits)

lemma run_dependencies_quiet:
  assumes "\<And>quota. limiter_ok (fw_limiter fw quota)" and "authentic sv fw request state"
  shows "quiet (run_dependencies sv fw request ds state) (authentic sv fw request)"
  using assms(2)
proof (induction ds arbitrary: state)
  case Nil
  then show ?case by (simp add: quiet_def ret_def)
next
  case (Cons d ds)
  show ?case
  proof (cases d)
    case Jwt_Auth
    show ?thesis
      unfolding Jwt_Auth run_dependencies.simps
      by (rule quiet_bind [OF jwt_auth_quiet], rule Cons.IH)
        (use Cons.prems in \<open>auto simp: authentic_def split: option.splits\<close>)
  next
    case (User_Throttle quota)
    show ?thesis
    proof (cases state)
      case None
      then show ?thesis by (simp add: User_Throttle with_state_def quiet_def raise_def)
    next
      case (Some st)
      show ?thesis
        unfolding User_Throttle run_dependencies.simps Some with_state_def option.case user_throttler_def
        by (rule quiet_bind [OF throttler_quiet [OF assms(1)]]) (rule Cons.IH [OF Cons.prems [unfolded Some]])
    qed
  qed
qed

section \<open>The endpoints\<close>

text \<open>
  The changes an endpoint may commit: one row for valid credentials, a rotation or a revocation
  of the session whose token the body has, the latter for the subject of the bearer token
  only, and one unprivileged user whose name and address were free.
\<close>

inductive permitted ::
    "service \<Rightarrow> 'db world framework \<Rightarrow> web_request \<Rightarrow> endpoint \<Rightarrow> tables \<Rightarrow> tables \<Rightarrow> bool" for sv fw q where
  logged_in: "parsed issue_token_request_schema (wr_body q) = Some d \<Longrightarrow>
    credentials_in (world_runtime (sv_lib sv) :: 'db world runtime) t (it_username d) (it_password d) = Inr (Some usr) \<Longrightarrow>
    sr_user_id r = u_id usr \<Longrightarrow>
    permitted sv fw q Issue_Token t (t\<lparr>t_sessions := t_sessions t @ [r]\<rparr>)"
| refreshed: "parsed refresh_token_request_schema (wr_body q) = Some d \<Longrightarrow>
    session_of_token (lib_sha256_hexdigest (sv_lib sv)) t (rt_refresh_token d) = Some s \<Longrightarrow>
    usable_at (readings_of (sv_lib sv)) s \<Longrightarrow> active_user_in t (sr_user_id s) \<noteq> None \<Longrightarrow>
    permitted sv fw q Refresh_Token t (update_session_row (sr_id s) (next_row h n) t)"
| revoked: "parsed revoke_token_request_schema (wr_body q) = Some d \<Longrightarrow>
    fw_bearer fw (wr_request q) = Some token \<Longrightarrow> subject_of_token (sv_lib sv) (sv_jwt sv) token (sr_user_id s) \<Longrightarrow>
    session_of_token (lib_sha256_hexdigest (sv_lib sv)) t (rt_refresh_token d) = Some s \<Longrightarrow>
    usable_at (readings_of (sv_lib sv)) s \<Longrightarrow> active_user_in t (sr_user_id s) \<noteq> None \<Longrightarrow>
    permitted sv fw q Revoke_Token t (update_session_row (sr_id s) (revoked_row n) t)"
| registered: "parsed (create_user_request_schema (world_runtime (sv_lib sv) :: 'db world runtime)) (wr_body q) = Some d \<Longrightarrow>
    um_username m = normalize_username (world_runtime (sv_lib sv) :: 'db world runtime) (ru_username d) \<Longrightarrow>
    um_is_active m \<Longrightarrow> \<not> um_is_staff m \<Longrightarrow> \<not> um_is_superuser m \<Longrightarrow>
    um_username m \<notin> um_username ` set (t_users t) \<Longrightarrow>
    permitted sv fw q Create_User t (t\<lparr>t_users := t_users t @ [m]\<rparr>)"

lemma commits_database_check: "commits check_database R"
proof -
  have "w_engine w' = w_engine w" if "check_database w = (r, w')" for w r and w' :: "'a world"
    using that
    by (auto simp: check_database_def bind_p_def stmt_def raise_def split: prod.splits sum.splits
        dest!: open_session_run)
  then show ?thesis
    using check_database_commits_nothing unfolding commits_def sql_view_iffs by metis
qed

lemma commits_health: "commits (health_check_endpoint check_database) R"
  unfolding health_check_endpoint_def system_health_def
  by (intro commits_handler [OF _ base_translation] commits_then_pure commits_try commits_database_check)
    (simp_all add: raise_def ret_def)

lemma registration_permitted:
  fixes fw :: "'db world framework"
  assumes "parsed (create_user_request_schema (world_runtime (sv_lib sv) :: 'db world runtime)) (wr_body q) = Some body"
    and "ru_username data = ru_username body"
    and "normalize_register_user_data (world_runtime (sv_lib sv) :: 'db world runtime) data = Inr d"
    and "persist_user_data (world_runtime (sv_lib sv) :: 'db world runtime) d = Inr p"
    and "values_of m = new_user_values p h"
    and "\<forall>u \<in> set (t_users t). um_username u \<noteq> ru_username d \<and> um_email u \<noteq> ru_email d"
  shows "permitted sv fw q Create_User t (t\<lparr>t_users := t_users t @ [m]\<rparr>)"
  using persisted_values [OF assms(4,5)] normalized_values [OF assms(3)] assms(2,6)
  by (intro permitted.registered [OF assms(1)]) auto

lemma commits_endpoint:
  fixes fw :: "'db world framework"
  assumes "authentic sv fw (wr_request q) state"
  shows "commits (endpoint_reply sv fw q e state) (permitted sv fw q e)"
proof (cases e)
  case Health_Check
  then show ?thesis by (simp add: commits_replying commits_health)
next
  case Health_Check_Websocket
  then show ?thesis by (simp add: commits_ret)
next
  case Issue_Token
  show ?thesis
    unfolding Issue_Token endpoint_reply.simps issue_token_endpoint_def
    by (intro commits_or_unprocessable commits_replying commits_handler [OF _ issue_token_translation]
        commits_transacts [OF app.issue_token_transacts])
      (auto simp: fresh_session_def intro: permitted.logged_in)
next
  case Refresh_Token
  show ?thesis
    unfolding Refresh_Token endpoint_reply.simps refresh_token_endpoint_def
    by (intro commits_or_unprocessable commits_replying commits_handler [OF _ refresh_token_translation]
        commits_transacts [OF app.refresh_token_transacts])
      (auto simp: rotates_def intro: permitted.refreshed)
next
  case Revoke_Token
  show ?thesis
    unfolding Revoke_Token endpoint_reply.simps revoke_token_endpoint_def
    by (intro commits_or_unprocessable commits_with_state commits_replying commits_handler [OF _ revoke_token_translation]
        commits_transacts [OF app.revoke_token_transacts])
      (use assms in \<open>auto simp: authentic_def intro: permitted.revoked\<close>)
next
  case Create_User
  show ?thesis
    unfolding Create_User endpoint_reply.simps create_user_endpoint_def
  proof (intro commits_or_unprocessable commits_replying commits_handler [OF _ create_user_translation])
    fix body
    assume body: "parsed (create_user_request_schema (world_runtime (sv_lib sv) :: 'db world runtime)) (wr_body q) = Some body"
    let ?rt = "world_runtime (sv_lib sv) :: 'db world runtime"
    let ?dto = "make_register_user_dto ?rt (ru_email body) (ru_username body) (ru_first_name body) (ru_last_name body) (ru_password body)"
    show "commits (bind_p (of_result ?dto) (\<lambda>data.
        bind_p (register_user ?rt (dp_passwords (sv_deployment sv)) sqlalchemy_unit_of_work data)
          (\<lambda>usr. ret (user_schema_of usr)))) (permitted sv fw q Create_User)"
    proof (cases ?dto)
      case (Inl error)
      then show ?thesis by (simp add: commits_raise)
    next
      case (Inr data)
      then have "ru_username data = ru_username body"
        by (auto simp: make_register_user_dto_def split: option.splits if_splits)
      with body show ?thesis
        unfolding Inr bind_of_result
        by (intro commits_then_pure commits_transacts [OF app.register_user_transacts])
          (auto simp: ret_def intro: registration_permitted)
    qed
  qed
next
  case Current_User
  show ?thesis
    unfolding Current_User endpoint_reply.simps current_user_endpoint_def
    by (intro commits_with_state commits_replying commits_handler [OF _ base_translation] commits_then_pure
        commits_transacts [OF app.get_active_user_by_id_transacts])
      (auto simp: ret_def raise_def split: option.splits)
next
  case Staff_User_Lookup
  show ?thesis
    unfolding Staff_User_Lookup endpoint_reply.simps staff_user_lookup_endpoint_def
    by (intro commits_or_unprocessable commits_with_state commits_replying
        commits_handler [OF _ staff_user_lookup_translation] commits_then_pure
        commits_transacts [OF app.staff_user_lookup_transacts])
      (auto simp: ret_def raise_def split: option.splits)
qed

section \<open>The application\<close>

lemma quiet_ret: "S x \<Longrightarrow> quiet (ret x) S"
  by (simp add: quiet_def ret_def)

lemma commits_route:
  assumes "\<And>quota. limiter_ok (fw_limiter fw quota)"
  shows "commits (route_reply sv fw q r) (permitted sv fw q (ar_endpoint r))"
proof (cases "reads_body (ar_endpoint r) \<and> wr_body q = Malformed_Body")
  case False
  have "authentic sv fw (wr_request q) None" by (simp add: authentic_def)
  with assms show ?thesis
    unfolding route_reply_def if_not_P [OF False]
    by (intro quiet_then [OF run_dependencies_quiet commits_endpoint])
qed (simp add: route_reply_def commits_ret)

lemma snd_to_reply:
  "snd ((case e of HTTPException h \<Rightarrow> ret (refusal_reply h) | _ \<Rightarrow> raise e) w) = w"
  by (cases e) (simp_all add: ret_def raise_def)

text \<open>What a request may change, by the route it is dispatched to.\<close>

definition permitted_by_route ::
    "service \<Rightarrow> 'db world framework \<Rightarrow> fastapi_app \<Rightarrow> web_request \<Rightarrow> tables \<Rightarrow> tables \<Rightarrow> bool" where
  "permitted_by_route sv fw app q t t' =
     (\<exists>e. dispatch_http app (rq_method (wr_request q)) (rq_path (wr_request q)) = Some e \<and> permitted sv fw q e t t')"

lemma commits_router:
  assumes "\<And>quota. limiter_ok (fw_limiter fw quota)"
  shows "commits (router_reply sv fw app q) (permitted_by_route sv fw app q)"
proof (cases "dispatch_route app (rq_method (wr_request q)) (rq_path (wr_request q))")
  case None
  then show ?thesis by (simp add: router_reply_def commits_ret)
next
  case (Some r)
  then show ?thesis
    unfolding router_reply_def Some option.case
    by (intro commits_try [OF commits_mono [OF commits_route [OF assms]] snd_to_reply])
      (use Some in \<open>auto simp: permitted_by_route_def dispatch_http_def\<close>)
qed

lemma body_routes:
  "list_all (\<lambda>r. reads_body (ar_endpoint r) \<longrightarrow> ar_methods r = Some [''POST''])
     (app_routes (fastapi_factory_call a fs cs lf ex th co))"
  by (simp add: app_routes_factory register_defs reads_body_def)

lemma permitted_post:
  assumes "dispatch_http (fastapi_factory_call a fs cs lf ex th co) method p = Some e" and "permitted sv fw q e t t'"
  shows "method = ''POST''"
proof -
  let ?app = "fastapi_factory_call a fs cs lf ex th co"
  from assms(1) obtain r where "find (\<lambda>r. path_matches (ar_path r) p) (filter (answers_method method) (app_routes ?app)) = Some r"
    and e: "ar_endpoint r = e"
    unfolding dispatch_http_eq by blast
  then have "r \<in> set (filter (answers_method method) (app_routes ?app))" by (auto dest: find_SomeD)
  moreover from assms(2) have "reads_body e" by (cases rule: permitted.cases) (simp_all add: reads_body_def)
  ultimately show ?thesis
    using e body_routes [of a fs cs lf ex th co] by (auto simp: answers_method_def list_all_iff)
qed

lemma quiet_try:
  assumes "quiet m S" and "\<And>e w. snd (h e w) = w"
  shows "quiet (try_except m h) (\<lambda>x. True)"
  unfolding quiet_def
proof (intro allI impI)
  fix w r w'
  assume w: "v_idle sql_view w" and run: "try_except m h w = (r, w')"
  obtain r0 w0 where m: "m w = (r0, w0)" by fastforce
  then have "snd (try_except m h w) = w0"
    by (cases r0) (simp_all add: try_except_def assms(2))
  with run have "w0 = w'" by simp
  with assms(1) w m show "v_idle sql_view w' \<and> committed_of w' = committed_of w \<and> (\<forall>x. r = Inr x \<longrightarrow> True)"
    unfolding quiet_def by blast
qed

lemma rule_in_rules: "rules_by_key rules key = Some rule \<Longrightarrow> rule \<in> set rules"
  by (auto simp: rules_by_key_def dest!: map_of_SomeD)

lemma throttle_quiet:
  assumes "quiet (throttle :: ('db world, exn, unit) prog) S"
  shows "quiet (try_except (bind_p throttle (\<lambda>passed. ret None))
      (\<lambda>exception. case exception of HTTPException response \<Rightarrow> ret (Some response) | _ \<Rightarrow> raise exception)) (\<lambda>x. True)"
  by (rule quiet_try [OF quiet_bind [OF assms quiet_ret]]) (auto simp: ret_def raise_def split: exn.splits)

lemma commits_pre_body:
  assumes "commits inner R" and "\<And>h. commits (respond h) R"
    and "\<And>rule. rule \<in> set rules \<Longrightarrow> quiet (tr_throttler rule (as_request scope)) (\<lambda>u. True)"
  shows "commits (pre_body_ip_throttling_middleware (\<lambda>scope. inner) respond rules scope) R"
proof (cases "as_type scope = ''http'' \<and> rules_by_key rules (request_key (as_request scope)) \<noteq> None")
  case False
  then show ?thesis using assms(1) by (auto simp: pre_body_ip_throttling_middleware_def)
next
  case True
  then obtain rule where rule: "rules_by_key rules (request_key (as_request scope)) = Some rule" by blast
  have "commits (case refused of Some response \<Rightarrow> respond response | None \<Rightarrow> inner) R" for refused
    using assms(1,2) by (cases refused) simp_all
  from quiet_then [OF throttle_quiet [OF assms(3) [OF rule_in_rules [OF rule]]] this] True rule show ?thesis
    by (simp add: pre_body_ip_throttling_middleware_def)
qed

lemma commits_middleware:
  assumes "\<And>quota. limiter_ok (fw_limiter fw quota)" and "commits inner R"
  shows "commits (through_middleware sv fw request inner ms) R"
proof (induction ms)
  case Nil
  then show ?case by (simp add: assms(2))
next
  case (Cons m ms)
  then show ?case
  proof (cases m)
    case (Pre_Body_Ip_Throttling rules)
    show ?thesis
      unfolding Pre_Body_Ip_Throttling through_middleware.simps
      by (rule commits_pre_body [OF Cons commits_ret])
        (auto simp: ip_throttler_def intro: throttler_quiet [OF assms(1)])
  qed (auto simp: commits_ret split: option.splits)
qed

lemma commits_application:
  assumes "\<And>quota. limiter_ok (fw_limiter fw quota)"
  shows "commits (handle_request sv fw app q) (permitted_by_route sv fw app q)"
  unfolding handle_request_def
  by (rule commits_try [OF commits_middleware [OF assms commits_router [OF assms]]])
    (simp add: ret_def raise_def)

text \<open>A request that changed something reached the routes, so the limiter admitted its client.\<close>

lemma middleware_answers_or_passes:
  fixes fw :: "'db world framework"
  obtains reply where "through_middleware sv fw request inner (app_middleware (fastapi_factory_call a fs cs lf ex th co)) = ret reply"
  | "through_middleware sv fw request inner (app_middleware (fastapi_factory_call a fs cs lf ex th co)) =
      pre_body_ip_throttling_middleware (\<lambda>scope. inner) (\<lambda>h. ret (refusal_reply h))
        (throttling_rules (\<lambda>quota. ip_throttler (fw_limiter fw quota) 1 (sv_request_info sv)) (fastapi_factory_call a fs cs lf ex th co))
        \<lparr>as_type = ''http'', as_request = request\<rparr>"
proof -
  let ?ms = "app_middleware (fastapi_factory_call a fs cs lf ex th co)"
  let ?last = "Pre_Body_Ip_Throttling (map (\<lambda>(method, p). (method, p, Per_Min 10)) pre_body_ip_throttled_routes)"
  have last: "through_middleware sv fw request inner [?last] =
      pre_body_ip_throttling_middleware (\<lambda>scope. inner) (\<lambda>h. ret (refusal_reply h))
        (throttling_rules (\<lambda>quota. ip_throttler (fw_limiter fw quota) 1 (sv_request_info sv)) (fastapi_factory_call a fs cs lf ex th co))
        \<lparr>as_type = ''http'', as_request = request\<rparr>"
    by (simp add: throttling_rules_factory o_def case_prod_unfold)
  have "(\<exists>reply. through_middleware sv fw request inner ?ms = ret reply)
      \<or> through_middleware sv fw request inner ?ms = through_middleware sv fw request inner [?last]"
    unfolding app_middleware_factory
    by (cases co; cases th) (auto split: option.splits)
  with last that show thesis by metis
qed

lemma changed_was_admitted:
  fixes fw :: "'db world framework"
  assumes "v_idle sql_view w" and "limiter_ok (fw_limiter fw (Per_Min 10))"
    and "handle_request sv fw (fastapi_factory_call a fs cs lf ex th co) q w = (r, w')" and "committed_of w' \<noteq> committed_of w"
    and "dispatch_http (fastapi_factory_call a fs cs lf ex th co) ''POST'' (rq_path (wr_request q)) = Some e"
    and "rq_method (wr_request q) = ''POST''"
  shows "fst (fw_limiter fw (Per_Min 10) (ip_throttler_key (sv_request_info sv) (wr_request q)) 1 w) = Inr False"
proof -
  let ?router = "router_reply sv fw (fastapi_factory_call a fs cs lf ex th co) q"
  let ?through = "through_middleware sv fw (wr_request q) ?router (app_middleware (fastapi_factory_call a fs cs lf ex th co))"
  let ?l = "fw_limiter fw (Per_Min 10) (ip_throttler_key (sv_request_info sv) (wr_request q)) 1 w"
  have "snd (handle_request sv fw (fastapi_factory_call a fs cs lf ex th co) q w) = snd (?through w)"
    by (simp add: handle_request_def try_except_def ret_def raise_def split: prod.splits sum.splits)
  with assms(3) have w': "w' = snd (?through w)" by simp
  have quiet: "committed_of (snd ?l) = committed_of w"
    using assms(1,2) unfolding limiter_ok_def by (metis prod.collapse)
  show ?thesis
  proof (cases rule: middleware_answers_or_passes [of sv fw "wr_request q" ?router a fs cs lf ex th co])
    case (1 reply)
    with w' assms(4) show ?thesis by (simp add: ret_def)
  next
    case 2
    have upper: "ascii_upper ''POST'' = ''POST''" by code_simp
    let ?scope = "\<lparr>as_type = ''http'', as_request = wr_request q\<rparr>"
    have scope: "dispatch_http (fastapi_factory_call a fs cs lf ex th co) ''POST'' (rq_path (as_request ?scope)) = Some e"
      "as_type ?scope = ''http''" "ascii_upper (rq_method (as_request ?scope)) = ''POST''"
      using assms(5,6) upper by (simp_all)
    have "?through w = (case ?l of
        (Inr True, w') \<Rightarrow> ret (refusal_reply \<lparr>he_status_code = 429, he_detail = ''Too many requests'', he_headers = None\<rparr>) w'
      | (Inr False, w') \<Rightarrow> ?router w'
      | (Inl (HTTPException refusal), w') \<Rightarrow> ret (refusal_reply refusal) w'
      | (Inl error, w') \<Rightarrow> (Inl error, w'))"
      unfolding 2
      using throttled_post_run [OF scope, where inner = "\<lambda>scope. ?router" and respond = "\<lambda>h. ret (refusal_reply h)"
          and limit = "fw_limiter fw" and settings = "sv_request_info sv" and w = w]
      by (simp only: asgi_scope.select_convs)
    with w' assms(4) quiet show ?thesis
      by (cases ?l; cases "fst ?l") (auto simp: ret_def split: exn.splits bool.splits)
  qed
qed

section \<open>Properties\<close>

text \<open>
  C1. End to end, a request changes what it may and nothing else: whatever HTTP request reaches the
  application of the factory, the committed tables are as before, or the request is a POST whose
  client the limiter of ten requests a minute admitted, dispatched to one of the four routes
  with a body, and the change is the one that route may make: one session row for valid
  credentials; a rotation of the live session whose token the body has; a revocation of such a
  session, for the subject of a verified bearer token only; or one active user without
  privileges under a free username. This holds also when the request fails or the database
  does, and the database is left fit for the next request.
\<close>

theorem requests_change_what_they_may:
  fixes fw :: "'db world framework"
  assumes "v_idle sql_view w" and "\<And>quota. limiter_ok (fw_limiter fw quota)"
    and "handle_request sv fw (fastapi_factory_call a fs cs lf ex th co) q w = (r, w')"
  shows "v_sound sql_view w' \<and>
    (if committed_of w' = committed_of w then True
     else rq_method (wr_request q) = ''POST''
       \<and> fst (fw_limiter fw (Per_Min 10) (ip_throttler_key (sv_request_info sv) (wr_request q)) 1 w) = Inr False
       \<and> permitted_by_route sv fw (fastapi_factory_call a fs cs lf ex th co) q (committed_of w) (committed_of w'))"
proof -
  let ?app = "fastapi_factory_call a fs cs lf ex th co"
  have c: "v_sound sql_view w' \<and> (committed_of w' = committed_of w
      \<or> permitted_by_route sv fw ?app q (committed_of w) (committed_of w'))"
    using commits_application [of fw sv ?app q, OF assms(2)] assms(1,3) unfolding commits_def by blast
  show ?thesis
  proof (cases "committed_of w' = committed_of w")
    case False
    with c obtain e where e: "dispatch_http ?app (rq_method (wr_request q)) (rq_path (wr_request q)) = Some e"
      and p: "permitted sv fw q e (committed_of w) (committed_of w')"
      by (auto simp: permitted_by_route_def)
    from permitted_post [OF e p] have post: "rq_method (wr_request q) = ''POST''" .
    from changed_was_admitted [OF assms(1) assms(2) assms(3) False e [unfolded post] post] c post False
    show ?thesis by simp
  qed (use c in simp)
qed

text \<open>The default application before a database with one session, and a refresh of that session.\<close>

definition sample_framework :: "memory world framework" where
  "sample_framework = \<lparr>fw_cors = (\<lambda>cs request. None), fw_trusted_host = (\<lambda>hosts request. None),
     fw_unrouted = (\<lambda>request. 404), fw_bearer = (\<lambda>request. header_get request ''authorization''),
     fw_path_int = int_of_str, fw_limiter = (\<lambda>quota. open_limiter)\<rparr>"

definition sample_service :: service where
  "sample_service = \<lparr>sv_deployment = sample_deployment,
     sv_request_info = \<lparr>ris_ip_header = ''x-forwarded-for'', ris_trust_forwarded_ip_header = False,
       ris_user_agent_header = ''user-agent''\<rparr>\<rparr>"

definition default_app :: fastapi_app where
  "default_app = fastapi_factory_call default_application_settings default_fastapi_settings default_cors_settings
     default_logfire_settings [] True True"

definition sample_post :: "string \<Rightarrow> body \<Rightarrow> web_request" where
  "sample_post p body = \<lparr>wr_request = \<lparr>rq_method = ''POST'', rq_path = p,
     rq_headers = [(''authorization'', ''1'')], rq_client = Some (''127.0.0.1'', 80)\<rparr>, wr_body = Object_Body body\<rparr>"

definition sample_exchange :: "web_request \<Rightarrow> (exn + http_reply) \<times> memory world" where
  "sample_exchange q = handle_request sample_service sample_framework default_app q (world_of sample_tables)"

lemma requests_change_what_they_may_witness:
  "let q = sample_post ''/api/v1/auth/token/refresh'' [(''refresh_token'', Text_Value ''old'')]
   in map_sum id rp_status (fst (sample_exchange q)) = Inr 200
     \<and> committed_of (snd (sample_exchange q)) \<noteq> sample_tables
     \<and> permitted_by_route sample_service sample_framework default_app q sample_tables (committed_of (snd (sample_exchange q)))"
proof -
  let ?q = "sample_post ''/api/v1/auth/token/refresh'' [(''refresh_token'', Text_Value ''old'')]"
  have ok: "map_sum id rp_status (fst (sample_exchange ?q)) = Inr 200
      \<and> committed_of (snd (sample_exchange ?q)) \<noteq> sample_tables"
    by code_simp
  have limiter: "limiter_ok (fw_limiter sample_framework quota)" for quota
    by (simp add: sample_framework_def open_limiter_ok)
  have run: "handle_request sample_service sample_framework (fastapi_factory_call default_application_settings
      default_fastapi_settings default_cors_settings default_logfire_settings [] True True) ?q (world_of sample_tables)
    = (fst (sample_exchange ?q), snd (sample_exchange ?q))"
    by (simp add: sample_exchange_def default_app_def)
  from requests_change_what_they_may [OF sample_idle limiter run] ok
  show ?thesis by (simp add: Let_def default_app_def)
qed

end
