(* ===== verification/Web_Disclosure.thy ===== *)
theory Web_Disclosure
  imports Web_Properties
begin

text \<open>
  What a reply of the service tells and to whom: tokens go to who gave valid credentials or a live
  refresh token, the record of a user to that user, to active staff, or to who registered it.
\<close>

section \<open>Programs and what they answer\<close>

text \<open>\<open>answers m P\<close>: when \<open>m\<close> returns, the committed tables before and after and the value are in \<open>P\<close>.\<close>

definition answers :: "('db world, exn, 'a) prog \<Rightarrow> (tables \<Rightarrow> tables \<Rightarrow> 'a \<Rightarrow> bool) \<Rightarrow> bool" where
  "answers m P =
     (\<forall>w x w'. v_idle sql_view w \<longrightarrow> m w = (Inr x, w') \<longrightarrow> P (committed_of w) (committed_of w') x)"

lemma answers_ret: "(\<And>t. P t t x) \<Longrightarrow> answers (ret x) P"
  by (auto simp: answers_def ret_def)

lemma answers_raise: "answers (raise e) P"
  by (simp add: answers_def raise_def)

lemma answers_transacts:
  assumes "transacts sql_view m Q E" and "\<And>t x t'. Q t x t' \<Longrightarrow> P t t' x"
  shows "answers m P"
  unfolding answers_def using transacts_ok [OF assms(1)] assms(2) by fastforce

lemma answers_map:
  assumes "answers m (\<lambda>t t' x. P t t' (f x))"
  shows "answers (bind_p m (\<lambda>x. ret (f x))) P"
  using assms by (auto simp: answers_def bind_p_def ret_def split: prod.splits sum.splits)

lemma answers_choice:
  assumes "answers m (\<lambda>t t' x. \<forall>y. x = Some y \<longrightarrow> P t t' (f y))"
  shows "answers (bind_p m (\<lambda>found. case found of None \<Rightarrow> raise e | Some y \<Rightarrow> ret (f y))) P"
  using assms unfolding answers_def
  by (auto simp: bind_p_def ret_def raise_def split: prod.splits sum.splits option.splits)

lemma answers_handler:
  assumes "answers m P" and "\<And>e. handle e = raise (translate e)"
  shows "answers (add_exception_handler handle m) P"
  using assms(1)
  by (auto simp: answers_def add_exception_handler_run [OF assms(2)] split: prod.splits sum.splits)

lemma answers_replying:
  "answers m (\<lambda>t t' x. P t t' \<lparr>rp_status = 200, rp_content = f x\<rparr>) \<Longrightarrow> answers (replying f m) P"
  unfolding replying_def by (rule answers_map)

lemma answers_with_state: "(\<And>st. state = Some st \<Longrightarrow> answers (k st) P) \<Longrightarrow> answers (with_state state k) P"
  by (cases state) (simp_all add: with_state_def answers_raise)

lemma quiet_then_answers:
  assumes "quiet m S" and "\<And>x. S x \<Longrightarrow> answers (k x) P"
  shows "answers (bind_p m k) P"
  unfolding answers_def
proof (intro allI impI)
  fix w y w'
  assume w: "v_idle sql_view w" and run: "bind_p m k w = (Inr y, w')"
  obtain r0 w0 where m: "m w = (r0, w0)" by fastforce
  with run obtain x where x: "r0 = Inr x" "k x w0 = (Inr y, w')"
    by (cases r0) (auto simp: bind_p_def)
  from assms(1) w m x(1) have "v_idle sql_view w0" "committed_of w0 = committed_of w" "S x"
    unfolding quiet_def by blast+
  with assms(2) x(2) show "P (committed_of w) (committed_of w') y" unfolding answers_def by metis
qed

text \<open>A handler that answers with a reply which is harmless in any state.\<close>

lemma answers_try:
  assumes "answers m P" and "\<And>e w x w'. h e w = (Inr x, w') \<Longrightarrow> \<forall>t t'. P t t' x"
  shows "answers (try_except m h) P"
  unfolding answers_def
proof (intro allI impI)
  fix w x w'
  assume w: "v_idle sql_view w" and run: "try_except m h w = (Inr x, w')"
  obtain r0 w0 where m: "m w = (r0, w0)" by fastforce
  show "P (committed_of w) (committed_of w') x"
  proof (cases r0)
    case (Inl e)
    with run m have "h e w0 = (Inr x, w')" by (simp add: try_except_def)
    with assms(2) show ?thesis by blast
  next
    case (Inr y)
    with run m w assms(1) show ?thesis by (simp add: try_except_def answers_def)
  qed
qed

section \<open>What may be told\<close>

text \<open>To whom a content may go, from the request and the tables before and after it.\<close>

inductive entitled ::
    "service \<Rightarrow> 'db world framework \<Rightarrow> web_request \<Rightarrow> tables \<Rightarrow> tables \<Rightarrow> content \<Rightarrow> bool" for sv fw q t t' where
  login: "parsed issue_token_request_schema (wr_body q) = Some d \<Longrightarrow>
    credentials_in (world_runtime (sv_lib sv) :: 'db world runtime) t (it_username d) (it_password d) = Inr (Some usr) \<Longrightarrow>
    access_token_for (lib_jwt_encode (sv_lib sv)) (readings_of (sv_lib sv)) (sv_jwt sv) (u_id usr) (tk_access_token x) \<Longrightarrow>
    entitled sv fw q t t' (Token_Content x)"
| refresh: "parsed refresh_token_request_schema (wr_body q) = Some d \<Longrightarrow>
    session_of_token (lib_sha256_hexdigest (sv_lib sv)) t (rt_refresh_token d) = Some s \<Longrightarrow>
    usable_at (readings_of (sv_lib sv)) s \<Longrightarrow> active_user_in t (sr_user_id s) \<noteq> None \<Longrightarrow>
    access_token_for (lib_jwt_encode (sv_lib sv)) (readings_of (sv_lib sv)) (sv_jwt sv) (sr_user_id s) (tk_access_token x) \<Longrightarrow>
    entitled sv fw q t t' (Token_Content x)"
| oneself: "fw_bearer fw (wr_request q) = Some token \<Longrightarrow> subject_of_token (sv_lib sv) (sv_jwt sv) token i \<Longrightarrow>
    active_user_in t i = Some usr \<Longrightarrow> entitled sv fw q t t' (User_Content (user_schema_of usr))"
| staff: "fw_bearer fw (wr_request q) = Some token \<Longrightarrow> subject_of_token (sv_lib sv) (sv_jwt sv) token i \<Longrightarrow>
    active_user_in t i = Some actor \<Longrightarrow> u_is_staff actor \<Longrightarrow> user_in t k = Some usr \<Longrightarrow>
    entitled sv fw q t t' (User_Content (user_schema_of usr))"
| registered: "parsed (create_user_request_schema (world_runtime (sv_lib sv) :: 'db world runtime)) (wr_body q) = Some d \<Longrightarrow>
    t' = t\<lparr>t_users := t_users t @ [m]\<rparr> \<Longrightarrow>
    entitled sv fw q t t' (User_Content (user_schema_of (user_from_model m)))"
| health: "entitled sv fw q t t' (Health_Content s)"
| nothing: "entitled sv fw q t t' Null_Content"
| detail: "entitled sv fw q t t' (Detail_Content s)"
| framework: "entitled sv fw q t t' Framework_Content"

abbreviation tells :: "service \<Rightarrow> 'db world framework \<Rightarrow> web_request \<Rightarrow> tables \<Rightarrow> tables \<Rightarrow> http_reply \<Rightarrow> bool" where
  "tells sv fw q t t' reply \<equiv> entitled sv fw q t t' (rp_content reply)"

lemmas harmless = entitled.health entitled.nothing entitled.detail entitled.framework

lemma answers_or_unprocessable:
  "(\<And>x. value = Some x \<Longrightarrow> answers (k x) (tells sv fw q)) \<Longrightarrow> answers (or_unprocessable value k) (tells sv fw q)"
  by (cases "value") (simp_all add: or_unprocessable_def answers_ret harmless)

lemma answers_endpoint:
  fixes fw :: "'db world framework"
  assumes "authentic sv fw (wr_request q) state"
  shows "answers (endpoint_reply sv fw q e state) (tells sv fw q)"
proof (cases e)
  case Health_Check
  then show ?thesis by (auto simp: answers_def replying_def bind_p_def ret_def harmless split: prod.splits sum.splits)
next
  case Health_Check_Websocket
  then show ?thesis by (simp add: answers_ret harmless)
next
  case Issue_Token
  show ?thesis
    unfolding Issue_Token endpoint_reply.simps issue_token_endpoint_def
    by (intro answers_or_unprocessable answers_replying answers_handler [OF _ issue_token_translation]
        answers_transacts [OF app.issue_token_transacts])
      (auto intro: entitled.login)
next
  case Refresh_Token
  show ?thesis
    unfolding Refresh_Token endpoint_reply.simps refresh_token_endpoint_def
    by (intro answers_or_unprocessable answers_replying answers_handler [OF _ refresh_token_translation]
        answers_transacts [OF app.refresh_token_transacts])
      (auto intro: entitled.refresh)
next
  case Revoke_Token
  show ?thesis
    unfolding Revoke_Token endpoint_reply.simps
    by (intro answers_or_unprocessable answers_with_state answers_replying)
      (simp add: answers_def harmless)
next
  case Create_User
  show ?thesis
    unfolding Create_User endpoint_reply.simps create_user_endpoint_def
  proof (intro answers_or_unprocessable answers_replying answers_handler [OF _ create_user_translation])
    fix body
    assume body: "parsed (create_user_request_schema (world_runtime (sv_lib sv) :: 'db world runtime)) (wr_body q) = Some body"
    let ?rt = "world_runtime (sv_lib sv) :: 'db world runtime"
    let ?dto = "make_register_user_dto ?rt (ru_email body) (ru_username body) (ru_first_name body) (ru_last_name body) (ru_password body)"
    show "answers (bind_p (of_result ?dto) (\<lambda>data.
        bind_p (register_user ?rt (dp_passwords (sv_deployment sv)) sqlalchemy_unit_of_work data)
          (\<lambda>usr. ret (user_schema_of usr)))) (\<lambda>t t' x. tells sv fw q t t' \<lparr>rp_status = 200, rp_content = User_Content x\<rparr>)"
    proof (cases ?dto)
      case (Inr data)
      with body show ?thesis
        unfolding Inr bind_of_result
        by (intro answers_map answers_transacts [OF app.register_user_transacts])
          (auto intro: entitled.registered)
    qed (simp add: answers_raise)
  qed
next
  case Current_User
  show ?thesis
    unfolding Current_User endpoint_reply.simps current_user_endpoint_def
    by (intro answers_with_state answers_replying answers_handler [OF _ base_translation] answers_choice
        answers_transacts [OF app.get_active_user_by_id_transacts])
      (use assms in \<open>auto simp: authentic_def intro: entitled.oneself\<close>)
next
  case Staff_User_Lookup
  show ?thesis
    unfolding Staff_User_Lookup endpoint_reply.simps staff_user_lookup_endpoint_def
    by (intro answers_or_unprocessable answers_with_state answers_replying
        answers_handler [OF _ staff_user_lookup_translation] answers_choice
        answers_transacts [OF app.staff_user_lookup_transacts])
      (use assms in \<open>auto simp: authentic_def intro: entitled.staff\<close>)
qed

section \<open>The application\<close>

lemma answers_route:
  assumes "\<And>quota. limiter_ok (fw_limiter fw quota)"
  shows "answers (route_reply sv fw q r) (tells sv fw q)"
proof (cases "reads_body (ar_endpoint r) \<and> wr_body q = Malformed_Body")
  case False
  have "authentic sv fw (wr_request q) None" by (simp add: authentic_def)
  with assms show ?thesis
    unfolding route_reply_def if_not_P [OF False]
    by (intro quiet_then_answers [OF run_dependencies_quiet answers_endpoint])
qed (simp add: route_reply_def answers_ret harmless)

lemma answers_router:
  assumes "\<And>quota. limiter_ok (fw_limiter fw quota)"
  shows "answers (router_reply sv fw app q) (tells sv fw q)"
proof (cases "dispatch_route app (rq_method (wr_request q)) (rq_path (wr_request q))")
  case None
  then show ?thesis by (simp add: router_reply_def answers_ret harmless)
next
  case (Some r)
  show ?thesis
    unfolding router_reply_def Some option.case
    by (rule answers_try [OF answers_route [OF assms]])
      (auto simp: ret_def raise_def refusal_reply_def harmless split: exn.splits)
qed

lemma answers_pre_body:
  assumes "answers inner P" and "\<And>h. answers (respond h) P"
    and "\<And>rule. rule \<in> set rules \<Longrightarrow> quiet (tr_throttler rule (as_request scope)) (\<lambda>u. True)"
  shows "answers (pre_body_ip_throttling_middleware (\<lambda>scope. inner) respond rules scope) P"
proof (cases "as_type scope = ''http'' \<and> rules_by_key rules (request_key (as_request scope)) \<noteq> None")
  case False
  then show ?thesis using assms(1) by (auto simp: pre_body_ip_throttling_middleware_def)
next
  case True
  then obtain rule where rule: "rules_by_key rules (request_key (as_request scope)) = Some rule" by blast
  have "answers (case refused of Some response \<Rightarrow> respond response | None \<Rightarrow> inner) P" for refused
    using assms(1,2) by (cases refused) simp_all
  from quiet_then_answers [OF throttle_quiet [OF assms(3) [OF rule_in_rules [OF rule]]] this] True rule show ?thesis
    by (simp add: pre_body_ip_throttling_middleware_def)
qed

lemma answers_middleware:
  assumes "\<And>quota. limiter_ok (fw_limiter fw quota)" and "answers inner (tells sv fw q)"
  shows "answers (through_middleware sv fw request inner ms) (tells sv fw q)"
proof (induction ms)
  case Nil
  then show ?case by (simp add: assms(2))
next
  case (Cons m ms)
  then show ?case
  proof (cases m)
    case (Pre_Body_Ip_Throttling rules)
    show ?thesis
      unfolding Pre_Body_Ip_Throttling through_middleware.simps
      by (rule answers_pre_body [OF Cons answers_ret])
        (auto simp: ip_throttler_def refusal_reply_def harmless intro: throttler_quiet [OF assms(1)])
  qed (auto simp: answers_ret harmless split: option.splits)
qed

text \<open>
  C2. A reply tells what its receiver is entitled to: whatever HTTP request reaches an application, a
  pair of tokens is answered only to a request whose body has valid credentials, or the refresh
  token of a live session of an active user, and the access token is signed for that very user;
  the record of a user, without the password hash, is answered only to a verified bearer token of
  that user while active, to that of an active staff user, or to the request that registered it.
\<close>

theorem replies_tell_the_entitled:
  fixes fw :: "'db world framework"
  assumes "v_idle sql_view w" and "\<And>quota. limiter_ok (fw_limiter fw quota)"
    and "handle_request sv fw app q w = (Inr reply, w')"
  shows "entitled sv fw q (committed_of w) (committed_of w') (rp_content reply)"
proof -
  have "answers (handle_request sv fw app q) (tells sv fw q)"
    unfolding handle_request_def
    by (rule answers_try [OF answers_middleware [OF assms(2) answers_router [OF assms(2)]]])
      (auto simp: ret_def raise_def harmless split: if_splits)
  with assms(1,3) show ?thesis unfolding answers_def by blast
qed

text \<open>The current user of a bearer token, and a lookup by a user who is not staff.\<close>

definition sample_get :: "string \<Rightarrow> web_request" where
  "sample_get p = \<lparr>wr_request = \<lparr>rq_method = ''GET'', rq_path = p,
     rq_headers = [(''authorization'', ''1'')], rq_client = Some (''127.0.0.1'', 80)\<rparr>, wr_body = Not_An_Object\<rparr>"

lemma replies_tell_the_entitled_witness:
  "let q = sample_get ''/api/v1/users/me'';
       u = \<lparr>us_id = 1, us_username = ''alice'', us_email = ''a@x.org'', us_first_name = ''A'', us_last_name = ''L'',
         us_is_staff = False, us_is_superuser = False\<rparr>
   in fst (sample_exchange q) = Inr \<lparr>rp_status = 200, rp_content = User_Content u\<rparr>
      \<and> entitled sample_service sample_framework q sample_tables (committed_of (snd (sample_exchange q))) (User_Content u)
      \<and> fst (sample_exchange (sample_get ''/api/v1/users/1''))
        = Inr \<lparr>rp_status = 403, rp_content = Detail_Content ''Permission denied''\<rparr>"
proof -
  let ?q = "sample_get ''/api/v1/users/me''"
  let ?u = "\<lparr>us_id = 1, us_username = ''alice'', us_email = ''a@x.org'', us_first_name = ''A'', us_last_name = ''L'',
         us_is_staff = False, us_is_superuser = False\<rparr>"
  have ok: "fst (sample_exchange ?q) = Inr \<lparr>rp_status = 200, rp_content = User_Content ?u\<rparr>" by code_simp
  have staff: "fst (sample_exchange (sample_get ''/api/v1/users/1''))
        = Inr \<lparr>rp_status = 403, rp_content = Detail_Content ''Permission denied''\<rparr>" by code_simp
  have limiter: "limiter_ok (fw_limiter sample_framework quota)" for quota
    by (simp add: sample_framework_def open_limiter_ok)
  have run: "handle_request sample_service sample_framework default_app ?q (world_of sample_tables)
    = (Inr \<lparr>rp_status = 200, rp_content = User_Content ?u\<rparr>, snd (sample_exchange ?q))"
    using ok by (simp add: sample_exchange_def prod_eq_iff)
  from replies_tell_the_entitled [OF sample_idle limiter run] ok staff
  show ?thesis by (simp add: Let_def)
qed

end
