(* ===== verification/Spec2Isabelle.thy ===== *)
theory Spec2Isabelle
  imports Http_Properties Schemas Rotation_Races Application Dependency_Properties
    Updater_Properties Github_Properties Migrations Ledger Web_Disclosure
begin

text \<open>
  A verification library for the fastdjango service template: a FastAPI service with users and
  JWT authentication (src/src/fastapi_template), its schema (src/migrations) and the tool
  that updates its dependencies (src/management/dependency_updater).

  \<^bold>\<open>The program.\<close> A request passes the middleware (CORS, trusted hosts, throttling by address),
  is routed to a controller, which checks the body's schema and, where the route asks for
  it, the bearer token and a throttle per user, and calls a use case. A use case opens a
  unit of work, one database transaction, and calls services; services work on
  repositories of the open unit. The exceptions they raise are values of one hierarchy;
  the unit of work rolls back on any of them and the controller translates some into HTTP
  errors. The dependency updater is a program of its own: it reads the repository's files,
  asks registries for versions in a thread pool, and rewrites the files.

  \<^bold>\<open>Representation.\<close> Everything is a definition at the top level of its theory; the functions
  compute. An operation with effects is a program of \<open>Prelude\<close>: a function from a world to a
  result, \<open>Inl\<close> an exception or \<open>Inr\<close> a value, and the next world, which is kept when an
  exception is raised. The world of the service (\<open>World\<close>) holds the database session and
  the state of SQLAlchemySessionFactory and of the unit of work's context variable; the world
  of the updater (\<open>Updater_Env\<close>) is the file system with what was written and started.
  Python's int is \<open>int\<close>, its str a list of \<open>char\<close> (one per code point up to 255: no
  operation modelled here depends on more, the Unicode tables being parameters), a datetime a wall
  clock in microseconds with an optional offset (\<open>Py_Time\<close>), a dict an association list where
  the order counts and a map where it does not.

  \<^bold>\<open>Parameters.\<close> What the repository only calls is an argument: the database behind SQLAlchemy
  (the record \<open>engine\<close> of \<open>Store\<close>, with the laws of \<open>engine_ok\<close>, which \<open>Memory_Engine\<close>
  shows to hold of lists of rows), clock, random tokens, password hashing, NFKC, case
  folding, e-mail validation and PyJWT (the record \<open>lib\<close> of \<open>World\<close>), the rate limiter, Redis,
  the TOML libraries, HTTP. The framework's \<open>request.url.path\<close> is taken to be the path of the
  request, as it is documented.

  \<^bold>\<open>The service.\<close>
  \<^item> \<open>Entities\<close>, \<open>Errors\<close>: core/*/entities, dtos, exceptions, the models and their mappers.
  \<^item> \<open>Store\<close>, \<open>World\<close>, \<open>Memory_Engine\<close>: the tables and constraints of
    migrations/versions/0001_create_auth_tables.py, and the session with its transaction.
  \<^item> \<open>Ports\<close>: the abstract repositories and the unit of work as records of operations, with the
    contracts \<open>user_repository_contract\<close>, \<open>refresh_session_repository_contract\<close> and
    \<open>runtime_contract\<close> as locales over an abstract view of a transaction.
  \<^item> \<open>User_Repository\<close>, \<open>Session_Repository\<close>, \<open>Unit_Of_Work\<close>: the SQLAlchemy adapters, statement
    by statement, and the interpretation of each contract on them.
  \<^item> \<open>User_Services\<close>, \<open>Refresh_Sessions\<close>, \<open>Jwt\<close>, \<open>Use_Cases\<close>: core/*/services and use_cases. Their
    lemmas are proved once in the locale \<open>application_contract\<close> against the contracts, and
    hold of the adapters by its interpretation \<open>app\<close>.
  \<^item> \<open>Py_IP\<close>, \<open>Requests\<close>: request.py, the throttlers and the pre-body middleware.
  \<^item> \<open>Http\<close>, \<open>Schemas\<close>: the controllers, the wrapping of their endpoints, the request schemas.
  \<^item> \<open>Application\<close>: entrypoints/fastapi/factory.py, the settings, the bootstrap, and the lifespan.
  \<^item> \<open>Migrations\<close>: the revision as operations on a schema, the table declarations of the models, and
    migrations/env.py with the interpolation of its configuration.
  \<^item> \<open>Web_App\<close>: the whole service as one program from an HTTP request to its reply: the middleware of
    the built application, dispatch, the dependencies of the route, the schema of the body, the
    endpoint, and what becomes of exceptions. What FastAPI and Starlette decide in between (a CORS
    preflight, a trusted host, requests without a route, the bearer header, path integers) is
    the record \<open>framework\<close>.
  \<^item> \<open>Rotation_Races\<close>: rotations and revocations of one token as interleaved statements.

  \<^bold>\<open>The dependency updater.\<close>
  \<^item> \<open>Py_Str\<close>, \<open>Py_Int\<close>, \<open>Py_Re\<close>: the string methods, \<open>int\<close>, \<open>str\<close> and the backtracking matcher of
    the \<open>re\<close> module the updater relies on.
  \<^item> \<open>Updater_Env\<close>: http.py, parallel.py (the pool as a step relation), output.py and the records.
  \<^item> \<open>Dependency_Bounds\<close>, \<open>Container_Images\<close>, \<open>Github_Actions\<close>: the three updaters.
  \<^item> \<open>Updater_Run\<close>, \<open>Command_Line\<close>: update_dependencies.py, progress_reporter.py and cli.py, with the
    command line as argparse reads it for the options of cli.py.
  \<^item> \<open>Github_Pins\<close>: what the pattern of an action pin matches, in closed form.

  \<^bold>\<open>What is shown.\<close>
  \<^item> \<open>Token_Properties\<close>: what issuing, refreshing and revoking store and refuse; a refresh token is
    used once; a revoked one never again. \<open>Histories\<close>: a spent token stays spent and sessions only
    wind down in any sequence of requests, failures of the database included (each request starts
    in a new context, as its task does). \<open>Ledger\<close>: every history is one of an abstract ledger of
    grants. \<open>Rotation_Races\<close>: a token is used once under any interleaving.
  \<^item> \<open>Web_Properties\<close>, \<open>Web_Disclosure\<close>: end to end, which changes a request can make and to whom a
    reply tells what.
  \<^item> \<open>User_Properties\<close>, \<open>Schemas\<close>: registration, the cause of every refused one, login after
    registration, who may look up users, what a body may contain, that a stored row fits its columns.
  \<^item> \<open>Http_Properties\<close>, \<open>Requests\<close>, \<open>Application\<close>: the statuses of refusals, that a route acts for
    the subject of its token, that no routed POST runs before its throttle, the address trace,
    the routes, and that a shutdown disposes the engines.
  \<^item> \<open>Requirement_Text\<close>, \<open>Dependency_Properties\<close>, \<open>Container_Properties\<close>, \<open>Updater_Properties\<close>: a chosen version
    satisfies the bounds of its requirement, a run of the synchronisation is settled, a chosen tag is the best compatible one, references
    are replaced where they stand alone, a dry run changes nothing and plans the real run, and the
    pool gives the same result in every order.
  \<^item> \<open>Github_Properties\<close>: an update of a workflow's pins changes refs only and is settled after one run.
  \<^item> \<open>Migrations\<close>: the revision has the columns and unique constraints of the models, the downgrade
    undoes it, and which database URLs reach the migrations.

  \<^bold>\<open>Bounds.\<close> The registries are read for at most 20 pages because the code has that bound. A
  repetition of a pattern runs for at most as many iterations as characters are left, which
  \<open>repeat_runs_fuel\<close> shows to lose nothing, since an iteration that consumes nothing is dropped. The
  thread pool runs at most eight resolvers, as the code does, and its loop reads finished futures in any
  order; its termination is proved. The
  interpolation of a configuration value is at most ten levels deep, which is the bound of
  configparser itself (MAX_INTERPOLATION_DEPTH). There is no other fuel.

  \<^bold>\<open>Not modelled.\<close> The abstract classes of foundation/ have no behaviour. The resolution of
  classes by diwire and the calls into logging, Logfire and Alembic are represented by what they
  are given. The texts of argparse's usage and help and the timing of the spinner, the row lock of
  \<open>with_for_update\<close> (no theorem relies on it), Alembic's own bookkeeping of revisions are left
  out; the slash redirects and the documentation routes of FastAPI are a parameter. A path matches a
  route segment by segment; that Starlette's patterns also accept one newline at the end of a path is
  not modelled. How SQLAlchemy builds its metadata from the models, constraint names of base.py
  included, is left to that library.
\<close>

end
